(* ===== verification/Prelude.thy ===== *)
theory Prelude imports Main "HOL-Library.Multiset" begin

text \<open>
  Shared vocabulary of the development.

  \<^item> The effect type of every stateful operation of the code, \<open>('s, 'e, 'a) prog\<close>: a program
    takes the state and returns either an exception or a value, with the new state in both
    cases, because a Python statement that raises keeps the effects of the statements before it.
  \<^item> Its combinators (sequencing, \<open>try\<close>/\<open>except\<close>, the \<open>for\<close> loop) with their unfolding
    lemmas.
  \<^item> Two program logics used by the components: \<open>keeps R m\<close> (whatever happens, the final
    state is related to the initial one by \<open>R\<close>) and \<open>post m Q\<close> (if the program returns, \<open>Q\<close>
    holds of the value and of the state). The first is packaged as a locale over the preorder
    \<open>R\<close>, so that a component proves its rules once for every such \<open>R\<close>.
  \<^item> Generic lemmas on lists and on \<open>find\<close>.
\<close>

section \<open>Programs with state and exceptions\<close>

type_synonym ('s, 'e, 'a) prog = "'s \<Rightarrow> ('e + 'a) \<times> 's"

definition ret :: "'a \<Rightarrow> ('s, 'e, 'a) prog" where
  "ret x = (\<lambda>s. (Inr x, s))"

definition raise :: "'e \<Rightarrow> ('s, 'e, 'a) prog" where
  "raise e = (\<lambda>s. (Inl e, s))"

definition bind :: "('s, 'e, 'a) prog \<Rightarrow> ('a \<Rightarrow> ('s, 'e, 'b) prog) \<Rightarrow> ('s, 'e, 'b) prog" where
  "bind m f = (\<lambda>s. case m s of (Inl e, s') \<Rightarrow> (Inl e, s') | (Inr x, s') \<Rightarrow> f x s')"

definition seq :: "('s, 'e, 'a) prog \<Rightarrow> ('s, 'e, 'b) prog \<Rightarrow> ('s, 'e, 'b) prog" where
  "seq m n = bind m (\<lambda>_. n)"

text \<open>
  \<open>try_except m sel h\<close> is \<open>try: m except <sel> as e: h e\<close>: an exception the selector does
  not accept goes on.
\<close>

definition try_except ::
  "('s, 'e, 'a) prog \<Rightarrow> ('e \<Rightarrow> bool) \<Rightarrow> ('e \<Rightarrow> ('s, 'e, 'a) prog) \<Rightarrow> ('s, 'e, 'a) prog" where
  "try_except m sel h =
     (\<lambda>s. case m s of (Inl e, s') \<Rightarrow> (if sel e then h e s' else (Inl e, s')) | (Inr x, s') \<Rightarrow> (Inr x, s'))"

text \<open>
  \<open>try_else m h n\<close> is \<open>try: m except ...: ... else: n\<close>: \<open>h e\<close> is the handler of the first
  clause that accepts \<open>e\<close>, if one does, and \<open>n\<close> runs outside the handlers' protection.
\<close>

definition try_else ::
  "('s, 'e, unit) prog \<Rightarrow> ('e \<Rightarrow> ('s, 'e, 'a) prog option) \<Rightarrow> ('s, 'e, 'a) prog \<Rightarrow> ('s, 'e, 'a) prog" where
  "try_else m h n =
     (\<lambda>s. case m s of (Inl e, s') \<Rightarrow> (case h e of None \<Rightarrow> (Inl e, s') | Some p \<Rightarrow> p s') | (Inr _, s') \<Rightarrow> n s')"

text \<open>\<open>lift_sum\<close> runs a pure computation that may raise.\<close>

definition lift_sum :: "'e + 'a \<Rightarrow> ('s, 'e, 'a) prog" where
  "lift_sum r = (\<lambda>s. (r, s))"

fun for_each :: "('x \<Rightarrow> ('s, 'e, unit) prog) \<Rightarrow> 'x list \<Rightarrow> ('s, 'e, unit) prog" where
  "for_each f [] = ret ()"
| "for_each f (x # xs) = seq (f x) (for_each f xs)"

lemma ret_apply: "ret x s = (Inr x, s)"
  by (simp add: ret_def)

lemma raise_apply: "raise e s = (Inl e, s)"
  by (simp add: raise_def)

lemma lift_sum_apply: "lift_sum r s = (r, s)"
  by (simp add: lift_sum_def)

lemma bind_Inr: "m s = (Inr x, s') \<Longrightarrow> bind m f s = f x s'"
  by (simp add: bind_def)

lemma bind_Inl: "m s = (Inl e, s') \<Longrightarrow> bind m f s = (Inl e, s')"
  by (simp add: bind_def)

lemma seq_Inr: "m s = (Inr x, s') \<Longrightarrow> seq m n s = n s'"
  by (simp add: seq_def bind_Inr)

lemma seq_Inl: "m s = (Inl e, s') \<Longrightarrow> seq m n s = (Inl e, s')"
  by (simp add: seq_def bind_Inl)

lemma try_Inr: "m s = (Inr x, s') \<Longrightarrow> try_except m sel h s = (Inr x, s')"
  by (simp add: try_except_def)

lemma try_Inl: "m s = (Inl e, s') \<Longrightarrow> try_except m sel h s = (if sel e then h e s' else (Inl e, s'))"
  by (simp add: try_except_def)

lemma try_else_Inr: "m s = (Inr x, s') \<Longrightarrow> try_else m h n s = n s'"
  by (simp add: try_else_def)

lemma try_else_Inl:
  "m s = (Inl e, s') \<Longrightarrow> try_else m h n s = (case h e of None \<Rightarrow> (Inl e, s') | Some p \<Rightarrow> p s')"
  by (simp add: try_else_def)

lemma bind_ret [simp]: "bind (ret x) f = f x"
  by (simp add: bind_def ret_def)

lemma bind_raise [simp]: "bind (raise e) f = raise e"
  by (simp add: bind_def raise_def)

lemma bind_assoc: "bind (bind m f) g = bind m (\<lambda>x. bind (f x) g)"
  by (rule ext) (simp add: bind_def split: prod.splits sum.splits)

lemma bind_lift_Inr [simp]: "bind (lift_sum (Inr x)) f = f x"
  by (simp add: bind_def lift_sum_def)

lemma bind_lift_Inl [simp]: "bind (lift_sum (Inl e)) f = raise e"
  by (simp add: bind_def lift_sum_def raise_def)

lemma seq_ret [simp]: "seq (ret x) n = n"
  by (simp add: seq_def)

lemma seq_raise [simp]: "seq (raise e) n = raise e"
  by (simp add: seq_def)

lemma bind_InrE:
  assumes "bind m f s = (Inr y, s'')"
  obtains x s' where "m s = (Inr x, s')" and "f x s' = (Inr y, s'')"
  using assms by (auto simp: bind_def split: prod.splits sum.splits)

lemma seq_InrE:
  assumes "seq m n s = (Inr y, s'')"
  obtains x s' where "m s = (Inr x, s')" and "n s' = (Inr y, s'')"
  using assms unfolding seq_def by (rule bind_InrE)

lemma for_each_append: "for_each f (xs @ ys) = seq (for_each f xs) (for_each f ys)"
  by (induction xs) (simp_all add: seq_def bind_assoc)

section \<open>What a program does to the state on every outcome\<close>

definition keeps :: "('s \<Rightarrow> 's \<Rightarrow> bool) \<Rightarrow> ('s, 'e, 'a) prog \<Rightarrow> bool" where
  "keeps R m \<longleftrightarrow> (\<forall>s. R s (snd (m s)))"

lemma keepsI: "(\<And>s. R s (snd (m s))) \<Longrightarrow> keeps R m"
  by (simp add: keeps_def)

lemma keepsD: "keeps R m \<Longrightarrow> R s (snd (m s))"
  by (simp add: keeps_def)

text \<open>
  The rules need \<open>R\<close> to be reflexive and transitive; a relation that is so gets them by
  interpreting the locale.
\<close>

locale state_preorder =
  fixes R :: "'s \<Rightarrow> 's \<Rightarrow> bool"
  assumes R_refl: "R s s"
    and R_trans: "R s t \<Longrightarrow> R t u \<Longrightarrow> R s u"
begin

lemma resp_ret: "keeps R (ret x)"
  by (simp add: keeps_def ret_def raise_def lift_sum_def R_refl)

lemma resp_raise: "keeps R (raise e)"
  by (simp add: keeps_def ret_def raise_def lift_sum_def R_refl)

lemma resp_lift: "keeps R (lift_sum r)"
  by (simp add: keeps_def ret_def raise_def lift_sum_def R_refl)

lemma resp_bind:
  assumes "keeps R m" and "\<And>x. keeps R (f x)"
  shows "keeps R (bind m f)"
proof (rule keepsI)
  fix s
  obtain r s' where m: "m s = (r, s')"
    by (cases "m s")
  have "R s s'"
    using keepsD [OF assms(1), of s] m by simp
  then show "R s (snd (bind m f s))"
    using m assms(2) by (cases r) (auto simp: bind_def intro: R_trans keepsD)
qed

lemma resp_seq: "keeps R m \<Longrightarrow> keeps R n \<Longrightarrow> keeps R (seq m n)"
  unfolding seq_def by (rule resp_bind)

lemma resp_try:
  assumes "keeps R m" and "\<And>e. sel e \<Longrightarrow> keeps R (h e)"
  shows "keeps R (try_except m sel h)"
proof (rule keepsI)
  fix s
  obtain r s' where m: "m s = (r, s')"
    by (cases "m s")
  have "R s s'"
    using keepsD [OF assms(1), of s] m by simp
  then show "R s (snd (try_except m sel h s))"
    using m assms(2) by (cases r) (auto simp: try_except_def intro: R_trans keepsD)
qed

lemma resp_try_else:
  assumes "keeps R m" and "\<And>e p. h e = Some p \<Longrightarrow> keeps R p" and "keeps R n"
  shows "keeps R (try_else m h n)"
proof (rule keepsI)
  fix s
  obtain r s' where m: "m s = (r, s')"
    by (cases "m s")
  have "R s s'"
    using keepsD [OF assms(1), of s] m by simp
  then show "R s (snd (try_else m h n s))"
    using m assms(2) keepsD [OF assms(3)]
    by (cases r) (auto simp: try_else_def split: option.splits intro: R_trans dest: keepsD)
qed

lemma resp_for_each: "(\<And>x. x \<in> set xs \<Longrightarrow> keeps R (f x)) \<Longrightarrow> keeps R (for_each f xs)"
  by (induction xs) (simp_all add: resp_ret resp_seq)

lemma resp_if: "(b \<Longrightarrow> keeps R m) \<Longrightarrow> (\<not> b \<Longrightarrow> keeps R n) \<Longrightarrow> keeps R (if b then m else n)"
  by simp

lemma resp_option:
  "keeps R m \<Longrightarrow> (\<And>x. keeps R (f x)) \<Longrightarrow> keeps R (case v of None \<Rightarrow> m | Some x \<Rightarrow> f x)"
  by (cases v) simp_all

lemmas resp_rules = resp_ret resp_raise resp_lift resp_bind resp_seq resp_try resp_try_else resp_for_each
  resp_if resp_option

end

section \<open>What holds when a program returns\<close>

definition post :: "('s, 'e, 'a) prog \<Rightarrow> ('a \<Rightarrow> 's \<Rightarrow> bool) \<Rightarrow> bool" where
  "post m Q \<longleftrightarrow> (\<forall>s x s'. m s = (Inr x, s') \<longrightarrow> Q x s')"

lemma postD: "post m Q \<Longrightarrow> m s = (Inr x, s') \<Longrightarrow> Q x s'"
  by (simp add: post_def)

lemma post_raise: "post (raise e) Q"
  by (simp add: post_def raise_def)

lemma post_bind: "(\<And>x. post (f x) Q) \<Longrightarrow> post (bind m f) Q"
  by (auto simp: post_def elim!: bind_InrE)

lemma post_seq: "post n Q \<Longrightarrow> post (seq m n) Q"
  unfolding seq_def by (rule post_bind)

lemma post_try: "post m Q \<Longrightarrow> (\<And>e. post (h e) Q) \<Longrightarrow> post (try_except m sel h) Q"
  by (auto simp: post_def try_except_def split: prod.splits sum.splits if_splits)

lemma post_try_else:
  "(\<And>e p. h e = Some p \<Longrightarrow> post p Q) \<Longrightarrow> post n Q \<Longrightarrow> post (try_else m h n) Q"
  by (fastforce simp: post_def try_else_def split: prod.splits sum.splits option.splits)

lemma post_option:
  "post m Q \<Longrightarrow> (\<And>x. post (f x) Q) \<Longrightarrow> post (case v of None \<Rightarrow> m | Some x \<Rightarrow> f x) Q"
  by (cases v) simp_all

lemma post_if: "(b \<Longrightarrow> post m Q) \<Longrightarrow> (\<not> b \<Longrightarrow> post n Q) \<Longrightarrow> post (if b then m else n) Q"
  by simp

lemmas post_rules = post_raise post_bind post_seq post_try post_try_else post_option post_if

section \<open>Lists\<close>

lemma find_map_cong:
  "(\<And>x. x \<in> set xs \<Longrightarrow> P (f x) = P x) \<Longrightarrow> find P (map f xs) = map_option f (find P xs)"
  by (induction xs) auto

lemma find_append: "find P (xs @ ys) = (case find P xs of None \<Rightarrow> find P ys | Some x \<Rightarrow> Some x)"
  by (induction xs) auto

lemma find_SomeD: "find P xs = Some x \<Longrightarrow> x \<in> set xs \<and> P x"
  by (induction xs) (auto split: if_splits)

lemma find_None_iff_all: "find P xs = None \<longleftrightarrow> (\<forall>x \<in> set xs. \<not> P x)"
  by (induction xs) auto

lemma find_key_distinct:
  "distinct (map k xs) \<Longrightarrow> x \<in> set xs \<Longrightarrow> find (\<lambda>y. k y = k x) xs = Some x"
  by (induction xs) (auto simp: rev_image_eqI)

lemma count_mset_filter_neq: "count (mset (filter (\<lambda>y. y \<noteq> x) xs)) z = (if z = x then 0 else count (mset xs) z)"
  by (induction xs) auto

lemma filter_mset_absent: "x \<notin># M \<Longrightarrow> filter_mset (\<lambda>y. y \<noteq> x) M = M"
  by (rule multiset_eqI) (auto simp: not_in_iff)

end
