(* ===== verification/Py_Text.thy ===== *)
theory Py_Text imports Prelude "HOL-Library.Char_ord" "HOL-Library.List_Lexorder" begin

text \<open>
  What the worker uses of Python's \<open>str\<close>, \<open>int\<close> and \<open>pathlib.PurePosixPath\<close>.

  A Python string is a list of characters with code points below 256 (\<open>char\<close> of HOL); the
  case mapping and the white space of that range are written out, so the model is exact for
  strings over it. The interpreter is the one the project asks for (3.12 and 3.13 agree on
  everything used here; in 3.14 \<open>PurePath.suffix\<close> changes for names that end in a dot).
\<close>

section \<open>Stripping, splitting, joining\<close>

definition ord_of :: "char \<Rightarrow> nat" where
  "ord_of c = of_char c"

definition is_space :: "char \<Rightarrow> bool" where
  "is_space c \<longleftrightarrow> (let n = ord_of c in
     (9 \<le> n \<and> n \<le> 13) \<or> (28 \<le> n \<and> n \<le> 32) \<or> n = 133 \<or> n = 160)"

definition strip_right :: "(char \<Rightarrow> bool) \<Rightarrow> string \<Rightarrow> string" where
  "strip_right p s = rev (dropWhile p (rev s))"

definition strip_left :: "(char \<Rightarrow> bool) \<Rightarrow> string \<Rightarrow> string" where
  "strip_left p s = dropWhile p s"

definition strip_both :: "(char \<Rightarrow> bool) \<Rightarrow> string \<Rightarrow> string" where
  "strip_both p s = strip_right p (strip_left p s)"

text \<open>\<open>s.split(c)\<close> for a separator of one character: always at least one part.\<close>

fun split_on :: "char \<Rightarrow> string \<Rightarrow> string list" where
  "split_on c [] = [[]]"
| "split_on c (x # xs) =
     (if x = c then [] # split_on c xs
      else (case split_on c xs of [] \<Rightarrow> [[x]] | p # ps \<Rightarrow> (x # p) # ps))"

fun join :: "string \<Rightarrow> string list \<Rightarrow> string" where
  "join sep [] = []"
| "join sep [x] = x"
| "join sep (x # y # ys) = x @ sep @ join sep (y # ys)"

definition starts_with :: "string \<Rightarrow> string \<Rightarrow> bool" where
  "starts_with p s \<longleftrightarrow> take (length p) s = p"

definition ends_with :: "string \<Rightarrow> string \<Rightarrow> bool" where
  "ends_with p s \<longleftrightarrow> starts_with (rev p) (rev s)"

definition lower_char :: "char \<Rightarrow> char" where
  "lower_char c = (let n = ord_of c in
     if (65 \<le> n \<and> n \<le> 90) \<or> (192 \<le> n \<and> n \<le> 222 \<and> n \<noteq> 215) then char_of (n + 32) else c)"

definition lower :: "string \<Rightarrow> string" where
  "lower s = map lower_char s"

lemma split_on_nonempty [simp]: "split_on c s \<noteq> []"
  by (induction s) (auto split: list.splits)

lemma split_on_no_sep: "c \<notin> set s \<Longrightarrow> split_on c s = [s]"
  by (induction s) auto

lemma split_on_append: "c \<notin> set s \<Longrightarrow> split_on c (s @ c # t) = s # split_on c t"
  by (induction s) auto

lemma split_on_parts: "p \<in> set (split_on c s) \<Longrightarrow> c \<notin> set p"
  by (induction s arbitrary: p) (auto split: list.splits if_splits)

lemma join_split_on: "join [c] (split_on c s) = s"
proof (induction s)
  case (Cons x xs)
  obtain p ps where sp: "split_on c xs = p # ps"
    by (cases "split_on c xs") auto
  show ?case
    using Cons sp by (cases ps) auto
qed simp

lemma split_on_join: "xs \<noteq> [] \<Longrightarrow> \<forall>x \<in> set xs. c \<notin> set x \<Longrightarrow> split_on c (join [c] xs) = xs"
  by (induction "[c]" xs rule: join.induct) (auto simp: split_on_no_sep split_on_append)

lemma starts_with_append [simp]: "starts_with p (p @ s)"
  by (simp add: starts_with_def)

lemma starts_withE:
  assumes "starts_with p s"
  obtains t where "s = p @ t"
  using assms unfolding starts_with_def by (metis append_take_drop_id)

lemma ends_with_snoc: "ends_with [c] (s @ [d]) \<longleftrightarrow> c = d"
  by (auto simp: ends_with_def starts_with_def)

lemma strip_right_noop: "s = [] \<or> \<not> p (last s) \<Longrightarrow> strip_right p s = s"
  by (cases s rule: rev_cases) (auto simp: strip_right_def)

lemma strip_right_snoc: "strip_right p (s @ [x]) = (if p x then strip_right p s else s @ [x])"
  by (simp add: strip_right_def)

lemma strip_left_noop: "s = [] \<or> \<not> p (hd s) \<Longrightarrow> strip_left p s = s"
  by (cases s) (auto simp: strip_left_def)

lemma strip_both_noop: "\<forall>c \<in> set s. \<not> p c \<Longrightarrow> strip_both p s = s"
proof -
  assume "\<forall>c \<in> set s. \<not> p c"
  then have "strip_left p s = s" and "strip_right p s = s"
    by (cases s; simp add: strip_left_def) (rule strip_right_noop, use \<open>\<forall>c \<in> set s. \<not> p c\<close> in auto)
  then show ?thesis by (simp add: strip_both_def)
qed

section \<open>Posix paths\<close>

text \<open>
  \<open>pathlib\<close> parses a path into its non-empty components other than \<open>'.'\<close>; a doubled or
  trailing slash disappears, \<open>'..'\<close> stays. \<open>name\<close> is the last component, \<open>suffix\<close> the part
  of the name from its last dot, provided the dot is neither its first nor its last character.
\<close>

definition slash :: char where
  "slash = CHR ''/''"

definition dot :: char where
  "dot = CHR ''.''"

definition path_parts :: "string \<Rightarrow> string list" where
  "path_parts s = filter (\<lambda>x. x \<noteq> [] \<and> x \<noteq> [dot]) (split_on slash s)"

definition path_name :: "string \<Rightarrow> string" where
  "path_name s = (case rev (path_parts s) of [] \<Rightarrow> [] | x # _ \<Rightarrow> x)"

definition rfind :: "char \<Rightarrow> string \<Rightarrow> nat option" where
  "rfind c s = (let k = length (takeWhile (\<lambda>x. x \<noteq> c) (rev s)) in
     if k = length s then None else Some (length s - k - 1))"

definition name_suffix :: "string \<Rightarrow> string" where
  "name_suffix n = (case rfind dot n of
     None \<Rightarrow> []
   | Some i \<Rightarrow> if 0 < i \<and> i < length n - 1 then drop i n else [])"

definition path_suffix :: "string \<Rightarrow> string" where
  "path_suffix s = name_suffix (path_name s)"

lemma rfind_snoc: "c \<notin> set t \<Longrightarrow> rfind c (s @ c # t) = Some (length s)"
  by (auto simp: rfind_def takeWhile_append Let_def)

lemma rfind_none: "c \<notin> set s \<Longrightarrow> rfind c s = None"
proof -
  assume "c \<notin> set s"
  then have "length (takeWhile (\<lambda>x. x \<noteq> c) (rev s)) = length s"
    by (subst takeWhile_eq_all_conv [THEN iffD2]) auto
  then show ?thesis by (simp add: rfind_def)
qed

lemma last_dot_cases:
  obtains (no) "c \<notin> set s" | (yes) u v where "s = u @ c # v" and "c \<notin> set v"
  using split_list_last by fastforce

lemma name_suffix_dotted:
  "dot \<notin> set e \<Longrightarrow> name_suffix (u @ dot # e) = (if u \<noteq> [] \<and> e \<noteq> [] then dot # e else [])"
  by (auto simp: name_suffix_def rfind_snoc)

lemma name_suffix_no_dot: "dot \<notin> set n \<Longrightarrow> name_suffix n = []"
  by (simp add: name_suffix_def rfind_none)

lemma name_suffix_shape:
  "name_suffix n = [] \<or> (\<exists>e. name_suffix n = dot # e \<and> e \<noteq> [] \<and> dot \<notin> set e)"
  by (rule last_dot_cases [of dot n]) (auto simp: name_suffix_no_dot name_suffix_dotted)

lemma nonempty_parts_snoc:
  "filter (\<lambda>x. x \<noteq> []) (split_on c (s @ [c])) = filter (\<lambda>x. x \<noteq> []) (split_on c s)
   \<and> hd (split_on c (s @ [c])) = hd (split_on c s)
   \<and> filter (\<lambda>x. x \<noteq> []) (tl (split_on c (s @ [c]))) = filter (\<lambda>x. x \<noteq> []) (tl (split_on c s))"
  by (induction s) (auto split: list.splits)

lemma path_parts_alt:
  "path_parts s = filter (\<lambda>x. x \<noteq> [dot]) (filter (\<lambda>x. x \<noteq> []) (split_on slash s))"
  by (simp add: path_parts_def filter_filter conj_commute)

lemma path_parts_snoc_slash: "path_parts (s @ [slash]) = path_parts s"
  by (simp only: path_parts_alt nonempty_parts_snoc)

lemma path_parts_strip_right: "path_parts (strip_right (\<lambda>c. c = slash) s) = path_parts s"
  by (induction s rule: rev_induct) (auto simp: strip_right_snoc path_parts_snoc_slash strip_right_def)

lemma path_name_strip_right: "path_name (strip_right (\<lambda>c. c = slash) s) = path_name s"
  by (simp add: path_name_def path_parts_strip_right)

lemma path_parts_join:
  assumes "\<forall>x \<in> set xs. slash \<notin> set x \<and> x \<noteq> [] \<and> x \<noteq> [dot]"
  shows "path_parts (join [slash] xs) = xs"
proof (cases "xs = []")
  case False
  with assms have "split_on slash (join [slash] xs) = xs"
    by (simp add: split_on_join)
  with assms show ?thesis
    by (simp add: path_parts_def)
qed (simp add: path_parts_def)


section \<open>Integers and text\<close>

text \<open>\<open>str(n)\<close>, and \<open>format(n, ',')\<close> with a comma every three digits.\<close>

fun str_nat :: "nat \<Rightarrow> string" where
  "str_nat n = (if n < 10 then [char_of (48 + n)] else str_nat (n div 10) @ [char_of (48 + n mod 10)])"

declare str_nat.simps [simp del]

definition str_int :: "int \<Rightarrow> string" where
  "str_int i = (if i < 0 then CHR ''-'' # str_nat (nat (- i)) else str_nat (nat i))"

fun commas :: "string \<Rightarrow> string" where
  "commas (a # b # c # d # r) = a # b # c # CHR '','' # commas (d # r)"
| "commas s = s"

definition str_grouped :: "int \<Rightarrow> string" where
  "str_grouped i = (if i < 0 then CHR ''-'' # rev (commas (rev (str_nat (nat (- i)))))
     else rev (commas (rev (str_nat (nat i)))))"

text \<open>
  \<open>int(s, base)\<close>: white space on both sides, a sign, \<open>0x\<close> in base 16, digits with single
  underscores between them; \<open>None\<close> is \<open>ValueError\<close>. A decimal text of more than 4300 digits
  is refused too (the interpreter's limit on text to integer conversion).
\<close>

definition int_space :: "char \<Rightarrow> bool" where
  "int_space c \<longleftrightarrow> (let n = ord_of c in (9 \<le> n \<and> n \<le> 13) \<or> n = 32 \<or> n = 133 \<or> n = 160)"

definition digit_val :: "char \<Rightarrow> nat option" where
  "digit_val c = (let n = ord_of c in
     if 48 \<le> n \<and> n \<le> 57 then Some (n - 48)
     else if 97 \<le> n \<and> n \<le> 102 then Some (n - 87)
     else if 65 \<le> n \<and> n \<le> 70 then Some (n - 55) else None)"

fun scan_digits :: "nat \<Rightarrow> bool \<Rightarrow> nat \<Rightarrow> string \<Rightarrow> nat option" where
  "scan_digits b us acc [] = (if us then None else Some acc)"
| "scan_digits b us acc (c # cs) =
     (if c = CHR ''_'' then (if us then None else scan_digits b True acc cs)
      else (case digit_val c of None \<Rightarrow> None
        | Some d \<Rightarrow> if d < b then scan_digits b False (acc * b + d) cs else None))"

definition drop_hex_prefix :: "string \<Rightarrow> string" where
  "drop_hex_prefix s = (case s of
     a # x # r \<Rightarrow> if a = CHR ''0'' \<and> (x = CHR ''x'' \<or> x = CHR ''X'')
       then (case r of u # r' \<Rightarrow> if u = CHR ''_'' then r' else r | [] \<Rightarrow> r) else s
   | _ \<Rightarrow> s)"

definition max_str_digits :: nat where
  "max_str_digits = 4300"

definition scan_unsigned :: "nat \<Rightarrow> string \<Rightarrow> nat option" where
  "scan_unsigned b s =
     (if b = 10 \<and> max_str_digits < length (filter (\<lambda>c. c \<noteq> CHR ''_'') s) then None
      else scan_digits b True 0 (if b = 16 then drop_hex_prefix s else s))"

definition parse_int :: "nat \<Rightarrow> string \<Rightarrow> int option" where
  "parse_int b raw = (case strip_both int_space raw of
     [] \<Rightarrow> None
   | c # cs \<Rightarrow>
       if c = CHR ''-'' then map_option (\<lambda>n. - int n) (scan_unsigned b cs)
       else if c = CHR ''+'' then map_option int (scan_unsigned b cs)
       else map_option int (scan_unsigned b (c # cs)))"

lemma ord_of_char_of [simp]: "n < 256 \<Longrightarrow> ord_of (char_of n) = n"
  by (simp add: ord_of_def)

lemma digit_val_decimal: "d < 10 \<Longrightarrow> digit_val (char_of (48 + d)) = Some d"
  by (simp add: digit_val_def)

lemma ord_of_neq: "ord_of c \<noteq> ord_of d \<Longrightarrow> c \<noteq> d"
  by auto

lemma int_space_digit: "(d :: nat) < 10 \<Longrightarrow> \<not> int_space (char_of (48 + d))"
  by (simp add: int_space_def)

lemma digit_neq_underscore: "(d :: nat) < 10 \<Longrightarrow> char_of (48 + d) \<noteq> CHR ''_''"
  by (rule ord_of_neq) (simp add: ord_of_def)

lemma scan_digits_str_nat:
  "scan_digits 10 us acc (str_nat n @ r) = scan_digits 10 False (acc * 10 ^ length (str_nat n) + n) r"
proof (induction n arbitrary: us acc r rule: str_nat.induct)
  case (1 n)
  show ?case
  proof (cases "n < 10")
    case True
    then show ?thesis
      by (simp add: str_nat.simps [of n] digit_val_decimal digit_neq_underscore)
  next
    case False
    have "n mod 10 < 10" by simp
    moreover have "acc * 10 ^ length (str_nat (n div 10)) * 10 + n div 10 * 10 + n mod 10
        = acc * 10 ^ length (str_nat (n div 10)) * 10 + n"
      by simp
    ultimately show ?thesis
      using False "1.IH" [of us acc "char_of (48 + n mod 10) # r"]
      by (simp add: str_nat.simps [of n] digit_val_decimal digit_neq_underscore algebra_simps)
  qed
qed

lemma str_nat_chars: "c \<in> set (str_nat n) \<Longrightarrow> \<exists>d :: nat. d < 10 \<and> c = char_of (48 + d)"
proof (induction n rule: str_nat.induct)
  case (1 n)
  consider "n < 10" "c = char_of (48 + n)" | "\<not> n < 10" "c \<in> set (str_nat (n div 10))"
    | "c = char_of (48 + n mod 10)"
    using 1(2) by (auto simp: str_nat.simps [of n] split: if_splits)
  then show ?case
  proof cases
    case 3
    then show ?thesis by (intro exI [of _ "n mod 10"]) simp
  qed (use 1(1) in blast)+
qed

lemma str_nat_nonempty [simp]: "str_nat n \<noteq> []"
  by (subst str_nat.simps) simp

lemma str_int_nonempty [simp]: "str_int i \<noteq> []"
  by (simp add: str_int_def)

lemma str_nat_ord: "c \<in> set (str_nat n) \<Longrightarrow> 48 \<le> ord_of c \<and> ord_of c \<le> 57"
  by (auto dest!: str_nat_chars)

lemma length_str_nat: "n < 10 ^ k \<Longrightarrow> 0 < k \<Longrightarrow> length (str_nat n) \<le> k"
proof (induction n arbitrary: k rule: str_nat.induct)
  case (1 n)
  show ?case
  proof (cases "n < 10")
    case True
    with 1(3) show ?thesis by (simp add: str_nat.simps [of n])
  next
    case False
    with 1(2) have "k \<noteq> Suc 0" by (intro notI) simp
    with 1(3) obtain k' where k: "k = Suc k'" "0 < k'" by (cases k) auto
    with 1(2) have "n div 10 < 10 ^ k'" by simp
    with 1(1) [OF False] k have "length (str_nat (n div 10)) \<le> k'" by simp
    with False k show ?thesis by (simp add: str_nat.simps [of n])
  qed
qed

lemma str_nat_hd: "hd (str_nat n) \<in> set (str_nat n)"
  by simp

lemma scan_unsigned_str_nat:
  assumes "n < 10 ^ max_str_digits"
  shows "scan_unsigned 10 (str_nat n) = Some n"
proof -
  have "length (filter (\<lambda>c. c \<noteq> CHR ''_'') (str_nat n)) \<le> length (str_nat n)"
    by (rule length_filter_le)
  also have "\<dots> \<le> max_str_digits"
    using assms by (rule length_str_nat) (simp add: max_str_digits_def)
  finally show ?thesis
    using scan_digits_str_nat [of True 0 n "[]"] by (simp add: scan_unsigned_def)
qed

lemma strip_both_int_str: "strip_both int_space (str_int i) = str_int i"
proof (rule strip_both_noop, rule ballI)
  fix c assume "c \<in> set (str_int i)"
  then have "c = CHR ''-'' \<or> (48 \<le> ord_of c \<and> ord_of c \<le> 57)"
    by (auto simp: str_int_def dest: str_nat_ord split: if_splits)
  then show "\<not> int_space c"
    by (auto simp: int_space_def ord_of_def)
qed

text \<open>\<open>int(str(i)) == i\<close> for every integer within the interpreter's text limit.\<close>

lemma parse_int_str_int:
  assumes "\<bar>i\<bar> < 10 ^ max_str_digits"
  shows "parse_int 10 (str_int i) = Some i"
proof -
  have n: "scan_unsigned 10 (str_nat (nat \<bar>i\<bar>)) = Some (nat \<bar>i\<bar>)"
    using assms by (intro scan_unsigned_str_nat) (simp add: nat_less_iff)
  have hd: "c \<noteq> CHR ''-'' \<and> c \<noteq> CHR ''+''" if "str_nat (nat i) = c # cs" for c cs
    using str_nat_ord [of c "nat i"] that by (auto simp: ord_of_def)
  show ?thesis
  proof (cases "i < 0")
    case True
    with n show ?thesis
      by (simp add: parse_int_def strip_both_int_str) (simp add: str_int_def)
  next
    case False
    obtain c cs where s: "str_nat (nat i) = c # cs"
      by (cases "str_nat (nat i)") auto
    from hd [OF s] n False s show ?thesis
      by (simp add: parse_int_def strip_both_int_str) (simp add: str_int_def)
  qed
qed

section \<open>repr of a string\<close>

definition hex_digit :: "nat \<Rightarrow> char" where
  "hex_digit n = (if n < 10 then char_of (48 + n) else char_of (87 + n))"

definition printable :: "char \<Rightarrow> bool" where
  "printable c \<longleftrightarrow> (let n = ord_of c in (32 \<le> n \<and> n \<le> 126) \<or> (161 \<le> n \<and> n \<noteq> 173))"

definition repr_char :: "char \<Rightarrow> char \<Rightarrow> string" where
  "repr_char q c =
     (if c = q \<or> c = char_of (92 :: nat) then [char_of (92 :: nat), c]
      else if ord_of c = 9 then char_of (92 :: nat) # ''t''
      else if ord_of c = 10 then char_of (92 :: nat) # ''n''
      else if ord_of c = 13 then char_of (92 :: nat) # ''r''
      else if printable c then [c]
      else char_of (92 :: nat) # CHR ''x'' # [hex_digit (ord_of c div 16), hex_digit (ord_of c mod 16)])"

definition single_quote :: char where
  "single_quote = char_of (39 :: nat)"

definition double_quote :: char where
  "double_quote = char_of (34 :: nat)"

definition repr_str :: "string \<Rightarrow> string" where
  "repr_str s = (let q = (if single_quote \<in> set s \<and> double_quote \<notin> set s then double_quote else single_quote)
     in q # concat (map (repr_char q) s) @ [q])"

end
