(* ===== verification/Py_Exn.thy ===== *)
theory Py_Exn imports Py_Text begin

text \<open>
  The exceptions the worker raises, lets pass or catches, as one datatype. An exception class
  of the repository is a constructor of its name; a class of a library the sources only call
  is represented by what it prints.

  \<open>Killed\<close> and \<open>Blocked\<close> are not Python exceptions: they mark a run that ends in the middle of
  a call because the process is killed (power loss, \<open>kill -9\<close>, the out-of-memory killer) or
  because a blocking call never returns. No handler and no \<open>finally\<close> of the code runs then.
\<close>

datatype exn =
    Killed
  | Blocked
  | SystemExit int
  | ValueError string
  | KeyError string
  | TypeError string
  | RuntimeError string
  | OSError string
  | DriverError string  \<comment> \<open>raised by \<open>psycopg2\<close> or \<open>redis\<close>\<close>
  | S3Error string  \<comment> \<open>\<open>Boto3Error\<close>, \<open>BotoCoreError\<close>, \<open>ClientError\<close>\<close>
  | HfHubHTTPError string
  | GpuError string  \<comment> \<open>raised by the training libraries\<close>
  | UnsupportedDatasetFormatError string string string  \<comment> \<open>format, dataset path, message\<close>
  | OversizedModelError string
  | ConfigError string
  | ModelCacheError string
  | DatasetDownloadError string
  | CheckpointUploadError string
  | TrainerError string

text \<open>What \<open>except Exception\<close> catches.\<close>

fun is_exception :: "exn \<Rightarrow> bool" where
  "is_exception Killed = False"
| "is_exception Blocked = False"
| "is_exception (SystemExit _) = False"
| "is_exception _ = True"

text \<open>\<open>str(exc)\<close>.\<close>

fun exn_str :: "exn \<Rightarrow> string" where
  "exn_str Killed = []"
| "exn_str Blocked = []"
| "exn_str (SystemExit i) = str_int i"
| "exn_str (ValueError m) = m"
| "exn_str (KeyError k) = repr_str k"
| "exn_str (TypeError m) = m"
| "exn_str (RuntimeError m) = m"
| "exn_str (OSError m) = m"
| "exn_str (DriverError m) = m"
| "exn_str (S3Error m) = m"
| "exn_str (HfHubHTTPError m) = m"
| "exn_str (GpuError m) = m"
| "exn_str (UnsupportedDatasetFormatError f p m) = m"
| "exn_str (OversizedModelError m) = m"
| "exn_str (ConfigError m) = m"
| "exn_str (ModelCacheError m) = m"
| "exn_str (DatasetDownloadError m) = m"
| "exn_str (CheckpointUploadError m) = m"
| "exn_str (TrainerError m) = m"

end
