(* ===== verification/Command_Line.thy ===== *)
theory Command_Line imports Py_Text Py_Exn begin

text \<open>
  What the registration scripts use of \<open>argparse\<close> (the version of CPython 3.12): options that take one
  value, flags and the help option, without positional arguments, sub-parsers or types. Every argument is
  first classified, then consumed from left to right; the first error ends the program with exit code 2,
  the help option with 0.
\<close>

section \<open>A parser\<close>

datatype arg_kind = Help | Store | Flag

record arg_spec =
  as_names :: "string list"
  as_kind :: arg_kind
  as_required :: bool

definition help_option :: arg_spec where
  "help_option = \<lparr>as_names = [''-h'', ''--help''], as_kind = Help, as_required = False\<rparr>"

definition find_option :: "arg_spec list \<Rightarrow> string \<Rightarrow> arg_spec option" where
  "find_option specs n = find (\<lambda>s. n \<in> set (as_names s)) specs"

text \<open>A plain word, the separator \<open>--\<close>, or an option (unknown: \<open>None\<close>) as it was written, with a value behind \<open>=\<close>.\<close>

datatype token = Word string | Separator | Option "arg_spec option" string "string option"

fun split_eq :: "string \<Rightarrow> (string \<times> string) option" where
  "split_eq [] = None"
| "split_eq (c # cs) = (if c = CHR ''='' then Some ([], cs) else map_option (\<lambda>(n, v). (c # n, v)) (split_eq cs))"

text \<open>The pattern \<open>^-\d+$|^-\d*\.\d+$\<close>.\<close>

definition ascii_digit :: "char \<Rightarrow> bool" where
  "ascii_digit c \<longleftrightarrow> 48 \<le> ord_of c \<and> ord_of c \<le> 57"

definition negative_number :: "string \<Rightarrow> bool" where
  "negative_number s = (case s of [] \<Rightarrow> False | c # r \<Rightarrow> c = CHR ''-'' \<and>
     (let m = takeWhile ascii_digit r; q = dropWhile ascii_digit r in
      (q = [] \<and> m \<noteq> []) \<or> (case q of [] \<Rightarrow> False | d # k \<Rightarrow> d = CHR ''.'' \<and> k \<noteq> [] \<and> list_all ascii_digit k)))"

text \<open>\<open>_get_option_tuples\<close>: a long option may be cut short; a short one may carry its value.\<close>

definition abbreviated :: "arg_spec list \<Rightarrow> string \<Rightarrow> token list" where
  "abbreviated specs arg =
     (if take 2 arg = ''--'' then
        (case (case split_eq arg of None \<Rightarrow> (arg, None) | Some (n, v) \<Rightarrow> (n, Some v)) of (pre, v) \<Rightarrow>
           concat (map (\<lambda>s. map (\<lambda>n. Option (Some s) n v) (filter (starts_with pre) (as_names s))) specs))
      else concat (map (\<lambda>s. concat (map (\<lambda>n.
           if n = take 2 arg then [Option (Some s) n (Some (drop 2 arg))]
           else if starts_with arg n then [Option (Some s) n None] else []) (as_names s))) specs))"

definition classify :: "arg_spec list \<Rightarrow> string \<Rightarrow> exn + token" where
  "classify specs arg =
     (if arg = [] \<or> hd arg \<noteq> CHR ''-'' then Inr (Word arg)
      else case find_option specs arg of Some s \<Rightarrow> Inr (Option (Some s) arg None)
      | None \<Rightarrow> if length arg = 1 then Inr (Word arg)
      else case (case split_eq arg of None \<Rightarrow> None
          | Some (n, v) \<Rightarrow> map_option (\<lambda>s. Option (Some s) n (Some v)) (find_option specs n)) of Some t \<Rightarrow> Inr t
      | None \<Rightarrow> (case abbreviated specs arg of
          [t] \<Rightarrow> Inr t
        | _ # _ \<Rightarrow> Inl (SystemExit 2)
        | [] \<Rightarrow> if negative_number arg \<or> CHR '' '' \<in> set arg then Inr (Word arg) else Inr (Option None arg None)))"

text \<open>Behind the separator everything is a word.\<close>

fun tokens :: "arg_spec list \<Rightarrow> string list \<Rightarrow> exn + token list" where
  "tokens specs [] = Inr []"
| "tokens specs (arg # args) =
     (if arg = ''--'' then Inr (Separator # map Word args)
      else case classify specs arg of Inl e \<Rightarrow> Inl e
      | Inr t \<Rightarrow> (case tokens specs args of Inl e \<Rightarrow> Inl e | Inr ts \<Rightarrow> Inr (t # ts)))"

text \<open>
  The values, the latest first, under the first name of their option, and whether something was left over.
  A short option with characters behind it is a row of short options, of which there is only \<open>-h\<close>.
\<close>

definition take_option :: "arg_spec \<Rightarrow> string \<Rightarrow> string option \<Rightarrow> token list \<Rightarrow> exn + string \<times> token list" where
  "take_option s n v ts = (case as_kind s of
     Help \<Rightarrow> (case v of
         None \<Rightarrow> Inl (SystemExit 0)
       | Some x \<Rightarrow> if take 2 n \<noteq> ''--'' \<and> x \<noteq> [] \<and> list_all (\<lambda>c. c = CHR ''h'') x then Inl (SystemExit 0) else Inl (SystemExit 2))
   | Flag \<Rightarrow> (case v of None \<Rightarrow> Inr ([], ts) | Some _ \<Rightarrow> Inl (SystemExit 2))
   | Store \<Rightarrow> (case v of
         Some x \<Rightarrow> Inr (x, ts)
       | None \<Rightarrow> (case ts of Word x # rest \<Rightarrow> Inr (x, rest) | _ \<Rightarrow> Inl (SystemExit 2))))"

lemma take_option_shorter: "take_option s n v ts = Inr (x, rest) \<Longrightarrow> length rest \<le> length ts"
  by (auto simp: take_option_def split: arg_kind.splits option.splits list.splits token.splits if_splits)

function consume :: "token list \<Rightarrow> (string \<times> string) list \<Rightarrow> bool \<Rightarrow> exn + (string \<times> string) list \<times> bool" where
  "consume [] vals extras = Inr (vals, extras)"
| "consume (Word x # ts) vals extras = consume ts vals True"
| "consume (Separator # ts) vals extras = consume ts vals True"
| "consume (Option None n v # ts) vals extras = consume ts vals True"
| "consume (Option (Some s) n v # ts) vals extras =
     (case take_option s n v ts of Inl e \<Rightarrow> Inl e
      | Inr (x, rest) \<Rightarrow> consume rest ((hd (as_names s), x) # vals) extras)"
  by pat_completeness auto

termination
  by (relation "measure (\<lambda>(ts, _, _). length ts)") (auto dest: take_option_shorter)

definition parse_args :: "arg_spec list \<Rightarrow> string list \<Rightarrow> exn + (string \<times> string) list" where
  "parse_args specs argv = (case tokens specs argv of Inl e \<Rightarrow> Inl e
     | Inr ts \<Rightarrow> (case consume ts [] False of Inl e \<Rightarrow> Inl e
       | Inr (vals, extras) \<Rightarrow>
           if (\<exists>s \<in> set specs. as_required s \<and> hd (as_names s) \<notin> fst ` set vals) \<or> extras
           then Inl (SystemExit 2) else Inr vals))"

section \<open>Errors\<close>

lemma classify_error: "classify specs arg = Inl e \<Longrightarrow> e = SystemExit 2"
  by (auto simp: classify_def split: if_splits option.splits list.splits)

lemma tokens_error: "tokens specs argv = Inl e \<Longrightarrow> e = SystemExit 2"
  by (induction argv) (auto split: if_splits sum.splits dest: classify_error)

lemma consume_error: "consume ts vals extras = Inl e \<Longrightarrow> e = SystemExit 0 \<or> e = SystemExit 2"
  by (induction ts vals extras rule: consume.induct)
    (auto simp: take_option_def split: sum.splits prod.splits arg_kind.splits option.splits list.splits token.splits if_splits)

lemma parse_args_error: "parse_args specs argv = Inl e \<Longrightarrow> e = SystemExit 0 \<or> e = SystemExit 2"
  by (auto simp: parse_args_def dest: tokens_error consume_error split: sum.splits if_splits)

section \<open>Round trip\<close>

text \<open>Giving every option its value behind \<open>=\<close> works for every value.\<close>

lemma split_eq_append: "CHR ''='' \<notin> set n \<Longrightarrow> split_eq (n @ CHR ''='' # v) = Some (n, v)"
  by (induction n) auto

definition given :: "string \<times> string \<Rightarrow> string" where
  "given nv = fst nv @ CHR ''='' # snd nv"

definition plain_names :: "arg_spec list \<Rightarrow> bool" where
  "plain_names specs \<longleftrightarrow> (\<forall>s \<in> set specs. \<forall>n \<in> set (as_names s). CHR ''='' \<notin> set n)"

lemma find_option_named: "find_option specs n = Some s \<Longrightarrow> s \<in> set specs \<and> n \<in> set (as_names s)"
  by (auto simp: find_option_def find_Some_iff)

lemma classify_given:
  assumes "plain_names specs" and "find_option specs n = Some s" and "take 2 n = ''--''"
  shows "classify specs (given (n, v)) = Inr (Option (Some s) n (Some v))" and "given (n, v) \<noteq> ''--''"
proof -
  have "CHR ''='' \<notin> set n" using assms(1) find_option_named [OF assms(2)] by (auto simp: plain_names_def)
  then have e: "split_eq (given (n, v)) = Some (n, v)" by (simp add: given_def split_eq_append)
  obtain m where m: "n = ''--'' @ m" using assms(3) by (metis append_take_drop_id)
  have "find_option specs (given (n, v)) = None"
  proof -
    have "CHR ''='' \<in> set (given (n, v))" by (simp add: given_def)
    then show ?thesis using assms(1) by (auto simp: find_option_def find_None_iff plain_names_def)
  qed
  then show "classify specs (given (n, v)) = Inr (Option (Some s) n (Some v))"
    using e assms(2) by (simp add: classify_def) (simp add: given_def m)
  show "given (n, v) \<noteq> ''--''" by (simp add: given_def m)
qed

definition stores :: "arg_spec list \<Rightarrow> string \<Rightarrow> bool" where
  "stores specs n \<longleftrightarrow> take 2 n = ''--'' \<and>
     (case find_option specs n of None \<Rightarrow> False | Some s \<Rightarrow> as_kind s = Store \<and> hd (as_names s) = n)"

lemma tokens_given:
  assumes "plain_names specs" and "\<forall>nv \<in> set nvs. stores specs (fst nv)"
  shows "tokens specs (map given nvs) = Inr (map (\<lambda>(n, v). Option (find_option specs n) n (Some v)) nvs)"
  using assms(2)
proof (induction nvs)
  case (Cons nv nvs)
  obtain n v where nv: "nv = (n, v)" by (cases nv)
  then obtain s where s: "find_option specs n = Some s" "take 2 n = ''--''"
    using Cons.prems by (auto simp: stores_def split: option.splits)
  show ?case using Cons classify_given [OF assms(1) s, of v] by (simp add: nv s(1))
qed simp

lemma consume_given:
  "\<forall>nv \<in> set nvs. stores specs (fst nv) \<Longrightarrow>
     consume (map (\<lambda>(n, v). Option (find_option specs n) n (Some v)) nvs) vals extras = Inr (rev nvs @ vals, extras)"
proof (induction nvs arbitrary: vals)
  case (Cons nv nvs)
  obtain n v where nv: "nv = (n, v)" by (cases nv)
  then obtain s where s: "find_option specs n = Some s" "as_kind s = Store" "hd (as_names s) = n"
    using Cons.prems by (auto simp: stores_def split: option.splits)
  show ?case using Cons by (simp add: nv s take_option_def)
qed simp

lemma parse_given:
  assumes "plain_names specs" and "\<forall>nv \<in> set nvs. stores specs (fst nv)"
    and "\<forall>s \<in> set specs. as_required s \<longrightarrow> hd (as_names s) \<in> fst ` set nvs"
  shows "parse_args specs (map given nvs) = Inr (rev nvs)"
  using assms(3) by (auto simp: parse_args_def tokens_given [OF assms(1,2)] consume_given [OF assms(2)] image_iff)

end
