(* ===== verification/Py_Uuid.thy ===== *)
theory Py_Uuid imports Py_Text "HOL-Library.Word" begin

text \<open>
  Job ids. The code carries a job id in two forms: the text on the Redis lists (raw, as it
  was pushed) and the \<open>uuid.UUID\<close> value that Postgres is asked for. \<open>uuid_of_text\<close> is the
  constructor \<open>UUID(raw)\<close> the processor calls, \<open>uuid_str\<close> is \<open>str(job_id)\<close>; the text form
  is what every Redis call of the reconciler uses, so the round trip between the two and
  the injectivity of \<open>uuid_str\<close> carry the queue properties.
\<close>

type_synonym uuid = "128 word"

text \<open>\<open>s.replace(p, '')\<close>: occurrences from the left, without overlap.\<close>

function remove_all :: "string \<Rightarrow> string \<Rightarrow> string" where
  "remove_all p [] = []"
| "remove_all p (c # cs) =
     (if p \<noteq> [] \<and> starts_with p (c # cs) then remove_all p (drop (length p) (c # cs))
      else c # remove_all p cs)"
  by pat_completeness auto
termination
  by (relation "measure (\<lambda>(p, s). length s)") auto

fun hex_pad :: "nat \<Rightarrow> nat \<Rightarrow> string" where
  "hex_pad 0 n = []"
| "hex_pad (Suc k) n = hex_pad k (n div 16) @ [hex_digit (n mod 16)]"

definition dash :: char where
  "dash = CHR ''-''"

definition uuid_str :: "uuid \<Rightarrow> string" where
  "uuid_str u = (let h = hex_pad 32 (unat u) in
     join [dash] [take 8 h, take 4 (drop 8 h), take 4 (drop 12 h), take 4 (drop 16 h), drop 20 h])"

text \<open>\<open>None\<close> is the \<open>ValueError\<close> of a text that is no UUID.\<close>

definition uuid_of_text :: "string \<Rightarrow> uuid option" where
  "uuid_of_text raw =
     (let h = remove_all ''uuid:'' (remove_all ''urn:'' raw);
          h = remove_all [dash] (strip_both (\<lambda>c. c = CHR ''{'' \<or> c = CHR ''}'') h)
      in if length h \<noteq> 32 then None
         else (case parse_int 16 h of None \<Rightarrow> None
           | Some i \<Rightarrow> if 0 \<le> i \<and> i < 2 ^ 128 then Some (word_of_int i) else None))"

section \<open>Round trip\<close>

lemma remove_all_absent: "c \<notin> set s \<Longrightarrow> remove_all (c # p) s = s"
  by (induction "c # p" s rule: remove_all.induct) (auto simp: starts_with_def)

lemma remove_all_single: "remove_all [c] s = filter (\<lambda>x. x \<noteq> c) s"
  by (induction "[c]" s rule: remove_all.induct) (auto simp: starts_with_def)

lemma length_hex_pad [simp]: "length (hex_pad k n) = k"
  by (induction k arbitrary: n) auto

lemma hex_digit_ord:
  "n < 16 \<Longrightarrow> (48 \<le> ord_of (hex_digit n) \<and> ord_of (hex_digit n) \<le> 57)
     \<or> (97 \<le> ord_of (hex_digit n) \<and> ord_of (hex_digit n) \<le> 102)"
  by (simp add: hex_digit_def)

lemma digit_val_hex: "n < 16 \<Longrightarrow> digit_val (hex_digit n) = Some n"
  by (auto simp: digit_val_def hex_digit_def)

lemma hex_pad_ord:
  "c \<in> set (hex_pad k n) \<Longrightarrow>
     (48 \<le> ord_of c \<and> ord_of c \<le> 57) \<or> (97 \<le> ord_of c \<and> ord_of c \<le> 102)"
proof (induction k arbitrary: n)
  case (Suc k)
  have "n mod 16 < 16" by simp
  with Suc hex_digit_ord [of "n mod 16"] show ?case by auto
qed simp

lemma hex_neq_underscore: "n < 16 \<Longrightarrow> hex_digit n \<noteq> CHR ''_''"
  by (rule ord_of_neq) (use hex_digit_ord [of n] in \<open>auto simp: ord_of_def\<close>)

lemma scan_hex_pad:
  "scan_digits 16 us acc (hex_pad k n @ r) =
     (if k = 0 then scan_digits 16 us acc r
      else scan_digits 16 False (acc * 16 ^ k + n mod 16 ^ k) r)"
proof (induction k arbitrary: us acc n r)
  case (Suc k)
  have d: "n mod 16 < 16" by simp
  have "n mod 16 ^ Suc k = (n div 16) mod 16 ^ k * 16 + n mod 16"
    by (simp add: mod_mult2_eq)
  then show ?case
    using d by (cases "k = 0")
      (simp_all add: Suc.IH digit_val_hex hex_neq_underscore algebra_simps)
qed simp

lemma parse_hex_pad:
  assumes "0 < k"
  shows "parse_int 16 (hex_pad k n) = Some (int (n mod 16 ^ k))"
proof -
  obtain c cs where h: "hex_pad k n = c # cs"
    using assms by (cases "hex_pad k n") (auto dest: arg_cong [of _ _ length])
  have chars: "\<forall>x \<in> set (hex_pad k n). \<not> int_space x \<and> x \<noteq> CHR ''x'' \<and> x \<noteq> CHR ''X''
      \<and> x \<noteq> CHR ''-'' \<and> x \<noteq> CHR ''+''"
    by (auto simp: int_space_def ord_of_def dest!: hex_pad_ord)
  then have strip: "strip_both int_space (hex_pad k n) = hex_pad k n"
    by (intro strip_both_noop) blast
  have pre: "drop_hex_prefix (hex_pad k n) = hex_pad k n"
    using chars h by (auto simp: drop_hex_prefix_def split: list.splits)
  have "scan_unsigned 16 (hex_pad k n) = Some (n mod 16 ^ k)"
    using scan_hex_pad [of True 0 k n "[]"] assms pre by (simp add: scan_unsigned_def)
  with strip h chars show ?thesis
    by (simp add: parse_int_def)
qed

lemma take_drop_chain: "take b (drop a xs) @ drop (a + b) xs = drop a xs"
  by (metis append_take_drop_id drop_drop add.commute)

lemma filter_dash_uuid: "filter (\<lambda>x. x \<noteq> dash) (uuid_str u) = hex_pad 32 (unat u)"
proof -
  let ?h = "hex_pad 32 (unat u)"
  have nd: "filter (\<lambda>x. x \<noteq> dash) xs = xs" if "set xs \<subseteq> set ?h" for xs
    using that by (intro filter_True) (auto simp: dash_def ord_of_def dest!: subsetD hex_pad_ord)
  have "take 4 (drop 16 ?h) @ drop 20 ?h = drop 16 ?h"
    and "take 4 (drop 12 ?h) @ drop 16 ?h = drop 12 ?h"
    and "take 4 (drop 8 ?h) @ drop 12 ?h = drop 8 ?h"
    using take_drop_chain [of 4 16 ?h] take_drop_chain [of 4 12 ?h] take_drop_chain [of 4 8 ?h] by simp_all
  moreover have "filter (\<lambda>x. x \<noteq> dash) (uuid_str u)
      = take 8 ?h @ take 4 (drop 8 ?h) @ take 4 (drop 12 ?h) @ take 4 (drop 16 ?h) @ drop 20 ?h"
    by (simp add: uuid_str_def Let_def nd set_take_subset set_drop_subset
        order_trans [OF set_take_subset set_drop_subset] del: hex_pad.simps)
  ultimately show ?thesis by simp
qed

lemma uuid_str_chars: "c \<in> set (uuid_str u) \<Longrightarrow> c = dash \<or> c \<in> set (hex_pad 32 (unat u))"
proof -
  assume "c \<in> set (uuid_str u)"
  then have "c = dash \<or> c \<in> set (filter (\<lambda>x. x \<noteq> dash) (uuid_str u))" by simp
  then show ?thesis by (simp only: filter_dash_uuid)
qed

lemma uuid_str_ord:
  "c \<in> set (uuid_str u) \<Longrightarrow> c = dash \<or> (48 \<le> ord_of c \<and> ord_of c \<le> 57) \<or> (97 \<le> ord_of c \<and> ord_of c \<le> 102)"
  using hex_pad_ord uuid_str_chars by blast

lemma uuid_of_text_uuid_str [simp]: "uuid_of_text (uuid_str u) = Some u"
proof -
  have absent: "c \<notin> set (uuid_str u)" if "102 < ord_of c" for c
    using that by (auto simp: dash_def ord_of_def dest!: uuid_str_ord)
  have u: "remove_all ''urn:'' (uuid_str u) = uuid_str u" "remove_all ''uuid:'' (uuid_str u) = uuid_str u"
    by (rule remove_all_absent, rule absent, simp add: ord_of_def)+
  have b: "strip_both (\<lambda>c. c = CHR ''{'' \<or> c = CHR ''}'') (uuid_str u) = uuid_str u"
    by (rule strip_both_noop) (use absent in \<open>force simp: ord_of_def\<close>)
  have "unat u < 16 ^ 32"
    using unsigned_less [where ?'a = nat and w = u] by simp
  then have p: "parse_int 16 (hex_pad 32 (unat u)) = Some (int (unat u))"
    by (subst parse_hex_pad) simp_all
  have "int (unat u) < 2 ^ 128"
    using unsigned_less [where ?'a = int and w = u] by simp
  then show ?thesis
    by (simp add: uuid_of_text_def u b remove_all_single filter_dash_uuid p del: hex_pad.simps)
qed

lemma uuid_str_inject [simp]: "uuid_str u = uuid_str v \<longleftrightarrow> u = v"
  using uuid_of_text_uuid_str by (metis option.inject)

lemma inj_uuid_str: "inj uuid_str"
  by (rule injI) simp

end
