(* ===== verification/Job_Schema.thy ===== *)
theory Job_Schema imports Py_Exn Py_Uuid begin

text \<open>
  \<open>shared/schema/job.py\<close>: the status enumeration, the hyperparameters and the job as the
  worker holds it. Hyperparameters come out of a JSONB column and are never converted, so
  their fields hold JSON values; a JSON number with a fraction is kept exactly, as mantissa
  and binary exponent. Timestamps are microseconds since the epoch.
\<close>

datatype job_status = QUEUED | RUNNING | COMPLETED | FAILED | CANCELLED

fun status_value :: "job_status \<Rightarrow> string" where
  "status_value QUEUED = ''queued''"
| "status_value RUNNING = ''running''"
| "status_value COMPLETED = ''completed''"
| "status_value FAILED = ''failed''"
| "status_value CANCELLED = ''cancelled''"

definition all_statuses :: "job_status list" where
  "all_statuses = [QUEUED, RUNNING, COMPLETED, FAILED, CANCELLED]"

text \<open>\<open>JobStatus(text)\<close>: lookup of a member by its value.\<close>

definition status_of_value :: "string \<Rightarrow> exn + job_status" where
  "status_of_value v = (case find (\<lambda>s. status_value s = v) all_statuses of
     None \<Rightarrow> Inl (ValueError (repr_str v @ '' is not a valid JobStatus''))
   | Some s \<Rightarrow> Inr s)"

datatype json =
    JNull
  | JBool bool
  | JInt int
  | JFloat int int
  | JStr string
  | JArr "json list"
  | JObj "(string \<times> json) list"

record hyperparameters =
  learning_rate :: json
  epochs :: json
  batch_size :: json
  lora_rank :: json
  lora_alpha :: json

record job =
  job_id :: uuid
  job_state :: job_status
  base_model :: string
  dataset_path :: string
  hyperparams :: hyperparameters
  checkpoint_path :: "string option"
  error_message :: "string option"
  created_at :: int
  updated_at :: int

text \<open>Python truth of a JSON value, and \<open>value[key]\<close>.\<close>

fun json_truthy :: "json \<Rightarrow> bool" where
  "json_truthy JNull = False"
| "json_truthy (JBool b) = b"
| "json_truthy (JInt i) = (i \<noteq> 0)"
| "json_truthy (JFloat m e) = (m \<noteq> 0)"
| "json_truthy (JStr s) = (s \<noteq> [])"
| "json_truthy (JArr xs) = (xs \<noteq> [])"
| "json_truthy (JObj kvs) = (kvs \<noteq> [])"

fun json_item :: "json \<Rightarrow> string \<Rightarrow> exn + json" where
  "json_item (JObj kvs) k = (case map_of kvs k of None \<Rightarrow> Inl (KeyError k) | Some v \<Rightarrow> Inr v)"
| "json_item (JArr xs) k = Inl (TypeError ''list indices must be integers or slices, not str'')"
| "json_item (JStr s) k = Inl (TypeError (''string indices must be integers, not '' @ repr_str ''str''))"
| "json_item JNull k = Inl (TypeError (repr_str ''NoneType'' @ '' object is not subscriptable''))"
| "json_item (JBool b) k = Inl (TypeError (repr_str ''bool'' @ '' object is not subscriptable''))"
| "json_item (JInt i) k = Inl (TypeError (repr_str ''int'' @ '' object is not subscriptable''))"
| "json_item (JFloat m e) k = Inl (TypeError (repr_str ''float'' @ '' object is not subscriptable''))"

lemma status_of_value_status_value [simp]: "status_of_value (status_value s) = Inr s"
  by (cases s) (simp_all add: status_of_value_def all_statuses_def)

lemma status_value_inject [simp]: "status_value s = status_value t \<longleftrightarrow> s = t"
  by (cases s; cases t) simp_all

end
