(* ===== verification/Job_Db.thy ===== *)
theory Job_Db imports Job_Schema begin

text \<open>
  The \<open>jobs\<close> and \<open>models\<close> tables and the statements of \<open>crucible_worker/db.py\<close> over them
  (migrations 001 and 002 give the columns). A table is the list of its rows in scan order;
  an \<open>UPDATE ... WHERE\<close> is \<open>sql_update\<close>, a map over the rows with the statement's condition.
  \<open>now\<close> is the transaction's \<open>NOW()\<close>, in microseconds.

  \<open>life\<close> is the abstract life cycle of one job that the statements are meant to implement:
  the refinement lemmas at the end say that each statement is, for every job, a step of it
  or nothing.
\<close>

record job_row =
  r_id :: uuid
  r_status :: job_status
  r_base_model :: string
  r_dataset_path :: string
  r_hyperparameters :: json
  r_checkpoint_path :: "string option"
  r_error_message :: "string option"
  r_created_at :: int
  r_updated_at :: int

record model_row =
  m_id :: int
  m_hf_repo_id :: string
  m_revision :: string
  m_display_name :: string
  m_param_count :: "int option"
  m_vram_hint :: "string option"
  m_status :: string
  m_is_default :: bool

text \<open>\<open>repository.py\<close>: what the worker keeps of an allow-list row.\<close>

record model_meta =
  hf_repo_id :: string
  revision :: string
  param_count :: "int option"
  vram_hint :: "string option"

section \<open>The statements\<close>

definition seconds :: "int \<Rightarrow> int" where
  "seconds n = n * 1000000"

definition sql_update :: "('r \<Rightarrow> bool) \<Rightarrow> ('r \<Rightarrow> 'r) \<Rightarrow> 'r list \<Rightarrow> 'r list" where
  "sql_update cond f rows = map (\<lambda>r. if cond r then f r else r) rows"

definition db_mark_running :: "int \<Rightarrow> uuid \<Rightarrow> job_row list \<Rightarrow> job_row list" where
  "db_mark_running now i = sql_update (\<lambda>r. r_id r = i \<and> r_status r = QUEUED)
     (\<lambda>r. r\<lparr>r_status := RUNNING, r_updated_at := now\<rparr>)"

definition db_heartbeat :: "int \<Rightarrow> uuid \<Rightarrow> job_row list \<Rightarrow> job_row list" where
  "db_heartbeat now i = sql_update (\<lambda>r. r_id r = i \<and> r_status r = RUNNING)
     (\<lambda>r. r\<lparr>r_updated_at := now\<rparr>)"

definition db_mark_completed :: "int \<Rightarrow> uuid \<Rightarrow> string \<Rightarrow> job_row list \<Rightarrow> job_row list" where
  "db_mark_completed now i path = sql_update (\<lambda>r. r_id r = i \<and> r_status r = RUNNING)
     (\<lambda>r. r\<lparr>r_status := COMPLETED, r_checkpoint_path := Some path, r_updated_at := now\<rparr>)"

definition db_mark_failed :: "int \<Rightarrow> uuid \<Rightarrow> string \<Rightarrow> job_row list \<Rightarrow> job_row list" where
  "db_mark_failed now i msg = sql_update (\<lambda>r. r_id r = i \<and> r_status r = RUNNING)
     (\<lambda>r. r\<lparr>r_status := FAILED, r_error_message := Some msg, r_updated_at := now\<rparr>)"

definition db_reset_to_queued :: "int \<Rightarrow> uuid \<Rightarrow> job_row list \<Rightarrow> job_row list" where
  "db_reset_to_queued now i = sql_update (\<lambda>r. r_id r = i \<and> r_status r = RUNNING)
     (\<lambda>r. r\<lparr>r_status := QUEUED, r_updated_at := now\<rparr>)"

definition is_stale_running :: "int \<Rightarrow> int \<Rightarrow> job_row \<Rightarrow> bool" where
  "is_stale_running now older_than_seconds r \<longleftrightarrow>
     r_status r = RUNNING \<and> r_updated_at r < now - seconds older_than_seconds"

definition db_find_stale_running :: "int \<Rightarrow> int \<Rightarrow> job_row list \<Rightarrow> uuid list" where
  "db_find_stale_running now older_than_seconds rows =
     map r_id (filter (is_stale_running now older_than_seconds) rows)"

definition is_orphan_candidate :: "int \<Rightarrow> int \<Rightarrow> job_row \<Rightarrow> bool" where
  "is_orphan_candidate now grace_seconds r \<longleftrightarrow> r_status r = QUEUED
     \<and> r_created_at r < now - seconds grace_seconds
     \<and> r_updated_at r < now - seconds grace_seconds"

definition db_find_orphan_queued :: "int \<Rightarrow> int \<Rightarrow> job_row list \<Rightarrow> uuid list" where
  "db_find_orphan_queued now grace_seconds rows =
     map r_id (filter (is_orphan_candidate now grace_seconds) rows)"

definition job_at :: "uuid \<Rightarrow> job_row list \<Rightarrow> job_row option" where
  "job_at i rows = find (\<lambda>r. r_id r = i) rows"

text \<open>
  \<open>_row_to_job\<close>: the five hyperparameters are read with \<open>hp[key]\<close> in the order of the
  constructor call, so the first missing one is the \<open>KeyError\<close>. The enum column arrives as
  its text.
\<close>

definition row_to_job :: "job_row \<Rightarrow> exn + job" where
  "row_to_job r =
     (let hp = (if json_truthy (r_hyperparameters r) then r_hyperparameters r else JObj [])
      in case status_of_value (status_value (r_status r)) of Inl e \<Rightarrow> Inl e | Inr st \<Rightarrow>
        case json_item hp ''learning_rate'' of Inl e \<Rightarrow> Inl e | Inr lr \<Rightarrow>
        case json_item hp ''epochs'' of Inl e \<Rightarrow> Inl e | Inr ep \<Rightarrow>
        case json_item hp ''batch_size'' of Inl e \<Rightarrow> Inl e | Inr bs \<Rightarrow>
        case json_item hp ''lora_rank'' of Inl e \<Rightarrow> Inl e | Inr rk \<Rightarrow>
        case json_item hp ''lora_alpha'' of Inl e \<Rightarrow> Inl e | Inr al \<Rightarrow>
        Inr \<lparr>job_id = r_id r, job_state = st, base_model = r_base_model r,
          dataset_path = r_dataset_path r,
          hyperparams = \<lparr>learning_rate = lr, epochs = ep, batch_size = bs, lora_rank = rk, lora_alpha = al\<rparr>,
          checkpoint_path = r_checkpoint_path r, error_message = r_error_message r,
          created_at = r_created_at r, updated_at = r_updated_at r\<rparr>)"

definition db_get_job :: "uuid \<Rightarrow> job_row list \<Rightarrow> exn + job option" where
  "db_get_job i rows = (case job_at i rows of
     None \<Rightarrow> Inr None
   | Some r \<Rightarrow> (case row_to_job r of Inl e \<Rightarrow> Inl e | Inr j \<Rightarrow> Inr (Some j)))"

text \<open>\<open>ORDER BY is_default DESC LIMIT 1\<close> over the ready rows of the repository id.\<close>

definition db_get_model_meta :: "string \<Rightarrow> model_row list \<Rightarrow> model_meta option" where
  "db_get_model_meta repo rows =
     (case sort_key (\<lambda>m. if m_is_default m then 0 else 1 :: nat)
        (filter (\<lambda>m. m_hf_repo_id m = repo \<and> m_status m = ''ready'') rows) of
       [] \<Rightarrow> None
     | m # _ \<Rightarrow> Some \<lparr>hf_repo_id = m_hf_repo_id m, revision = m_revision m,
         param_count = m_param_count m, vram_hint = m_vram_hint m\<rparr>)"

lemmas db_update_defs = db_mark_running_def db_heartbeat_def db_mark_completed_def
  db_mark_failed_def db_reset_to_queued_def

section \<open>Reading a row after a statement\<close>

lemma map_r_id_sql_update [simp]:
  "(\<And>r. r_id (f r) = r_id r) \<Longrightarrow> map r_id (sql_update c f rows) = map r_id rows"
  by (simp add: sql_update_def o_def)

lemma job_at_sql_update:
  "(\<And>r. r_id (f r) = r_id r) \<Longrightarrow>
     job_at i (sql_update c f rows) = map_option (\<lambda>r. if c r then f r else r) (job_at i rows)"
  unfolding job_at_def sql_update_def by (rule find_map_cong) simp

lemma job_at_id: "job_at i rows = Some r \<Longrightarrow> r_id r = i"
  by (auto simp: job_at_def dest: find_SomeD)

lemma job_at_mem: "job_at i rows = Some r \<Longrightarrow> r \<in> set rows"
  by (auto simp: job_at_def dest: find_SomeD)

lemma job_at_distinct: "distinct (map r_id rows) \<Longrightarrow> r \<in> set rows \<Longrightarrow> job_at (r_id r) rows = Some r"
  by (simp add: job_at_def find_key_distinct)

lemma same_id_same_row:
  "distinct (map r_id rows) \<Longrightarrow> r \<in> set rows \<Longrightarrow> q \<in> set rows \<Longrightarrow> r_id r = r_id q \<Longrightarrow> r = q"
  by (auto simp: distinct_map dest: inj_onD)

lemma job_at_append: "job_at i (xs @ ys) = (case job_at i xs of None \<Rightarrow> job_at i ys | Some r \<Rightarrow> Some r)"
  by (cases "job_at i xs") (simp_all add: job_at_def find_append)

lemma job_at_db_updates [simp]:
  "job_at j (db_mark_running now i rows) = map_option (\<lambda>r. if r_id r = i \<and> r_status r = QUEUED
     then r\<lparr>r_status := RUNNING, r_updated_at := now\<rparr> else r) (job_at j rows)"
  "job_at j (db_heartbeat now i rows) = map_option (\<lambda>r. if r_id r = i \<and> r_status r = RUNNING
     then r\<lparr>r_updated_at := now\<rparr> else r) (job_at j rows)"
  "job_at j (db_mark_completed now i path rows) = map_option (\<lambda>r. if r_id r = i \<and> r_status r = RUNNING
     then r\<lparr>r_status := COMPLETED, r_checkpoint_path := Some path, r_updated_at := now\<rparr> else r) (job_at j rows)"
  "job_at j (db_mark_failed now i msg rows) = map_option (\<lambda>r. if r_id r = i \<and> r_status r = RUNNING
     then r\<lparr>r_status := FAILED, r_error_message := Some msg, r_updated_at := now\<rparr> else r) (job_at j rows)"
  "job_at j (db_reset_to_queued now i rows) = map_option (\<lambda>r. if r_id r = i \<and> r_status r = RUNNING
     then r\<lparr>r_status := QUEUED, r_updated_at := now\<rparr> else r) (job_at j rows)"
  by (simp_all add: db_update_defs job_at_sql_update)

lemma map_r_id_db_updates [simp]:
  "map r_id (db_mark_running now i rows) = map r_id rows"
  "map r_id (db_heartbeat now i rows) = map r_id rows"
  "map r_id (db_mark_completed now i path rows) = map r_id rows"
  "map r_id (db_mark_failed now i msg rows) = map r_id rows"
  "map r_id (db_reset_to_queued now i rows) = map r_id rows"
  by (simp_all add: db_update_defs)

lemma row_to_job_fields:
  assumes "row_to_job r = Inr j"
  shows "job_id j = r_id r" "job_state j = r_status r" "base_model j = r_base_model r"
    "dataset_path j = r_dataset_path r"
  using assms by (auto simp: row_to_job_def Let_def split: sum.splits)

lemma db_get_job_SomeE:
  assumes "db_get_job i rows = Inr (Some j)"
  obtains r where "job_at i rows = Some r" and "row_to_job r = Inr j" and "job_id j = i"
    and "job_state j = r_status r" and "dataset_path j = r_dataset_path r"
    and "base_model j = r_base_model r"
proof -
  obtain r where "job_at i rows = Some r" and "row_to_job r = Inr j"
    using assms by (auto simp: db_get_job_def split: option.splits sum.splits)
  with row_to_job_fields [of r j] job_at_id [of i rows r] show thesis
    by (intro that) simp_all
qed

section \<open>The life cycle of a job\<close>

definition terminal_status :: "job_status \<Rightarrow> bool" where
  "terminal_status s \<longleftrightarrow> s \<in> {COMPLETED, FAILED, CANCELLED}"

inductive life :: "job_row \<Rightarrow> job_row \<Rightarrow> bool" where
  start: "r_status r = QUEUED \<Longrightarrow> life r (r\<lparr>r_status := RUNNING, r_updated_at := t\<rparr>)"
| beat: "r_status r = RUNNING \<Longrightarrow> life r (r\<lparr>r_updated_at := t\<rparr>)"
| finish: "r_status r = RUNNING \<Longrightarrow>
    life r (r\<lparr>r_status := COMPLETED, r_checkpoint_path := Some p, r_updated_at := t\<rparr>)"
| fail: "r_status r = RUNNING \<Longrightarrow>
    life r (r\<lparr>r_status := FAILED, r_error_message := Some m, r_updated_at := t\<rparr>)"
| retry: "r_status r = RUNNING \<Longrightarrow> life r (r\<lparr>r_status := QUEUED, r_updated_at := t\<rparr>)"
| cancel: "r_status r = QUEUED \<or> r_status r = RUNNING \<Longrightarrow>
    life r (r\<lparr>r_status := CANCELLED, r_updated_at := t\<rparr>)"

inductive_cases lifeE: "life r r'"

inductive_simps life_iff: "life r r'"

lemma life_not_terminal: "life r r' \<Longrightarrow> \<not> terminal_status (r_status r)"
  by (erule lifeE) (auto simp: terminal_status_def)

lemma life_star_terminal: "life\<^sup>*\<^sup>* r r' \<Longrightarrow> terminal_status (r_status r) \<Longrightarrow> r' = r"
  by (erule converse_rtranclpE) (auto dest: life_not_terminal)

text \<open>What never changes in a job's life.\<close>

lemma life_frame:
  assumes "life r r'"
  shows "r_id r' = r_id r" "r_base_model r' = r_base_model r" "r_dataset_path r' = r_dataset_path r"
    "r_hyperparameters r' = r_hyperparameters r" "r_created_at r' = r_created_at r"
  using assms by (auto elim: lifeE)

lemma life_star_frame:
  assumes "life\<^sup>*\<^sup>* r r'"
  shows "r_id r' = r_id r \<and> r_base_model r' = r_base_model r \<and> r_dataset_path r' = r_dataset_path r
    \<and> r_hyperparameters r' = r_hyperparameters r \<and> r_created_at r' = r_created_at r"
  using assms by (induction rule: rtranclp_induct) (simp_all add: life_frame)

text \<open>
  A row records a checkpoint exactly when its job completed, and an error exactly when it
  failed.
\<close>

definition row_wf :: "job_row \<Rightarrow> bool" where
  "row_wf r \<longleftrightarrow> (r_status r = COMPLETED \<longleftrightarrow> r_checkpoint_path r \<noteq> None)
     \<and> (r_status r = FAILED \<longleftrightarrow> r_error_message r \<noteq> None)"

lemma life_row_wf: "life r r' \<Longrightarrow> row_wf r \<Longrightarrow> row_wf r'"
  by (erule lifeE) (auto simp: row_wf_def)

lemma life_star_row_wf: "life\<^sup>*\<^sup>* r r' \<Longrightarrow> row_wf r \<Longrightarrow> row_wf r'"
  by (induction rule: rtranclp_induct) (auto intro: life_row_wf)

text \<open>A table refines another when each of its jobs went through some of its life.\<close>

definition table_life :: "job_row list \<Rightarrow> job_row list \<Rightarrow> bool" where
  "table_life rows rows' \<longleftrightarrow>
     (\<forall>i r. job_at i rows = Some r \<longrightarrow> (\<exists>r'. job_at i rows' = Some r' \<and> life\<^sup>*\<^sup>* r r'))"

lemma table_lifeI:
  "(\<And>i r. job_at i rows = Some r \<Longrightarrow> \<exists>r'. job_at i rows' = Some r' \<and> life\<^sup>*\<^sup>* r r') \<Longrightarrow> table_life rows rows'"
  by (simp add: table_life_def)

lemma table_lifeD:
  assumes "table_life rows rows'" and "job_at i rows = Some r"
  obtains r' where "job_at i rows' = Some r'" and "life\<^sup>*\<^sup>* r r'"
  using assms by (auto simp: table_life_def)

lemma table_life_refl [simp]: "table_life rows rows"
  by (simp add: table_life_def)

lemma table_life_trans: "table_life a b \<Longrightarrow> table_life b c \<Longrightarrow> table_life a c"
  unfolding table_life_def by (meson rtranclp_trans)

lemma table_life_sql_update:
  assumes "\<And>r. r_id (f r) = r_id r" and "\<And>r. c r \<Longrightarrow> life r (f r)"
  shows "table_life rows (sql_update c f rows)"
  by (rule table_lifeI) (use assms in \<open>auto simp: job_at_sql_update\<close>)

lemma table_life_db_updates:
  "table_life rows (db_mark_running now i rows)"
  "table_life rows (db_heartbeat now i rows)"
  "table_life rows (db_mark_completed now i path rows)"
  "table_life rows (db_mark_failed now i msg rows)"
  "table_life rows (db_reset_to_queued now i rows)"
  unfolding db_update_defs by (rule table_life_sql_update; auto intro: life.intros)+

end
