(* ===== verification/Object_Store.thy ===== *)
theory Object_Store imports Py_Text "HOL-Library.AList" begin

text \<open>
  The S3 service (Garage) behind the dataset and checkpoint stores, as a parameter: what the
  sources use of it is reading an object, writing an object (single request or multipart) and
  listing the keys of a bucket below a prefix, page by page. The locale \<open>s3_server\<close> states
  the documented behaviour; \<open>reference_s3\<close> has it.
\<close>

type_synonym object_store = "((string \<times> string) \<times> string) list"

record s3_api =
  s3_get :: "string \<Rightarrow> string \<Rightarrow> object_store \<Rightarrow> string option"
  s3_put :: "string \<Rightarrow> string \<Rightarrow> string \<Rightarrow> object_store \<Rightarrow> object_store"
  s3_pages :: "string \<Rightarrow> string \<Rightarrow> object_store \<Rightarrow> string list list"

locale s3_server =
  fixes S :: s3_api
  assumes get_put_doc: "s3_get S b' k' (s3_put S b k v st) = (if b' = b \<and> k' = k then Some v else s3_get S b' k' st)"
    and pages_doc: "set (concat (s3_pages S b p st)) = {k. s3_get S b k st \<noteq> None \<and> starts_with p k}"
    and pages_distinct_doc: "distinct (concat (s3_pages S b p st))"
begin

lemma pages_empty_iff:
  "concat (s3_pages S b p st) = [] \<longleftrightarrow> (\<forall>k. starts_with p k \<longrightarrow> s3_get S b k st = None)"
proof -
  have "concat (s3_pages S b p st) = [] \<longleftrightarrow> {k. s3_get S b k st \<noteq> None \<and> starts_with p k} = {}"
    using pages_doc [of b p st] by (metis set_empty)
  also have "\<dots> \<longleftrightarrow> (\<forall>k. starts_with p k \<longrightarrow> s3_get S b k st = None)"
    by auto
  finally show ?thesis .
qed

lemma puts_get:
  "s3_get S b' k' (fold (\<lambda>(k, v). s3_put S b k v) kvs st) =
     (if b' = b then (case map_of (rev kvs) k' of Some v \<Rightarrow> Some v | None \<Rightarrow> s3_get S b' k' st)
      else s3_get S b' k' st)"
  by (induction kvs arbitrary: st) (auto simp: get_put_doc map_add_def split: option.splits)

end

text \<open>Pages of at most 1000 keys, in the order of the keys.\<close>

fun pages_of :: "nat \<Rightarrow> 'a list \<Rightarrow> 'a list list" where
  "pages_of n [] = []"
| "pages_of n (x # xs) = take (Suc n) (x # xs) # pages_of n (drop n xs)"

definition reference_s3 :: s3_api where
  "reference_s3 = \<lparr>
     s3_get = (\<lambda>b k st. map_of st (b, k)),
     s3_put = (\<lambda>b k v st. AList.update (b, k) v st),
     s3_pages = (\<lambda>b p st. pages_of 999 (sort (remdups (map (\<lambda>e. snd (fst e))
        (filter (\<lambda>e. fst (fst e) = b \<and> starts_with p (snd (fst e))) st)))))\<rparr>"

lemma concat_pages_of: "concat (pages_of n xs) = xs"
  by (induction n xs rule: pages_of.induct) simp_all

lemma map_of_key_iff: "map_of st k \<noteq> None \<longleftrightarrow> k \<in> fst ` set st"
  by (auto simp: map_of_eq_None_iff)

lemma map_of_listed: "((b, k), v) \<in> set st \<Longrightarrow> \<exists>v. map_of st (b, k) = Some v"
  by (metis map_of_key_iff fst_conv image_eqI option.exhaust)

interpretation reference_s3: s3_server reference_s3
proof (unfold_locales, goal_cases)
  case (2 b p st)
  have "set (concat (s3_pages reference_s3 b p st))
      = {k. starts_with p k \<and> (\<exists>v. ((b, k), v) \<in> set st)}"
    by (auto simp: reference_s3_def concat_pages_of image_iff simp del: set_concat)
  also have "\<dots> = {k. s3_get reference_s3 b k st \<noteq> None \<and> starts_with p k}"
    by (auto simp: reference_s3_def dest: map_of_listed map_of_SomeD)
  finally show ?case .
qed (auto simp: reference_s3_def update_conv' concat_pages_of)

lemma s3_server_reference: "s3_server reference_s3"
  by (rule reference_s3.s3_server_axioms)

end
