(* ===== verification/Redis.thy ===== *)
theory Redis imports Py_Uuid Object_Store begin

text \<open>
  The Redis server as the worker and the backend see it. Redis itself is not part of the
  repository: its commands are fields of the parameter \<open>services\<close> (which carries the S3
  service as well), and the locale \<open>redis_server\<close> states the documented behaviour of the
  commands the sources issue, over the documented data types (a list of strings per key, a
  hash with an optional lifetime per key). Nothing else is assumed of it.
  \<open>reference_services\<close> is one server with that behaviour; interpreting the locale on it shows
  that the laws can be met, and the witnesses of the properties run on it.
\<close>

record redis_hash =
  h_fields :: "string \<Rightarrow> string option"
  h_expires :: "int option"

record redis =
  rlists :: "string \<Rightarrow> string list"
  rhashes :: "string \<Rightarrow> redis_hash option"

text \<open>
  \<open>rpoplpush\<close> is the move that \<open>BRPOPLPUSH\<close> makes when its source list has an element; how
  long the call waits for one is the worker's concern. The first argument of the three
  commands on hashes is the server's time in microseconds; \<open>hgetall\<close> of a key that does not exist,
  an empty reply, is \<open>None\<close>.
\<close>

record services =
  lpush :: "string \<Rightarrow> string \<Rightarrow> redis \<Rightarrow> redis"
  lrem :: "string \<Rightarrow> int \<Rightarrow> string \<Rightarrow> redis \<Rightarrow> redis"
  lrange :: "string \<Rightarrow> int \<Rightarrow> int \<Rightarrow> redis \<Rightarrow> string list"
  rpoplpush :: "string \<Rightarrow> string \<Rightarrow> redis \<Rightarrow> string option \<times> redis"
  hset :: "int \<Rightarrow> string \<Rightarrow> (string \<times> string) list \<Rightarrow> redis \<Rightarrow> redis"
  expire :: "int \<Rightarrow> string \<Rightarrow> int \<Rightarrow> redis \<Rightarrow> redis"
  hgetall :: "int \<Rightarrow> string \<Rightarrow> redis \<Rightarrow> (string \<Rightarrow> string option) option"
  s3 :: s3_api

definition set_rlist :: "string \<Rightarrow> string list \<Rightarrow> redis \<Rightarrow> redis" where
  "set_rlist k xs s = s\<lparr>rlists := (rlists s)(k := xs)\<rparr>"

definition set_rhash :: "string \<Rightarrow> redis_hash option \<Rightarrow> redis \<Rightarrow> redis" where
  "set_rhash k h s = s\<lparr>rhashes := (rhashes s)(k := h)\<rparr>"

text \<open>A key past its lifetime does not exist.\<close>

definition live_hash :: "int \<Rightarrow> string \<Rightarrow> redis \<Rightarrow> redis_hash option" where
  "live_hash now k s = (case rhashes s k of
     None \<Rightarrow> None
   | Some h \<Rightarrow> (case h_expires h of None \<Rightarrow> Some h | Some t \<Rightarrow> if now < t then Some h else None))"

definition upsert_fields :: "(string \<Rightarrow> string option) \<Rightarrow> (string \<times> string) list \<Rightarrow> string \<Rightarrow> string option" where
  "upsert_fields fs kvs k = (case map_of (rev kvs) k of None \<Rightarrow> fs k | Some v \<Rightarrow> Some v)"

definition hset_hash :: "redis_hash option \<Rightarrow> (string \<times> string) list \<Rightarrow> redis_hash" where
  "hset_hash old kvs = (case old of
     None \<Rightarrow> \<lparr>h_fields = upsert_fields (\<lambda>_. None) kvs, h_expires = None\<rparr>
   | Some h \<Rightarrow> h\<lparr>h_fields := upsert_fields (h_fields h) kvs\<rparr>)"

lemma rlists_set_rlist [simp]: "rlists (set_rlist k xs s) j = (if j = k then xs else rlists s j)"
  by (simp add: set_rlist_def)

lemma rhashes_set_rlist [simp]: "rhashes (set_rlist k xs s) = rhashes s"
  by (simp add: set_rlist_def)

lemma rlists_set_rhash [simp]: "rlists (set_rhash k h s) = rlists s"
  by (simp add: set_rhash_def)

lemma rhashes_set_rhash [simp]: "rhashes (set_rhash k h s) j = (if j = k then h else rhashes s j)"
  by (simp add: set_rhash_def)

lemma set_rlist_twice [simp]: "set_rlist k xs (set_rlist k ys s) = set_rlist k xs s"
  by (simp add: set_rlist_def)

lemma set_rlist_same [simp]: "set_rlist k (rlists s k) s = s"
  by (simp add: set_rlist_def)

section \<open>The documented behaviour\<close>

locale redis_server =
  fixes R :: services
  assumes lpush_doc: "lpush R k v s = set_rlist k (v # rlists s k) s"
    and lrem_all_doc: "lrem R k 0 v s = set_rlist k (filter (\<lambda>x. x \<noteq> v) (rlists s k)) s"
    and lrange_all_doc: "lrange R k 0 (- 1) s = rlists s k"
    and rpoplpush_empty_doc: "rlists s k = [] \<Longrightarrow> rpoplpush R k l s = (None, s)"
    and rpoplpush_doc: "rlists s k \<noteq> [] \<Longrightarrow> k \<noteq> l \<Longrightarrow> rpoplpush R k l s =
      (Some (last (rlists s k)),
       set_rlist l (last (rlists s k) # rlists s l) (set_rlist k (butlast (rlists s k)) s))"
    and hset_doc: "hset R now k kvs s = set_rhash k (Some (hset_hash (live_hash now k s) kvs)) s"
    and expire_doc: "expire R now k n s = (case live_hash now k s of
      None \<Rightarrow> s | Some h \<Rightarrow> set_rhash k (Some (h\<lparr>h_expires := Some (now + n * 1000000)\<rparr>)) s)"
    and hgetall_doc: "hgetall R now k s = map_option h_fields (live_hash now k s)"
begin

lemma lpush_hashes: "rhashes (lpush R k v s) = rhashes s"
  by (simp add: lpush_doc)

lemma lrem_idem: "lrem R k 0 v (lrem R k 0 v s) = lrem R k 0 v s"
  by (simp add: lrem_all_doc)

lemma lrem_absent: "v \<notin> set (rlists s k) \<Longrightarrow> lrem R k 0 v s = s"
  by (metis (mono_tags, lifting) filter_True lrem_all_doc set_rlist_same)

lemma hash_commands_lists: "rlists (hset R now k kvs s) = rlists s" "rlists (expire R now k n s) = rlists s"
  by (simp_all add: hset_doc expire_doc split: option.splits)

lemma expire_after_hset:
  "expire R now k n (hset R now k kvs s) =
     set_rhash k (Some ((hset_hash (live_hash now k s) kvs)\<lparr>h_expires := Some (now + n * 1000000)\<rparr>)) s"
proof -
  have "live_hash now k (set_rhash k (Some (hset_hash (live_hash now k s) kvs)) s)
      = Some (hset_hash (live_hash now k s) kvs)"
    by (auto simp: live_hash_def hset_hash_def split: option.splits)
  then show ?thesis
    by (simp add: expire_doc hset_doc) (simp add: set_rhash_def)
qed

lemmas list_docs = lpush_doc lrem_all_doc lrange_all_doc

end

text \<open>
  The reference server. \<open>lrem_first n\<close> removes the first \<open>n\<close> occurrences; a negative count
  works from the tail and 0 removes all. Indices of \<open>lrange\<close> count from the end when
  negative and are cut to the list.
\<close>

fun lrem_first :: "nat \<Rightarrow> string \<Rightarrow> string list \<Rightarrow> string list" where
  "lrem_first 0 v xs = xs"
| "lrem_first (Suc n) v [] = []"
| "lrem_first (Suc n) v (x # xs) = (if x = v then lrem_first n v xs else x # lrem_first (Suc n) v xs)"

definition lrem_list :: "int \<Rightarrow> string \<Rightarrow> string list \<Rightarrow> string list" where
  "lrem_list n v xs =
     (if n = 0 then filter (\<lambda>x. x \<noteq> v) xs
      else if 0 < n then lrem_first (nat n) v xs
      else rev (lrem_first (nat (- n)) v (rev xs)))"

definition lrange_list :: "int \<Rightarrow> int \<Rightarrow> string list \<Rightarrow> string list" where
  "lrange_list i j xs =
     (let n = int (length xs);
          a = (if i < 0 then max 0 (n + i) else i);
          b = (if j < 0 then n + j else min j (n - 1))
      in take (nat (b - a + 1)) (drop (nat a) xs))"

definition reference_services :: services where
  "reference_services = \<lparr>
     lpush = (\<lambda>k v s. set_rlist k (v # rlists s k) s),
     lrem = (\<lambda>k n v s. set_rlist k (lrem_list n v (rlists s k)) s),
     lrange = (\<lambda>k i j s. lrange_list i j (rlists s k)),
     rpoplpush = (\<lambda>k l s. case rev (rlists s k) of
         [] \<Rightarrow> (None, s)
       | x # xs \<Rightarrow> (Some x, (let t = set_rlist k (rev xs) s in set_rlist l (x # rlists t l) t))),
     hset = (\<lambda>now k kvs s. set_rhash k (Some (hset_hash (live_hash now k s) kvs)) s),
     expire = (\<lambda>now k n s. case live_hash now k s of
       None \<Rightarrow> s | Some h \<Rightarrow> set_rhash k (Some (h\<lparr>h_expires := Some (now + n * 1000000)\<rparr>)) s),
     hgetall = (\<lambda>now k s. map_option h_fields (live_hash now k s)),
     s3 = reference_s3\<rparr>"

lemma lrange_list_all: "lrange_list 0 (- 1) xs = xs"
  by (simp add: lrange_list_def)

lemma rev_butlast_last: "xs \<noteq> [] \<Longrightarrow> rev xs = last xs # rev (butlast xs)"
  by (cases xs rule: rev_cases) simp_all

interpretation reference: redis_server reference_services
  by unfold_locales (simp_all add: reference_services_def lrem_list_def lrange_list_all rev_butlast_last Let_def)

lemma redis_server_reference: "redis_server reference_services"
  by (rule reference.redis_server_axioms)

end
