(* ===== verification/Redis_Queue.thy ===== *)
theory Redis_Queue imports Redis begin

text \<open>
  \<open>crucible_worker/redis_queue.py\<close>: the reliable queue over the two Redis lists.

  \<open>reliable_queue\<close> is what the queue promises its clients: a FIFO of pending ids and a
  multiset of ids in flight. The sublocale proves that the class keeps the promise on every
  server with the documented behaviour: the pending ids are the list \<open>jobs:queue\<close> read from
  its right end, the ids in flight the elements of \<open>jobs:processing\<close>.
\<close>

definition QUEUE_KEY :: string where
  "QUEUE_KEY = ''jobs:queue''"

definition PROCESSING_KEY :: string where
  "PROCESSING_KEY = ''jobs:processing''"

text \<open>The move of \<open>claim\<close>; how long it blocks for an id is modelled with the worker.\<close>

definition queue_claim :: "services \<Rightarrow> redis \<Rightarrow> string option \<times> redis" where
  "queue_claim R s = rpoplpush R QUEUE_KEY PROCESSING_KEY s"

definition queue_ack :: "services \<Rightarrow> string \<Rightarrow> redis \<Rightarrow> redis" where
  "queue_ack R jid s = lrem R PROCESSING_KEY 0 jid s"

definition queue_requeue :: "services \<Rightarrow> string \<Rightarrow> redis \<Rightarrow> redis" where
  "queue_requeue R jid s = lpush R QUEUE_KEY jid (lrem R PROCESSING_KEY 0 jid s)"

definition queued_ids :: "services \<Rightarrow> redis \<Rightarrow> string set" where
  "queued_ids R s = set (lrange R QUEUE_KEY 0 (- 1) s)"

definition in_flight_ids :: "services \<Rightarrow> redis \<Rightarrow> string set" where
  "in_flight_ids R s = set (lrange R PROCESSING_KEY 0 (- 1) s)"

text \<open>The producer's side, \<open>Queue.Enqueue\<close> and \<open>Queue.Dequeue\<close> of the backend.\<close>

definition queue_enqueue :: "services \<Rightarrow> string \<Rightarrow> redis \<Rightarrow> redis" where
  "queue_enqueue R jid s = lpush R QUEUE_KEY jid s"

definition queue_dequeue :: "services \<Rightarrow> string \<Rightarrow> redis \<Rightarrow> redis" where
  "queue_dequeue R jid s = lrem R QUEUE_KEY 0 jid s"

lemma queue_keys_distinct [simp]: "QUEUE_KEY \<noteq> PROCESSING_KEY" "PROCESSING_KEY \<noteq> QUEUE_KEY"
  by (simp_all add: QUEUE_KEY_def PROCESSING_KEY_def)

section \<open>The contract\<close>

text \<open>Claiming \<open>n\<close> times in a row.\<close>

fun claim_n :: "('q \<Rightarrow> string option \<times> 'q) \<Rightarrow> nat \<Rightarrow> 'q \<Rightarrow> string option list \<times> 'q" where
  "claim_n c 0 q = ([], q)"
| "claim_n c (Suc n) q = (case c q of (x, q') \<Rightarrow> (case claim_n c n q' of (xs, q'') \<Rightarrow> (x # xs, q'')))"

locale reliable_queue =
  fixes pending :: "'q \<Rightarrow> string list"
    and in_flight :: "'q \<Rightarrow> string multiset"
    and push :: "string \<Rightarrow> 'q \<Rightarrow> 'q"
    and claim :: "'q \<Rightarrow> string option \<times> 'q"
    and ack :: "string \<Rightarrow> 'q \<Rightarrow> 'q"
    and requeue :: "string \<Rightarrow> 'q \<Rightarrow> 'q"
  assumes push_pending: "pending (push x q) = pending q @ [x]"
    and push_in_flight: "in_flight (push x q) = in_flight q"
    and claim_empty: "pending q = [] \<Longrightarrow> claim q = (None, q)"
    and claim_pending: "pending q = x # xs \<Longrightarrow>
      \<exists>q'. claim q = (Some x, q') \<and> pending q' = xs \<and> in_flight q' = add_mset x (in_flight q)"
    and ack_pending: "pending (ack x q) = pending q"
    and ack_in_flight: "in_flight (ack x q) = filter_mset (\<lambda>y. y \<noteq> x) (in_flight q)"
    and requeue_pending: "pending (requeue x q) = pending q @ [x]"
    and requeue_in_flight: "in_flight (requeue x q) = filter_mset (\<lambda>y. y \<noteq> x) (in_flight q)"
begin

lemma claim_conserves: "mset (pending (snd (claim q))) + in_flight (snd (claim q)) = mset (pending q) + in_flight q"
  using claim_pending [of q] claim_empty [of q] by (cases "pending q") fastforce+

lemma push_all_pending: "pending (fold push xs q) = pending q @ xs"
  by (induction xs arbitrary: q) (simp_all add: push_pending)

lemma claims_in_order:
  "pending q = xs @ ys \<Longrightarrow> fst (claim_n claim (length xs) q) = map Some xs
     \<and> pending (snd (claim_n claim (length xs) q)) = ys"
proof (induction xs arbitrary: q)
  case (Cons x xs)
  then obtain q' where "claim q = (Some x, q')" and "pending q' = xs @ ys"
    using claim_pending [of q x "xs @ ys"] by auto
  with Cons.IH [of q'] show ?case
    by (cases "claim_n claim (length xs) q'") auto
qed simp

lemma fifo: "pending q = [] \<Longrightarrow> fst (claim_n claim (length xs) (fold push xs q)) = map Some xs"
  using claims_in_order [of "fold push xs q" xs "[]"] by (simp add: push_all_pending)

lemma claimed_then_acked:
  "pending q = x # xs \<Longrightarrow> x \<notin># in_flight q \<Longrightarrow>
     in_flight (ack x (snd (claim q))) = in_flight q \<and> pending (ack x (snd (claim q))) = xs"
  using claim_pending [of q x xs]
  by (auto simp: ack_in_flight ack_pending filter_mset_absent)

end

context redis_server begin

lemma claim_empty_list: "rlists s QUEUE_KEY = [] \<Longrightarrow> queue_claim R s = (None, s)"
  by (simp add: queue_claim_def rpoplpush_empty_doc)

lemma claim_list:
  "rlists s QUEUE_KEY = xs @ [x] \<Longrightarrow> queue_claim R s =
     (Some x, set_rlist PROCESSING_KEY (x # rlists s PROCESSING_KEY) (set_rlist QUEUE_KEY xs s))"
  by (simp add: queue_claim_def rpoplpush_doc)

lemma ack_lists:
  "rlists (queue_ack R jid s) k = (if k = PROCESSING_KEY then filter (\<lambda>x. x \<noteq> jid) (rlists s k) else rlists s k)"
  by (simp add: queue_ack_def lrem_all_doc)

lemma requeue_lists:
  "rlists (queue_requeue R jid s) k =
     (if k = PROCESSING_KEY then filter (\<lambda>x. x \<noteq> jid) (rlists s k)
      else if k = QUEUE_KEY then jid # rlists s k else rlists s k)"
  by (simp add: queue_requeue_def list_docs)

lemma enqueue_lists:
  "rlists (queue_enqueue R jid s) k = (if k = QUEUE_KEY then jid # rlists s k else rlists s k)"
  by (simp add: queue_enqueue_def list_docs)

lemma dequeue_lists:
  "rlists (queue_dequeue R jid s) k = (if k = QUEUE_KEY then filter (\<lambda>x. x \<noteq> jid) (rlists s k) else rlists s k)"
  by (simp add: queue_dequeue_def list_docs)

lemma queue_hashes:
  "rhashes (queue_ack R jid s) = rhashes s"
  "rhashes (queue_requeue R jid s) = rhashes s"
  "rhashes (queue_enqueue R jid s) = rhashes s"
  "rhashes (queue_dequeue R jid s) = rhashes s"
  "rhashes (snd (queue_claim R s)) = rhashes s"
  by (simp_all add: queue_ack_def queue_requeue_def queue_enqueue_def queue_dequeue_def list_docs)
    (cases "rlists s QUEUE_KEY" rule: rev_cases; simp add: claim_empty_list claim_list)

lemma queue_id_sets:
  "queued_ids R s = set (rlists s QUEUE_KEY)" "in_flight_ids R s = set (rlists s PROCESSING_KEY)"
  by (simp_all add: queued_ids_def in_flight_ids_def lrange_all_doc)

lemmas queue_lists = ack_lists requeue_lists enqueue_lists dequeue_lists

end

sublocale redis_server \<subseteq> rq: reliable_queue
  "\<lambda>s. rev (rlists s QUEUE_KEY)" "\<lambda>s. mset (rlists s PROCESSING_KEY)"
  "queue_enqueue R" "queue_claim R" "queue_ack R" "queue_requeue R"
proof (unfold_locales, goal_cases)
  case (4 q x xs)
  then have "rlists q QUEUE_KEY = rev xs @ [x]" by simp
  then show ?case by (simp add: claim_list)
qed (simp_all add: queue_lists claim_empty_list)

end
