(* ===== verification/Backend.thy ===== *)
theory Backend imports Job_Db Redis_Queue begin

text \<open>
  The part of the Go backend the worker shares its state with: the job transitions of
  \<open>backend/internal/db/jobs.go\<close> (insert, checked status update) and the steps the handlers of
  \<open>backend/internal/handler/jobs.go\<close> make of them. The worker's properties are proved against
  any interleaving with these steps.
\<close>

definition valid_transitions :: "job_status \<Rightarrow> job_status list option" where
  "valid_transitions s = (case s of
     QUEUED \<Rightarrow> Some [RUNNING, CANCELLED]
   | RUNNING \<Rightarrow> Some [COMPLETED, FAILED, CANCELLED]
   | _ \<Rightarrow> None)"

datatype store_error = JobNotFound | InvalidTransition job_status job_status

definition validate_transition :: "job_status \<Rightarrow> job_status \<Rightarrow> store_error option" where
  "validate_transition from to = (case valid_transitions from of
     None \<Rightarrow> Some (InvalidTransition from to)
   | Some allowed \<Rightarrow> if to \<in> set allowed then None else Some (InvalidTransition from to))"

text \<open>
  \<open>JobStore.Update\<close> with a status: row lock, transition check, update with \<open>COALESCE\<close> on the
  two optional fields, in one transaction. The result is the error or the new table.
\<close>

definition coalesce :: "'a option \<Rightarrow> 'a option \<Rightarrow> 'a option" where
  "coalesce a b = (case a of None \<Rightarrow> b | Some x \<Rightarrow> Some x)"

definition store_update :: "int \<Rightarrow> uuid \<Rightarrow> job_status \<Rightarrow> string option \<Rightarrow> string option \<Rightarrow> job_row list
    \<Rightarrow> store_error + job_row list" where
  "store_update now i to ckpt err rows = (case job_at i rows of
     None \<Rightarrow> Inl JobNotFound
   | Some r \<Rightarrow> (case validate_transition (r_status r) to of
       Some e \<Rightarrow> Inl e
     | None \<Rightarrow> Inr (sql_update (\<lambda>q. r_id q = i)
         (\<lambda>q. q\<lparr>r_status := to, r_checkpoint_path := coalesce ckpt (r_checkpoint_path q),
              r_error_message := coalesce err (r_error_message q), r_updated_at := now\<rparr>) rows)))"

text \<open>A handler drops the error of a statement that changed nothing.\<close>

definition after_update :: "job_row list \<Rightarrow> store_error + job_row list \<Rightarrow> job_row list" where
  "after_update rows res = (case res of Inl _ \<Rightarrow> rows | Inr rows' \<Rightarrow> rows')"

text \<open>\<open>JobStore.Create\<close>: the primary key refuses an id that exists.\<close>

definition store_create :: "int \<Rightarrow> uuid \<Rightarrow> string \<Rightarrow> string \<Rightarrow> json \<Rightarrow> job_row list \<Rightarrow> job_row list" where
  "store_create now i model path hp rows =
     (if i \<in> set (map r_id rows) then rows
      else rows @ [\<lparr>r_id = i, r_status = QUEUED, r_base_model = model, r_dataset_path = path,
        r_hyperparameters = hp, r_checkpoint_path = None, r_error_message = None,
        r_created_at = now, r_updated_at = now\<rparr>])"

text \<open>\<open>UpdateJob\<close> (the cancel action), and what \<open>CreateJob\<close> does when the enqueue failed.\<close>

definition backend_cancel :: "int \<Rightarrow> uuid \<Rightarrow> job_row list \<Rightarrow> job_row list" where
  "backend_cancel now i rows = after_update rows (store_update now i CANCELLED None None rows)"

definition backend_enqueue_failed :: "int \<Rightarrow> uuid \<Rightarrow> string \<Rightarrow> job_row list \<Rightarrow> job_row list" where
  "backend_enqueue_failed now i msg rows =
     after_update rows (store_update now i FAILED None (Some (''enqueue failed: '' @ msg)) rows)"

lemma validate_transition_None_iff:
  "validate_transition a b = None \<longleftrightarrow>
     (a = QUEUED \<and> b \<in> {RUNNING, CANCELLED}) \<or> (a = RUNNING \<and> b \<in> {COMPLETED, FAILED, CANCELLED})"
  by (cases a; cases b) (simp_all add: validate_transition_def valid_transitions_def)

lemma store_update_InrE:
  assumes "store_update now i to ckpt err rows = Inr rows'"
  obtains r where "job_at i rows = Some r" and "validate_transition (r_status r) to = None"
    and "rows' = sql_update (\<lambda>q. r_id q = i)
         (\<lambda>q. q\<lparr>r_status := to, r_checkpoint_path := coalesce ckpt (r_checkpoint_path q),
              r_error_message := coalesce err (r_error_message q), r_updated_at := now\<rparr>) rows"
  using assms by (auto simp: store_update_def split: option.splits)

lemma job_at_store_update:
  assumes "store_update now i to ckpt err rows = Inr rows'"
  shows "job_at j rows' = map_option (\<lambda>q. if r_id q = i then
      q\<lparr>r_status := to, r_checkpoint_path := coalesce ckpt (r_checkpoint_path q),
        r_error_message := coalesce err (r_error_message q), r_updated_at := now\<rparr> else q) (job_at j rows)"
  using assms by (rule store_update_InrE) (simp add: job_at_sql_update)

lemma map_r_id_after_update:
  "map r_id (after_update rows (store_update now i to ckpt err rows)) = map r_id rows"
  by (auto simp: after_update_def split: sum.splits elim!: store_update_InrE)

lemma table_life_cancel: "table_life rows (backend_cancel now i rows)"
proof (rule table_lifeI)
  fix j r assume r: "job_at j rows = Some r"
  show "\<exists>r'. job_at j (backend_cancel now i rows) = Some r' \<and> life\<^sup>*\<^sup>* r r'"
  proof (cases "store_update now i CANCELLED None None rows")
    case (Inr rows')
    then obtain q where q: "job_at i rows = Some q" and "validate_transition (r_status q) CANCELLED = None"
      by (rule store_update_InrE)
    then have st: "r_status q = QUEUED \<or> r_status q = RUNNING"
      by (auto simp: validate_transition_None_iff)
    have "life q (q\<lparr>r_status := CANCELLED, r_updated_at := now\<rparr>)"
      using st by (rule life.cancel)
    with Inr q r job_at_id [OF r] show ?thesis
      by (cases "i = j") (auto simp: backend_cancel_def after_update_def job_at_store_update coalesce_def)
  qed (use r in \<open>simp add: backend_cancel_def after_update_def\<close>)
qed

lemma table_life_enqueue_failed: "table_life rows (backend_enqueue_failed now i msg rows)"
proof (rule table_lifeI)
  fix j r assume r: "job_at j rows = Some r"
  let ?m = "''enqueue failed: '' @ msg"
  show "\<exists>r'. job_at j (backend_enqueue_failed now i msg rows) = Some r' \<and> life\<^sup>*\<^sup>* r r'"
  proof (cases "store_update now i FAILED None (Some ?m) rows")
    case (Inr rows')
    then obtain q where q: "job_at i rows = Some q" and "validate_transition (r_status q) FAILED = None"
      by (rule store_update_InrE)
    then have "r_status q = RUNNING"
      by (auto simp: validate_transition_None_iff)
    then have "life q (q\<lparr>r_status := FAILED, r_error_message := Some ?m, r_updated_at := now\<rparr>)"
      by (rule life.fail)
    with Inr q r job_at_id [OF r] show ?thesis
      by (cases "i = j") (auto simp: backend_enqueue_failed_def after_update_def job_at_store_update coalesce_def)
  qed (use r in \<open>simp add: backend_enqueue_failed_def after_update_def\<close>)
qed

lemma table_life_create: "table_life rows (store_create now i model path hp rows)"
  by (rule table_lifeI) (auto simp: store_create_def job_at_append)

lemma enqueue_failed_queued_noop:
  "job_at i rows = Some r \<Longrightarrow> r_status r = QUEUED \<Longrightarrow> backend_enqueue_failed now i msg rows = rows"
  by (simp add: backend_enqueue_failed_def store_update_def after_update_def
      validate_transition_def valid_transitions_def)

end
