(* ===== verification/Status.thy ===== *)
theory Status imports Redis Job_Schema begin

text \<open>
  \<open>crucible_worker/status.py\<close>: the live status hash in Redis, with the RFC 3339 time stamp
  (\<open>datetime.now(timezone.utc).replace(microsecond=0).isoformat()\<close>) and the lifetime of 24
  hours that a terminal status puts on it. The pipeline of \<open>redis-py\<close> is a transaction, so
  the two commands are one step.
\<close>

definition TERMINAL_TTL_SECONDS :: int where
  "TERMINAL_TTL_SECONDS = 24 * 3600"

definition status_key :: "string \<Rightarrow> string" where
  "status_key jid = ''jobs:status:'' @ jid"

text \<open>Days since 1970-01-01 to a date of the proleptic Gregorian calendar.\<close>

definition civil_from_days :: "int \<Rightarrow> int \<times> int \<times> int" where
  "civil_from_days days =
     (let z = days + 719468; era = z div 146097; doe = z mod 146097;
          yoe = (doe - doe div 1460 + doe div 36524 - doe div 146096) div 365;
          doy = doe - (365 * yoe + yoe div 4 - yoe div 100);
          mp = (5 * doy + 2) div 153;
          d = doy - (153 * mp + 2) div 5 + 1;
          m = (if mp < 10 then mp + 3 else mp - 9);
          y = yoe + era * 400 + (if m \<le> 2 then 1 else 0)
      in (y, m, d))"

definition zero_pad :: "nat \<Rightarrow> int \<Rightarrow> string" where
  "zero_pad w i = replicate (w - length (str_int i)) (CHR ''0'') @ str_int i"

definition now_rfc3339 :: "int \<Rightarrow> string" where
  "now_rfc3339 now =
     (let t = now div 1000000; s = t mod 86400 in
      case civil_from_days (t div 86400) of (y, m, d) \<Rightarrow>
        zero_pad 4 y @ ''-'' @ zero_pad 2 m @ ''-'' @ zero_pad 2 d @ ''T'' @
        zero_pad 2 (s div 3600) @ '':'' @ zero_pad 2 (s div 60 mod 60) @ '':'' @ zero_pad 2 (s mod 60) @
        ''+00:00'')"

definition status_publish :: "services \<Rightarrow> int \<Rightarrow> string \<Rightarrow> string \<Rightarrow> bool \<Rightarrow> redis \<Rightarrow> redis" where
  "status_publish R now jid status is_terminal s =
     (let key = status_key jid;
          s' = hset R now key [(''status'', status), (''updated_at'', now_rfc3339 now)] s
      in if is_terminal then expire R now key TERMINAL_TTL_SECONDS s' else s')"

text \<open>What a poll of the hash reads: \<open>HGET jobs:status:<id> status\<close> at a given time.\<close>

definition published_status :: "int \<Rightarrow> string \<Rightarrow> redis \<Rightarrow> string option" where
  "published_status now jid s = (case live_hash now (status_key jid) s of
     None \<Rightarrow> None | Some h \<Rightarrow> h_fields h ''status'')"

lemma status_key_inject [simp]: "status_key a = status_key b \<longleftrightarrow> a = b"
  by (simp add: status_key_def)

context redis_server begin

lemma publish_lists: "rlists (status_publish R now jid st b s) = rlists s"
  by (simp add: status_publish_def Let_def hash_commands_lists)

lemma publish_hash:
  "rhashes (status_publish R now jid st b s) = (rhashes s)(status_key jid :=
     (let h = hset_hash (live_hash now (status_key jid) s)
            [(''status'', st), (''updated_at'', now_rfc3339 now)]
      in Some (if b then h\<lparr>h_expires := Some (now + TERMINAL_TTL_SECONDS * 1000000)\<rparr> else h)))"
  by (cases b) (simp_all add: status_publish_def Let_def expire_after_hset fun_eq_iff, simp_all add: hset_doc)

lemma publish_read: "published_status now jid (status_publish R now jid st b s) = Some st"
  by (auto simp: published_status_def live_hash_def publish_hash Let_def hset_hash_def
      upsert_fields_def TERMINAL_TTL_SECONDS_def split: option.splits)

lemma publish_other:
  "jid' \<noteq> jid \<Longrightarrow> published_status t jid' (status_publish R now jid st b s) = published_status t jid' s"
  by (simp add: published_status_def live_hash_def publish_hash)

lemma publish_terminal_lifetime:
  "published_status t jid (status_publish R now jid st True s) =
     (if t < now + TERMINAL_TTL_SECONDS * 1000000 then Some st else None)"
  by (auto simp: published_status_def live_hash_def publish_hash Let_def hset_hash_def
      upsert_fields_def split: option.splits)

end

end
