(* ===== verification/Fs.thy ===== *)
theory Fs imports Py_Exn "HOL-Library.Sublist" begin

text \<open>
  The local disk of a worker process, as far as the stores and the trainer touch it through
  \<open>pathlib\<close>. A path is the list of its components below the root and may contain \<open>'..'\<close>; the
  operating system resolves it (there are no symbolic links in the model). A node is a
  directory or a file with its bytes. A full disk or a missing permission is not modelled.
\<close>

type_synonym path = "string list"

datatype node = Dir | File string

type_synonym disk = "(path \<times> node) list"

definition dotdot :: string where
  "dotdot = ''..''"

fun resolve_onto :: "path \<Rightarrow> path \<Rightarrow> path" where
  "resolve_onto acc [] = acc"
| "resolve_onto acc (x # xs) = resolve_onto (if x = dotdot then butlast acc else acc @ [x]) xs"

definition resolve :: "path \<Rightarrow> path" where
  "resolve p = resolve_onto [] p"

text \<open>\<open>p / s\<close>: an absolute \<open>s\<close> replaces \<open>p\<close>. \<open>str(p)\<close> for an absolute path.\<close>

definition path_join :: "path \<Rightarrow> string \<Rightarrow> path" where
  "path_join p s = (if starts_with [slash] s then path_parts s else p @ path_parts s)"

definition path_text :: "path \<Rightarrow> string" where
  "path_text p = slash # join [slash] p"

definition posix_text :: "path \<Rightarrow> string" where
  "posix_text p = join [slash] p"

definition node_at :: "disk \<Rightarrow> path \<Rightarrow> node option" where
  "node_at d p = (if resolve p = [] then Some Dir else map_of d (resolve p))"

definition is_dir :: "disk \<Rightarrow> path \<Rightarrow> bool" where
  "is_dir d p \<longleftrightarrow> node_at d p = Some Dir"

definition file_at :: "disk \<Rightarrow> path \<Rightarrow> string option" where
  "file_at d p = (case node_at d p of Some (File s) \<Rightarrow> Some s | _ \<Rightarrow> None)"

definition is_file :: "disk \<Rightarrow> path \<Rightarrow> bool" where
  "is_file d p \<longleftrightarrow> file_at d p \<noteq> None"

definition set_node :: "path \<Rightarrow> node \<Rightarrow> disk \<Rightarrow> disk" where
  "set_node p n d = (resolve p, n) # filter (\<lambda>e. fst e \<noteq> resolve p) d"

definition os_error :: "string \<Rightarrow> path \<Rightarrow> exn" where
  "os_error what p = OSError (what @ '': '' @ repr_str (path_text p))"

text \<open>
  \<open>path.mkdir(parents=True, exist_ok=True)\<close>: the missing directories on the way are made one
  by one; a file on the way, or at the end, is an error.
\<close>

fun mkdir_onto :: "path \<Rightarrow> path \<Rightarrow> path \<Rightarrow> disk \<Rightarrow> exn + disk" where
  "mkdir_onto full p [] d = Inr d"
| "mkdir_onto full p (x # xs) d = (case node_at d (p @ [x]) of
     Some Dir \<Rightarrow> mkdir_onto full (p @ [x]) xs d
   | Some (File _) \<Rightarrow> Inl (os_error (if xs = [] then ''[Errno 17] File exists'' else ''[Errno 20] Not a directory'') full)
   | None \<Rightarrow> mkdir_onto full (p @ [x]) xs (set_node (p @ [x]) Dir d))"

definition mkdirs :: "path \<Rightarrow> disk \<Rightarrow> exn + disk" where
  "mkdirs p d = mkdir_onto p [] p d"

text \<open>Writing a whole file; the directory must exist.\<close>

definition write_file :: "path \<Rightarrow> string \<Rightarrow> disk \<Rightarrow> exn + disk" where
  "write_file p s d =
     (if \<not> is_dir d (butlast p) then Inl (os_error ''[Errno 2] No such file or directory'' p)
      else if is_dir d p then Inl (os_error ''[Errno 21] Is a directory'' p)
      else Inr (set_node p (File s) d))"

text \<open>\<open>sorted(f for f in p.rglob('*') if f.is_file())\<close>, and \<open>shutil.rmtree\<close>.\<close>

definition files_under :: "disk \<Rightarrow> path \<Rightarrow> path list" where
  "files_under d p = sort (map fst (filter (\<lambda>e. snd e \<noteq> Dir \<and> strict_prefix p (fst e)) d))"

definition remove_tree :: "path \<Rightarrow> disk \<Rightarrow> disk" where
  "remove_tree p d = filter (\<lambda>e. \<not> prefix p (fst e)) d"

text \<open>Well-formed disks: one entry per path, paths resolved, parents are directories.\<close>

definition plain :: "path \<Rightarrow> bool" where
  "plain p \<longleftrightarrow> dotdot \<notin> set p"

definition disk_wf :: "disk \<Rightarrow> bool" where
  "disk_wf d \<longleftrightarrow> distinct (map fst d)
     \<and> (\<forall>e \<in> set d. plain (fst e) \<and> fst e \<noteq> [] \<and> (butlast (fst e) = [] \<or> map_of d (butlast (fst e)) = Some Dir))"

section \<open>Paths\<close>

lemma resolve_onto_plain: "plain p \<Longrightarrow> resolve_onto acc p = acc @ p"
  by (induction p arbitrary: acc) (auto simp: plain_def)

lemma resolve_plain [simp]: "plain p \<Longrightarrow> resolve p = p"
  by (simp add: resolve_def resolve_onto_plain)

lemma plain_append [simp]: "plain (p @ q) \<longleftrightarrow> plain p \<and> plain q"
  by (auto simp: plain_def)

lemma plain_Nil [simp]: "plain []"
  by (simp add: plain_def)

lemma plain_butlast: "plain p \<Longrightarrow> plain (butlast p)"
  by (auto simp: plain_def dest: in_set_butlastD)

lemma plain_prefix: "prefix y x \<Longrightarrow> plain x \<Longrightarrow> plain y"
  by (auto simp: prefix_def)

lemma strict_prefix_butlast: "q \<noteq> [] \<Longrightarrow> strict_prefix (butlast q) q"
  by (cases q rule: rev_cases) (simp_all add: strict_prefix_def)

lemma prefix_butlast_strict: "prefix z (butlast q) \<Longrightarrow> q \<noteq> [] \<Longrightarrow> strict_prefix z q"
  by (rule prefix_order.le_less_trans [OF _ strict_prefix_butlast])

lemma strict_prefix_prefix_butlast: "strict_prefix z q \<Longrightarrow> prefix z (butlast q)"
  by (cases q rule: rev_cases) (auto simp: strict_prefix_def)

lemma plain_resolve_onto: "plain acc \<Longrightarrow> plain (resolve_onto acc p)"
proof (induction p arbitrary: acc)
  case (Cons x p)
  show ?case
  proof (cases "x = dotdot")
    case True
    then show ?thesis using Cons.IH [of "butlast acc"] plain_butlast [OF Cons.prems] by simp
  next
    case False
    then show ?thesis using Cons.IH [of "acc @ [x]"] Cons.prems by (simp add: plain_def)
  qed
qed simp

lemma plain_resolved [simp]: "plain (resolve p)"
  by (simp add: resolve_def plain_resolve_onto)

section \<open>Reading after writing\<close>

lemma map_of_filter_fst: "map_of (filter (\<lambda>e. P (fst e)) d) k = (if P k then map_of d k else None)"
  by (induction d) auto

lemma node_at_set_node:
  "resolve p \<noteq> [] \<Longrightarrow> node_at (set_node p n d) q = (if resolve q = resolve p then Some n else node_at d q)"
  using map_of_filter_fst [of "\<lambda>k. k \<noteq> resolve p" d "resolve q"] by (simp add: node_at_def set_node_def)

lemma node_at_cong: "resolve q = resolve p \<Longrightarrow> node_at d q = node_at d p"
  by (simp add: node_at_def)

lemma file_at_set_node:
  "resolve p \<noteq> [] \<Longrightarrow> file_at (set_node p n d) q =
     (if resolve q = resolve p then (case n of File s \<Rightarrow> Some s | Dir \<Rightarrow> None) else file_at d q)"
  by (simp add: file_at_def node_at_set_node split: node.split)

lemma root_is_dir [simp]: "is_dir d []"
  by (simp add: is_dir_def node_at_def resolve_def)

lemma write_file_InrD:
  assumes "write_file p s d = Inr d'"
  shows "resolve p \<noteq> [] \<and> d' = set_node p (File s) d"
  using assms by (auto simp: write_file_def is_dir_def node_at_def split: if_splits)

lemma write_file_node_at:
  "write_file p s d = Inr d' \<Longrightarrow> node_at d' q = (if resolve q = resolve p then Some (File s) else node_at d q)"
  using node_at_set_node [of p "File s" d q] by (auto dest!: write_file_InrD)

text \<open>Making directories adds directories on the way and changes nothing that exists.\<close>

lemma mkdir_onto_cases:
  assumes "mkdir_onto full p (x # xs) d = Inr d'"
  obtains (new) "node_at d (p @ [x]) = None" "resolve (p @ [x]) \<noteq> []"
      "mkdir_onto full (p @ [x]) xs (set_node (p @ [x]) Dir d) = Inr d'"
  | (old) "node_at d (p @ [x]) = Some Dir" "mkdir_onto full (p @ [x]) xs d = Inr d'"
  using assms by (auto simp: node_at_def split: option.splits node.splits if_splits)

lemma mkdir_onto_keeps:
  "mkdir_onto full p xs d = Inr d' \<Longrightarrow> node_at d q \<noteq> None \<Longrightarrow> node_at d' q = node_at d q"
proof (induction xs arbitrary: p d)
  case (Cons x xs)
  from Cons.prems(1) show ?case
  proof (cases rule: mkdir_onto_cases)
    case new
    then have "resolve q \<noteq> resolve (p @ [x])" using Cons.prems(2) node_at_cong by metis
    with new Cons.IH [OF new(3)] Cons.prems(2) show ?thesis
      by (simp add: node_at_set_node)
  next
    case old
    with Cons show ?thesis by blast
  qed
qed simp

lemma mkdir_onto_adds:
  "mkdir_onto full p xs d = Inr d' \<Longrightarrow> node_at d q = None \<Longrightarrow> node_at d' q \<noteq> None \<Longrightarrow>
     node_at d' q = Some Dir \<and> (\<exists>ys. prefix ys xs \<and> ys \<noteq> [] \<and> resolve q = resolve (p @ ys))"
proof (induction xs arbitrary: p d)
  case (Cons x xs)
  have lift: ?case if "node_at d' q = Some Dir \<and> (\<exists>ys. prefix ys xs \<and> ys \<noteq> [] \<and> resolve q = resolve ((p @ [x]) @ ys))"
  proof -
    from that obtain ys where "node_at d' q = Some Dir" "prefix ys xs" "resolve q = resolve (p @ x # ys)"
      by auto
    then show ?thesis
      by (intro conjI exI [of _ "x # ys"]) simp_all
  qed
  from Cons.prems(1) show ?case
  proof (cases rule: mkdir_onto_cases)
    case new
    show ?thesis
    proof (cases "resolve q = resolve (p @ [x])")
      case True
      then have "node_at (set_node (p @ [x]) Dir d) q = Some Dir"
        using new(2) by (simp add: node_at_set_node)
      then have "node_at d' q = Some Dir"
        using mkdir_onto_keeps [OF new(3), of q] by simp
      with True show ?thesis
        by (intro conjI exI [of _ "[x]"]) simp_all
    next
      case False
      then have "node_at (set_node (p @ [x]) Dir d) q = None"
        using new(2) Cons.prems(2) by (simp add: node_at_set_node)
      from Cons.IH [OF new(3) this Cons.prems(3)] show ?thesis by (rule lift)
    qed
  next
    case old
    from Cons.IH [OF old(2) Cons.prems(2,3)] show ?thesis by (rule lift)
  qed
qed simp

lemma mkdir_onto_makes:
  "mkdir_onto full p xs d = Inr d' \<Longrightarrow> prefix ys xs \<Longrightarrow> ys \<noteq> [] \<Longrightarrow> node_at d' (p @ ys) = Some Dir"
proof (induction xs arbitrary: p d ys)
  case (Cons x xs)
  then obtain zs where ys: "ys = x # zs" "prefix zs xs" by (cases ys) auto
  from Cons.prems(1) show ?case
  proof (cases rule: mkdir_onto_cases)
    case new
    then have "node_at d' (p @ [x]) = Some Dir"
      using mkdir_onto_keeps [OF new(3), of "p @ [x]"] by (simp add: node_at_set_node)
    then show ?thesis
      using Cons.IH [OF new(3) ys(2)] ys(1) by (cases zs) simp_all
  next
    case old
    then have "node_at d' (p @ [x]) = Some Dir"
      using mkdir_onto_keeps [OF old(2), of "p @ [x]"] by simp
    then show ?thesis
      using Cons.IH [OF old(2) ys(2)] ys(1) by (cases zs) simp_all
  qed
qed simp

lemma mkdirs_keeps: "mkdirs p d = Inr d' \<Longrightarrow> node_at d q \<noteq> None \<Longrightarrow> node_at d' q = node_at d q"
  unfolding mkdirs_def by (rule mkdir_onto_keeps)

lemma mkdirs_adds:
  assumes "mkdirs p d = Inr d'" and "node_at d q = None" and "node_at d' q \<noteq> None"
  shows "node_at d' q = Some Dir \<and> (\<exists>ys. prefix ys p \<and> ys \<noteq> [] \<and> resolve q = resolve ys)"
  using mkdir_onto_adds [OF assms(1) [unfolded mkdirs_def] assms(2,3)] by simp

lemma mkdirs_makes:
  assumes "mkdirs p d = Inr d'"
  shows "is_dir d' p"
proof (cases "p = []")
  case False
  with mkdir_onto_makes [OF assms [unfolded mkdirs_def], of p] show ?thesis
    by (simp add: is_dir_def)
qed simp

lemma mkdirs_file_at: "mkdirs p d = Inr d' \<Longrightarrow> file_at d' q = file_at d q"
  using mkdirs_keeps [of p d d' q] mkdirs_adds [of p d d' q]
  by (cases "node_at d q"; cases "node_at d' q") (auto simp: file_at_def)

text \<open>Making a directory succeeds when no file is on the way.\<close>

lemma mkdir_onto_total:
  "(\<And>ys. prefix ys xs \<Longrightarrow> ys \<noteq> [] \<Longrightarrow> file_at d (p @ ys) = None) \<Longrightarrow> \<exists>d'. mkdir_onto full p xs d = Inr d'"
proof (induction xs arbitrary: p d)
  case (Cons x xs)
  have nofile: "file_at d (p @ [x] @ ys) = None" if "prefix ys xs" for ys
    using Cons.prems [of "x # ys"] that by simp
  show ?case
  proof (cases "node_at d (p @ [x])")
    case None
    then have r: "resolve (p @ [x]) \<noteq> []" by (auto simp: node_at_def)
    have "\<exists>d'. mkdir_onto full (p @ [x]) xs (set_node (p @ [x]) Dir d) = Inr d'"
      by (rule Cons.IH) (use nofile r in \<open>simp add: file_at_set_node\<close>)
    with None show ?thesis by simp
  next
    case (Some n)
    have "file_at d (p @ [x]) = None" using nofile [of "[]"] by simp
    with Some have "n = Dir" by (cases n) (auto simp: file_at_def)
    moreover have "\<exists>d'. mkdir_onto full (p @ [x]) xs d = Inr d'"
      by (rule Cons.IH) (use nofile in simp)
    ultimately show ?thesis using Some by simp
  qed
qed simp

lemma mkdirs_total: "(\<And>ys. prefix ys p \<Longrightarrow> file_at d ys = None) \<Longrightarrow> \<exists>d'. mkdirs p d = Inr d'"
  unfolding mkdirs_def by (rule mkdir_onto_total) simp

end
