(* ===== verification/Registry_Db.thy ===== *)
theory Registry_Db imports Job_Db begin

text \<open>
  The registry tables \<open>datasets\<close> and \<open>models\<close> (migrations 002, 003 and 005) and the transactions of
  \<open>scripts/register_dataset.py\<close> and \<open>scripts/register_model.py\<close> over them. A transaction is one
  step; an error rolls it back. Each table has the counter of its \<open>SERIAL\<close> column. The invariant
  \<open>registry_ok\<close> is what the constraints of the migrations promise; every transaction keeps it, and
  under it no transaction runs into a constraint.
\<close>

record dataset_row =
  d_id :: int
  d_name :: string
  d_version :: string
  d_storage_path :: string
  d_path_type :: string
  d_size_bytes :: int
  d_sha256_checksum :: string
  d_status :: string
  d_source_description :: "string option"

record registry =
  datasets :: "dataset_row list"
  next_dataset_id :: int
  models :: "model_row list"
  next_model_id :: int

definition unique_violation :: "string \<Rightarrow> exn" where
  "unique_violation index = DriverError (''duplicate key value violates unique constraint '' @ index)"

section \<open>Data sets\<close>

definition dataset_of :: "string \<Rightarrow> string \<Rightarrow> dataset_row list \<Rightarrow> dataset_row option" where
  "dataset_of name version rows = find (\<lambda>r. d_name r = name \<and> d_version r = version) rows"

definition insert_dataset :: "(int \<Rightarrow> dataset_row) \<Rightarrow> registry \<Rightarrow> exn + int \<times> registry" where
  "insert_dataset mk g =
     (let r = mk (next_dataset_id g) in
      if dataset_of (d_name r) (d_version r) (datasets g) \<noteq> None then Inl (unique_violation ''datasets_name_version_key'')
      else Inr (d_id r, g\<lparr>datasets := datasets g @ [r], next_dataset_id := next_dataset_id g + 1\<rparr>))"

definition delete_dataset :: "(dataset_row \<Rightarrow> bool) \<Rightarrow> registry \<Rightarrow> registry" where
  "delete_dataset c g = g\<lparr>datasets := filter (\<lambda>r. \<not> c r) (datasets g)\<rparr>"

definition pending_row ::
  "string \<Rightarrow> string \<Rightarrow> string \<Rightarrow> string \<Rightarrow> int \<Rightarrow> string \<Rightarrow> string option \<Rightarrow> int \<Rightarrow> dataset_row" where
  "pending_row name version storage_path path_type size_bytes sha256_checksum source_description i =
     \<lparr>d_id = i, d_name = name, d_version = version, d_storage_path = storage_path, d_path_type = path_type,
      d_size_bytes = size_bytes, d_sha256_checksum = sha256_checksum, d_status = ''pending'',
      d_source_description = source_description\<rparr>"

definition reserve_dataset_row ::
  "string \<Rightarrow> string \<Rightarrow> string \<Rightarrow> string \<Rightarrow> int \<Rightarrow> string \<Rightarrow> string option \<Rightarrow> registry \<Rightarrow> exn + (int \<times> bool) \<times> registry" where
  "reserve_dataset_row name version storage_path path_type size_bytes sha256_checksum source_description g =
     (let reserve = (\<lambda>g. case insert_dataset (pending_row name version storage_path path_type size_bytes
             sha256_checksum source_description) g of Inl e \<Rightarrow> Inl e | Inr (i, g') \<Rightarrow> Inr ((i, False), g'))
      in case dataset_of name version (datasets g) of
        None \<Rightarrow> reserve g
      | Some r \<Rightarrow>
          if d_status r = ''ready'' then Inr ((d_id r, True), g)
          else reserve (delete_dataset (\<lambda>q. d_id q = d_id r) g))"

definition activate_dataset_row :: "int \<Rightarrow> registry \<Rightarrow> registry" where
  "activate_dataset_row i g =
     g\<lparr>datasets := sql_update (\<lambda>r. d_id r = i) (\<lambda>r. r\<lparr>d_status := ''ready''\<rparr>) (datasets g)\<rparr>"

definition delete_dataset_row :: "int \<Rightarrow> registry \<Rightarrow> registry" where
  "delete_dataset_row i = delete_dataset (\<lambda>r. d_id r = i \<and> d_status r = ''pending'')"

section \<open>Models\<close>

definition model_of :: "string \<Rightarrow> string \<Rightarrow> model_row list \<Rightarrow> model_row option" where
  "model_of repo rv rows = find (\<lambda>m. m_hf_repo_id m = repo \<and> m_revision m = rv) rows"

definition set_default_model :: "string \<Rightarrow> int \<Rightarrow> model_row list \<Rightarrow> model_row list" where
  "set_default_model repo i rows =
     sql_update (\<lambda>m. m_id m = i) (\<lambda>m. m\<lparr>m_is_default := True\<rparr>)
       (sql_update (\<lambda>m. m_hf_repo_id m = repo \<and> m_id m \<noteq> i) (\<lambda>m. m\<lparr>m_is_default := False\<rparr>) rows)"

definition register_model ::
  "string \<Rightarrow> string \<Rightarrow> string \<Rightarrow> int option \<Rightarrow> string option \<Rightarrow> bool \<Rightarrow> registry \<Rightarrow> exn + int \<times> registry" where
  "register_model repo rv display n hint set_default g =
     (case model_of repo rv (models g) of
        Some m \<Rightarrow> Inl (ValueError (''Model '' @ repo @ ''@'' @ rv @ '' is already registered (id='' @ str_int (m_id m) @ '').''))
      | None \<Rightarrow>
          let i = next_model_id g;
              rows = models g @ [\<lparr>m_id = i, m_hf_repo_id = repo, m_revision = rv, m_display_name = display,
                m_param_count = n, m_vram_hint = hint, m_status = ''ready'', m_is_default = False\<rparr>]
          in Inr (i, g\<lparr>models := (if set_default then set_default_model repo i rows else rows),
               next_model_id := i + 1\<rparr>))"

section \<open>The constraints\<close>

definition dataset_row_ok :: "dataset_row \<Rightarrow> bool" where
  "dataset_row_ok r \<longleftrightarrow> d_path_type r \<in> {''prefix'', ''object''} \<and> d_status r \<in> {''pending'', ''ready'', ''archived''}"

definition model_row_ok :: "model_row \<Rightarrow> bool" where
  "model_row_ok m \<longleftrightarrow> m_status m \<in> {''ready'', ''archived''}
     \<and> m_vram_hint m \<in> {None, Some ''comfortable'', Some ''tight'', Some ''unsupported''}"

definition one_default :: "model_row list \<Rightarrow> bool" where
  "one_default rows \<longleftrightarrow> (\<forall>m \<in> set rows. \<forall>k \<in> set rows.
     m_is_default m \<and> m_is_default k \<and> m_hf_repo_id m = m_hf_repo_id k \<longrightarrow> m_id m = m_id k)"

definition datasets_ok :: "int \<Rightarrow> dataset_row list \<Rightarrow> bool" where
  "datasets_ok n rows \<longleftrightarrow> distinct (map d_id rows) \<and> distinct (map (\<lambda>r. (d_name r, d_version r)) rows)
     \<and> (\<forall>r \<in> set rows. d_id r < n \<and> dataset_row_ok r)"

definition models_ok :: "int \<Rightarrow> model_row list \<Rightarrow> bool" where
  "models_ok n rows \<longleftrightarrow> distinct (map m_id rows) \<and> distinct (map (\<lambda>m. (m_hf_repo_id m, m_revision m)) rows)
     \<and> (\<forall>m \<in> set rows. m_id m < n \<and> model_row_ok m) \<and> one_default rows"

definition registry_ok :: "registry \<Rightarrow> bool" where
  "registry_ok g \<longleftrightarrow> datasets_ok (next_dataset_id g) (datasets g) \<and> models_ok (next_model_id g) (models g)"

lemma dataset_of_None_iff: "dataset_of n v rows = None \<longleftrightarrow> (n, v) \<notin> set (map (\<lambda>r. (d_name r, d_version r)) rows)"
  by (auto simp: dataset_of_def find_None_iff)

lemma model_of_None_iff: "model_of n v rows = None \<longleftrightarrow> (n, v) \<notin> set (map (\<lambda>m. (m_hf_repo_id m, m_revision m)) rows)"
  by (auto simp: model_of_def find_None_iff)

lemma dataset_of_SomeD: "dataset_of n v rows = Some r \<Longrightarrow> r \<in> set rows \<and> d_name r = n \<and> d_version r = v"
  by (auto simp: dataset_of_def dest: find_SomeD)

subsection \<open>Data sets\<close>

lemma fresh_id: "\<forall>r \<in> set rows. f r < n \<Longrightarrow> (n :: int) \<notin> set (map f rows)"
  by auto

lemma datasets_ok_insert:
  assumes "datasets_ok n rows" and "d_id r = n" and "dataset_row_ok r" and "dataset_of (d_name r) (d_version r) rows = None"
  shows "datasets_ok (n + 1) (rows @ [r])"
proof -
  have "n \<notin> set (map d_id rows)" using assms(1) by (intro fresh_id) (simp add: datasets_ok_def)
  moreover have "(d_name r, d_version r) \<notin> set (map (\<lambda>r. (d_name r, d_version r)) rows)"
    using assms(4) by (simp only: dataset_of_None_iff not_False_eq_True)
  moreover have "\<forall>q \<in> set rows. d_id q < n + 1 \<and> dataset_row_ok q"
    using assms(1) by (auto simp: datasets_ok_def)
  ultimately show ?thesis using assms(1-3) by (simp add: datasets_ok_def del: set_map)
qed

lemma datasets_ok_filter: "datasets_ok n rows \<Longrightarrow> datasets_ok n (filter c rows)"
  unfolding datasets_ok_def by (intro conjI distinct_map_filter) simp_all

lemma datasets_ok_activate:
  assumes "datasets_ok n rows"
  shows "datasets_ok n (sql_update c (\<lambda>r. r\<lparr>d_status := ''ready''\<rparr>) rows)"
proof -
  let ?rows = "sql_update c (\<lambda>r. r\<lparr>d_status := ''ready''\<rparr>) rows"
  have "map d_id ?rows = map d_id rows" "map (\<lambda>r. (d_name r, d_version r)) ?rows = map (\<lambda>r. (d_name r, d_version r)) rows"
    by (simp_all add: sql_update_def)
  moreover have "\<forall>r \<in> set ?rows. d_id r < n \<and> dataset_row_ok r"
    using assms by (auto simp: datasets_ok_def sql_update_def dataset_row_ok_def)
  ultimately show ?thesis using assms by (simp add: datasets_ok_def)
qed

text \<open>A key stands for at most one row, so removing its row frees it.\<close>

lemma dataset_of_deleted:
  assumes "datasets_ok n rows" and "dataset_of name version rows = Some r"
  shows "dataset_of name version (filter (\<lambda>q. d_id q \<noteq> d_id r) rows) = None"
proof -
  have "q = r" if "q \<in> set rows" "d_name q = name \<and> d_version q = version" for q
  proof -
    have "inj_on (\<lambda>r. (d_name r, d_version r)) (set rows)"
      using assms(1) by (simp add: datasets_ok_def distinct_map)
    from inj_onD [OF this, of q r] show ?thesis using dataset_of_SomeD [OF assms(2)] that by simp
  qed
  then have "\<not> (\<exists>q. q \<in> set (filter (\<lambda>q. d_id q \<noteq> d_id r) rows) \<and> d_name q = name \<and> d_version q = version)"
    by auto
  then show ?thesis unfolding dataset_of_def find_None_iff by blast
qed

text \<open>A reservation keeps the invariant, and under it never fails.\<close>

lemma insert_dataset_total:
  assumes "dataset_of (d_name (mk (next_dataset_id g))) (d_version (mk (next_dataset_id g))) (datasets g) = None"
  shows "insert_dataset mk g = Inr (d_id (mk (next_dataset_id g)),
    g\<lparr>datasets := datasets g @ [mk (next_dataset_id g)], next_dataset_id := next_dataset_id g + 1\<rparr>)"
  using assms by (simp add: insert_dataset_def Let_def)

lemma reserve_cases:
  assumes "registry_ok g"
  obtains (ready) r where "dataset_of name version (datasets g) = Some r" "d_status r = ''ready''"
      "reserve_dataset_row name version path path_type n sha src g = Inr ((d_id r, True), g)"
  | (pending) rows where "rows = (case dataset_of name version (datasets g) of None \<Rightarrow> datasets g
        | Some r \<Rightarrow> filter (\<lambda>q. d_id q \<noteq> d_id r) (datasets g))"
      "\<forall>r. dataset_of name version (datasets g) = Some r \<longrightarrow> d_status r \<noteq> ''ready''"
      "dataset_of name version rows = None" "datasets_ok (next_dataset_id g) rows"
      "reserve_dataset_row name version path path_type n sha src g = Inr ((next_dataset_id g, False),
         g\<lparr>datasets := rows @ [pending_row name version path path_type n sha src (next_dataset_id g)],
           next_dataset_id := next_dataset_id g + 1\<rparr>)"
proof (cases "dataset_of name version (datasets g)")
  case None
  then show thesis
    using assms insert_dataset_total [of "pending_row name version path path_type n sha src" g]
    by (intro pending [of "datasets g"]) (simp_all add: reserve_dataset_row_def Let_def registry_ok_def pending_row_def)
next
  case (Some r)
  have ok: "datasets_ok (next_dataset_id g) (datasets g)" using assms by (simp add: registry_ok_def)
  show thesis
  proof (cases "d_status r = ''ready''")
    case True
    with Some show thesis by (intro ready [of r]) (simp_all add: reserve_dataset_row_def Let_def)
  next
    case False
    with Some show thesis
      using dataset_of_deleted [OF ok Some] datasets_ok_filter [OF ok]
        insert_dataset_total [of "pending_row name version path path_type n sha src" "delete_dataset (\<lambda>q. d_id q = d_id r) g"]
      by (intro pending [of "filter (\<lambda>q. d_id q \<noteq> d_id r) (datasets g)"])
        (simp_all add: reserve_dataset_row_def Let_def delete_dataset_def pending_row_def)
  qed
qed

lemma reserve_ok:
  assumes "registry_ok g" and "path_type \<in> {''prefix'', ''object''}"
  obtains x g' where "reserve_dataset_row name version path path_type n sha src g = Inr (x, g')" and "registry_ok g'"
  using assms(1)
proof (cases rule: reserve_cases [of g name version path path_type n sha src])
  case (ready r)
  then show thesis using that assms(1) by blast
next
  case (pending rows)
  have "dataset_row_ok (pending_row name version path path_type n sha src (next_dataset_id g))"
    using assms(2) by (simp add: pending_row_def dataset_row_ok_def)
  from datasets_ok_insert [OF pending(4) _ this] pending(3) assms(1) show thesis
    by (intro that [OF pending(5)]) (simp add: registry_ok_def pending_row_def)
qed

lemma delete_activate_ok:
  assumes "registry_ok g"
  shows "registry_ok (delete_dataset c g)" and "registry_ok (activate_dataset_row i g)" and "registry_ok (delete_dataset_row i g)"
  using assms by (simp_all add: registry_ok_def delete_dataset_row_def delete_dataset_def activate_dataset_row_def
      datasets_ok_filter datasets_ok_activate)

subsection \<open>Models\<close>

lemma models_ok_insert:
  assumes "models_ok n rows" and "m_id m = n" and "model_row_ok m" and "\<not> m_is_default m"
    and "model_of (m_hf_repo_id m) (m_revision m) rows = None"
  shows "models_ok (n + 1) (rows @ [m])"
  unfolding models_ok_def
proof (intro conjI)
  have rows: "\<forall>q \<in> set rows. m_id q < n \<and> model_row_ok q" "one_default rows"
    using assms(1) by (simp_all add: models_ok_def)
  then have "n \<notin> set (map m_id rows)" by (intro fresh_id) simp
  with assms(1,2) show "distinct (map m_id (rows @ [m]))" by (simp add: models_ok_def del: set_map)
  show "distinct (map (\<lambda>m. (m_hf_repo_id m, m_revision m)) (rows @ [m]))"
    using assms(1,5) by (simp add: models_ok_def model_of_None_iff del: set_map)
  show "\<forall>q \<in> set (rows @ [m]). m_id q < n + 1 \<and> model_row_ok q"
    using rows(1) assms(2,3) by auto
  show "one_default (rows @ [m])"
    using rows(2) assms(4) unfolding one_default_def by (metis Un_iff empty_iff insert_iff list.set(1) list.simps(15) set_append)
qed

text \<open>What becomes of one row when another, or it, is made the default.\<close>

definition defaulted :: "string \<Rightarrow> int \<Rightarrow> model_row \<Rightarrow> model_row" where
  "defaulted repo i m = (if m_id m = i then m\<lparr>m_is_default := True\<rparr>
     else if m_hf_repo_id m = repo then m\<lparr>m_is_default := False\<rparr> else m)"

lemma set_default_map: "set_default_model repo i rows = map (defaulted repo i) rows"
  by (simp add: set_default_model_def sql_update_def defaulted_def)

lemma defaulted_fields [simp]:
  "m_id (defaulted repo i m) = m_id m" "m_hf_repo_id (defaulted repo i m) = m_hf_repo_id m"
  "m_revision (defaulted repo i m) = m_revision m" "m_status (defaulted repo i m) = m_status m"
  "m_param_count (defaulted repo i m) = m_param_count m" "m_vram_hint (defaulted repo i m) = m_vram_hint m"
  "model_row_ok (defaulted repo i m) = model_row_ok m"
  "m_is_default (defaulted repo i m) \<longleftrightarrow> m_id m = i \<or> (m_hf_repo_id m \<noteq> repo \<and> m_is_default m)"
  by (simp_all add: defaulted_def model_row_ok_def)

lemma models_ok_default:
  assumes "models_ok n rows" and "\<forall>m \<in> set rows. m_id m = i \<longrightarrow> m_hf_repo_id m = repo"
  shows "models_ok n (set_default_model repo i rows)"
proof -
  have "one_default rows" and rows: "\<forall>m \<in> set rows. m_id m < n \<and> model_row_ok m"
    using assms(1) by (simp_all add: models_ok_def)
  have "one_default (map (defaulted repo i) rows)"
    unfolding one_default_def set_map ball_simps
  proof (intro ballI impI)
    fix m k assume "m \<in> set rows" "k \<in> set rows" "m_is_default (defaulted repo i m) \<and> m_is_default (defaulted repo i k)
      \<and> m_hf_repo_id (defaulted repo i m) = m_hf_repo_id (defaulted repo i k)"
    then show "m_id (defaulted repo i m) = m_id (defaulted repo i k)"
      using assms(2) \<open>one_default rows\<close> unfolding one_default_def defaulted_fields by metis
  qed
  then show ?thesis
    using assms(1) rows by (simp add: models_ok_def set_default_map o_def)
qed

lemma register_model_ok:
  assumes "registry_ok g" and "hint \<in> {None, Some ''comfortable'', Some ''tight'', Some ''unsupported''}"
    and "register_model repo rv display n hint def g = Inr (i, g')"
  shows "registry_ok g'"
proof -
  let ?m = "\<lparr>m_id = next_model_id g, m_hf_repo_id = repo, m_revision = rv, m_display_name = display,
      m_param_count = n, m_vram_hint = hint, m_status = ''ready'', m_is_default = False\<rparr>"
  let ?rows = "models g @ [?m]"
  have none: "model_of repo rv (models g) = None"
    and g': "g' = g\<lparr>models := (if def then set_default_model repo (next_model_id g) ?rows else ?rows), next_model_id := next_model_id g + 1\<rparr>"
    using assms(3) by (auto simp: register_model_def Let_def split: option.splits)
  have ok: "models_ok (next_model_id g) (models g)" "datasets_ok (next_dataset_id g) (datasets g)"
    using assms(1) by (simp_all add: registry_ok_def)
  have ins: "models_ok (next_model_id g + 1) ?rows"
    using models_ok_insert [OF ok(1), of ?m] none assms(2) by (simp add: model_row_ok_def)
  have "\<forall>m \<in> set ?rows. m_id m = next_model_id g \<longrightarrow> m_hf_repo_id m = repo"
    using ok(1) by (auto simp: models_ok_def)
  from models_ok_default [OF ins this] ins ok(2) show ?thesis
    unfolding g' by (simp add: registry_ok_def)
qed

end
