(* ===== verification/Guardrail.thy ===== *)
theory Guardrail imports Py_Exn begin

text \<open>
  \<open>crucible_worker/guardrail.py\<close>, the model-size gate of the worker, and \<open>vram_hint_for\<close> of
  \<open>scripts/register_model.py\<close>, which computes the hint the gate reads. The two files keep
  their thresholds by hand; each has its own copy here.
\<close>

definition COMFORTABLE_MAX_PARAMS :: int where
  "COMFORTABLE_MAX_PARAMS = 8500000000"

definition TIGHT_MAX_PARAMS :: int where
  "TIGHT_MAX_PARAMS = 15000000000"

definition check_model_fits :: "int option \<Rightarrow> string option \<Rightarrow> exn + unit" where
  "check_model_fits param_count vram_hint =
     (if vram_hint = Some ''unsupported'' then
        Inl (OversizedModelError ''model is flagged 'unsupported' for a single 16GB card'')
      else (case param_count of
          None \<Rightarrow> Inr ()
        | Some n \<Rightarrow>
            if TIGHT_MAX_PARAMS < n then
              Inl (OversizedModelError
                (''model has ~'' @ str_grouped n @ '' parameters, exceeding the '' @
                 str_grouped TIGHT_MAX_PARAMS @ '' limit for a single 16GB card under QLoRA''))
            else Inr ()))"

definition register_COMFORTABLE_MAX_PARAMS :: int where
  "register_COMFORTABLE_MAX_PARAMS = 8500000000"

definition register_TIGHT_MAX_PARAMS :: int where
  "register_TIGHT_MAX_PARAMS = 15000000000"

definition vram_hint_for :: "int option \<Rightarrow> string option" where
  "vram_hint_for param_count = (case param_count of
     None \<Rightarrow> None
   | Some n \<Rightarrow>
       if n \<le> register_COMFORTABLE_MAX_PARAMS then Some ''comfortable''
       else if n \<le> register_TIGHT_MAX_PARAMS then Some ''tight''
       else Some ''unsupported'')"

lemma check_model_fits_error:
  "check_model_fits n h = Inl e \<Longrightarrow> \<exists>m. e = OversizedModelError m"
  by (auto simp: check_model_fits_def split: if_splits option.splits)

lemma check_model_fits_ok_iff:
  "check_model_fits n h = Inr () \<longleftrightarrow>
     h \<noteq> Some ''unsupported'' \<and> (case n of None \<Rightarrow> True | Some k \<Rightarrow> k \<le> TIGHT_MAX_PARAMS)"
  by (auto simp: check_model_fits_def split: option.splits)

end
