(* ===== verification/World.thy ===== *)
theory World imports Backend Status Fs Registry_Db Guardrail begin

text \<open>
  The world a worker process runs in, and what one call to an outside service is.

  \<^item> \<open>shared\<close>: Postgres, Redis, the object store and the clock, seen by everybody.
  \<^item> \<open>op\<close>: one atomic step on the shared state by somebody else: time passing, a statement or a
    pipeline of another worker or of a reconciler, a step of the backend.
  \<^item> \<open>slot\<close>: what happens around one call of this process: the steps others make before it, a
    signal to this process, and whether the call fails. A failing call raises without effect
    (\<open>Fails\<close>) or after the server carried it out (\<open>FailsAfter\<close>, a lost reply); \<open>Dies\<close> kills the
    process at the call.
  \<^item> \<open>world\<close>: the shared state, the slots still to come (after the last one nothing interferes
    and nothing fails), the local disk and the process's stop event.

  A theorem for every world therefore holds for every interleaving with other workers,
  reconcilers and the backend, at the grain of single statements, and for every pattern of
  failures. All services share one clock.
\<close>

record shared =
  jobs :: "job_row list"
  reg :: registry
  rd :: redis
  objects :: object_store
  clock :: int

datatype op =
    Tick nat
  | MarkRunning uuid
  | Heartbeat uuid
  | MarkCompleted uuid string
  | MarkFailed uuid string
  | ResetToQueued uuid
  | Publish string string bool
  | Claim
  | Ack string
  | Requeue string
  | BackendCreate uuid string string json
  | BackendEnqueue uuid
  | BackendDequeue uuid
  | BackendCancel uuid
  | BackendEnqueueFailed uuid string
  | PutObject string string string
  | RegReserve string string string bool int string "string option"
  | RegActivate int
  | RegDelete int
  | RegModel string string string "int option" bool

definition on_jobs :: "(int \<Rightarrow> job_row list \<Rightarrow> job_row list) \<Rightarrow> shared \<Rightarrow> shared" where
  "on_jobs f s = s\<lparr>jobs := f (clock s) (jobs s)\<rparr>"

definition on_redis :: "(int \<Rightarrow> redis \<Rightarrow> redis) \<Rightarrow> shared \<Rightarrow> shared" where
  "on_redis f s = s\<lparr>rd := f (clock s) (rd s)\<rparr>"

text \<open>
  The registry transactions, with the arguments the scripts can give them: a path type is one of
  two, a hint is computed from the parameter count.
\<close>

definition path_type_text :: "bool \<Rightarrow> string" where
  "path_type_text is_object = (if is_object then ''object'' else ''prefix'')"

definition reg_reserve :: "string \<Rightarrow> string \<Rightarrow> string \<Rightarrow> bool \<Rightarrow> int \<Rightarrow> string \<Rightarrow> string option \<Rightarrow> registry \<Rightarrow> (exn + int \<times> bool) \<times> registry" where
  "reg_reserve name version path ob n sha src g =
     (case reserve_dataset_row name version path (path_type_text ob) n sha src g of
        Inl e \<Rightarrow> (Inl e, g) | Inr (x, g') \<Rightarrow> (Inr x, g'))"

definition reg_model :: "string \<Rightarrow> string \<Rightarrow> string \<Rightarrow> int option \<Rightarrow> bool \<Rightarrow> registry \<Rightarrow> (exn + int) \<times> registry" where
  "reg_model repo rv display n def g =
     (case register_model repo rv display n (vram_hint_for n) def g of
        Inl e \<Rightarrow> (Inl e, g) | Inr (i, g') \<Rightarrow> (Inr i, g'))"

definition on_reg :: "(registry \<Rightarrow> registry) \<Rightarrow> shared \<Rightarrow> shared" where
  "on_reg f s = s\<lparr>reg := f (reg s)\<rparr>"

fun do_op :: "services \<Rightarrow> op \<Rightarrow> shared \<Rightarrow> shared" where
  "do_op R (Tick n) s = s\<lparr>clock := clock s + int n\<rparr>"
| "do_op R (MarkRunning i) s = on_jobs (\<lambda>t. db_mark_running t i) s"
| "do_op R (Heartbeat i) s = on_jobs (\<lambda>t. db_heartbeat t i) s"
| "do_op R (MarkCompleted i p) s = on_jobs (\<lambda>t. db_mark_completed t i p) s"
| "do_op R (MarkFailed i m) s = on_jobs (\<lambda>t. db_mark_failed t i m) s"
| "do_op R (ResetToQueued i) s = on_jobs (\<lambda>t. db_reset_to_queued t i) s"
| "do_op R (Publish jid st fin) s = on_redis (\<lambda>t. status_publish R t jid st fin) s"
| "do_op R Claim s = on_redis (\<lambda>t r. snd (queue_claim R r)) s"
| "do_op R (Ack jid) s = on_redis (\<lambda>t. queue_ack R jid) s"
| "do_op R (Requeue jid) s = on_redis (\<lambda>t. queue_requeue R jid) s"
| "do_op R (BackendCreate i m p hp) s = on_jobs (\<lambda>t. store_create t i m p hp) s"
| "do_op R (BackendEnqueue i) s = on_redis (\<lambda>t. queue_enqueue R (uuid_str i)) s"
| "do_op R (BackendDequeue i) s = on_redis (\<lambda>t. queue_dequeue R (uuid_str i)) s"
| "do_op R (BackendCancel i) s = on_jobs (\<lambda>t. backend_cancel t i) s"
| "do_op R (BackendEnqueueFailed i m) s = on_jobs (\<lambda>t. backend_enqueue_failed t i m) s"
| "do_op R (PutObject b k v) s = s\<lparr>objects := s3_put (s3 R) b k v (objects s)\<rparr>"
| "do_op R (RegReserve name version path ob n sha src) s = on_reg (\<lambda>g. snd (reg_reserve name version path ob n sha src g)) s"
| "do_op R (RegActivate i) s = on_reg (activate_dataset_row i) s"
| "do_op R (RegDelete i) s = on_reg (delete_dataset_row i) s"
| "do_op R (RegModel repo rv display n def) s = on_reg (\<lambda>g. snd (reg_model repo rv display n def g)) s"

definition do_ops :: "services \<Rightarrow> op list \<Rightarrow> shared \<Rightarrow> shared" where
  "do_ops R xs s = fold (do_op R) xs s"

datatype fault = NoFault | Fails string | FailsAfter string | Dies

record slot =
  others :: "op list"
  signalled :: bool
  fault :: fault

definition quiet_slot :: slot where
  "quiet_slot = \<lparr>others = [], signalled = False, fault = NoFault\<rparr>"

record world =
  sh :: shared
  sched :: "slot list"
  disk :: disk
  stop :: bool

definition next_slot :: "world \<Rightarrow> slot" where
  "next_slot w = (case sched w of [] \<Rightarrow> quiet_slot | sl # _ \<Rightarrow> sl)"

text \<open>The world once the next slot's interference has happened.\<close>

definition interfere :: "services \<Rightarrow> world \<Rightarrow> world" where
  "interfere R w = w\<lparr>sched := tl (sched w), sh := do_ops R (others (next_slot w)) (sh w),
     stop := stop w \<or> signalled (next_slot w)\<rparr>"

text \<open>
  One call: \<open>f\<close> is what the service does and returns, \<open>mk\<close> the class of exception its client
  library raises.
\<close>

definition call :: "services \<Rightarrow> (string \<Rightarrow> exn) \<Rightarrow> (shared \<Rightarrow> 'a \<times> shared) \<Rightarrow> (world, exn, 'a) prog" where
  "call R mk f w =
     (let w1 = interfere R w in
      case fault (next_slot w) of
        NoFault \<Rightarrow> (Inr (fst (f (sh w1))), w1\<lparr>sh := snd (f (sh w1))\<rparr>)
      | Fails m \<Rightarrow> (Inl (mk m), w1)
      | FailsAfter m \<Rightarrow> (Inl (mk m), w1\<lparr>sh := snd (f (sh w1))\<rparr>)
      | Dies \<Rightarrow> (Inl Killed, w1))"

definition perform :: "services \<Rightarrow> op \<Rightarrow> (world, exn, unit) prog" where
  "perform R x = call R DriverError (\<lambda>s. ((), do_op R x s))"

definition query :: "services \<Rightarrow> (shared \<Rightarrow> 'a) \<Rightarrow> (world, exn, 'a) prog" where
  "query R f = call R DriverError (\<lambda>s. (f s, s))"

lemma do_ops_simps [simp]:
  "do_ops R [] s = s" "do_ops R (x # xs) s = do_ops R xs (do_op R x s)"
  by (simp_all add: do_ops_def)

lemma do_ops_append: "do_ops R (xs @ ys) s = do_ops R ys (do_ops R xs s)"
  by (simp add: do_ops_def)

lemma quiet_slot_simps [simp]:
  "others quiet_slot = []" "signalled quiet_slot = False" "fault quiet_slot = NoFault"
  by (simp_all add: quiet_slot_def)

lemma on_jobs_simps [simp]:
  "jobs (on_jobs f s) = f (clock s) (jobs s)" "reg (on_jobs f s) = reg s" "rd (on_jobs f s) = rd s"
  "objects (on_jobs f s) = objects s" "clock (on_jobs f s) = clock s"
  by (simp_all add: on_jobs_def)

lemma on_redis_simps [simp]:
  "jobs (on_redis f s) = jobs s" "reg (on_redis f s) = reg s" "rd (on_redis f s) = f (clock s) (rd s)"
  "objects (on_redis f s) = objects s" "clock (on_redis f s) = clock s"
  by (simp_all add: on_redis_def)

lemma on_reg_simps [simp]:
  "jobs (on_reg f s) = jobs s" "reg (on_reg f s) = f (reg s)" "rd (on_reg f s) = rd s"
  "objects (on_reg f s) = objects s" "clock (on_reg f s) = clock s"
  by (simp_all add: on_reg_def)

text \<open>Without interference a call is its function.\<close>

lemma call_quiet: "sched w = [] \<Longrightarrow> call R mk f w = (Inr (fst (f (sh w))), w\<lparr>sh := snd (f (sh w))\<rparr>)"
  by (simp add: call_def interfere_def next_slot_def Let_def)

lemma perform_quiet: "sched w = [] \<Longrightarrow> perform R x w = (Inr (), w\<lparr>sh := do_op R x (sh w)\<rparr>)"
  by (simp add: perform_def call_quiet)

lemma query_quiet: "sched w = [] \<Longrightarrow> query R f w = (Inr (f (sh w)), w)"
  by (simp add: query_def call_quiet)

text \<open>\<open>after R xs w\<close>: the steps \<open>xs\<close> made, nothing else.\<close>

definition after :: "services \<Rightarrow> op list \<Rightarrow> world \<Rightarrow> world" where
  "after R xs w = w\<lparr>sh := do_ops R xs (sh w)\<rparr>"

lemma after_simps [simp]:
  "sched (after R xs w) = sched w" "sh (after R xs w) = do_ops R xs (sh w)"
  "after R [] w = w" "after R ys (after R xs w) = after R (xs @ ys) w"
  by (simp_all add: after_def do_ops_def)

lemma quiet_perform: "sched w = [] \<Longrightarrow> perform R x w = (Inr (), after R [x] w)"
  by (simp add: perform_quiet after_def)

lemma quiet_seq: "sched w = [] \<Longrightarrow> seq (perform R x) m w = m (after R [x] w)"
  by (simp add: seq_Inr [OF quiet_perform])

lemma quiet_query: "sched w = [] \<Longrightarrow> bind (query R f) g w = g (f (sh w)) w"
  by (simp add: bind_Inr [OF query_quiet])

lemma seq_lift: "seq (lift_sum r) m w = (case r of Inl e \<Rightarrow> (Inl e, w) | Inr _ \<Rightarrow> m w)"
  by (simp add: seq_def bind_def lift_sum_apply split: sum.split)

lemmas quiet_rules = quiet_perform quiet_seq quiet_query seq_lift

section \<open>Worlds without failures\<close>

text \<open>
  In a calm world no call of this process fails any more; others may still interfere.
  \<open>raises_only P m\<close>: from a calm world, \<open>m\<close> stays in calm worlds and raises only exceptions
  that satisfy \<open>P\<close>.
\<close>

definition calm :: "world \<Rightarrow> bool" where
  "calm w \<longleftrightarrow> (\<forall>sl \<in> set (sched w). fault sl = NoFault)"

definition raises_only :: "(exn \<Rightarrow> bool) \<Rightarrow> (world, exn, 'a) prog \<Rightarrow> bool" where
  "raises_only P m \<longleftrightarrow> (\<forall>w. calm w \<longrightarrow> calm (snd (m w)) \<and> (\<forall>e. fst (m w) = Inl e \<longrightarrow> P e))"

lemma calm_quiet: "sched w = [] \<Longrightarrow> calm w"
  by (simp add: calm_def)

lemma calm_interfere: "calm w \<Longrightarrow> calm (interfere R w)"
  by (cases "sched w") (auto simp: calm_def interfere_def)

lemma calm_next_slot: "calm w \<Longrightarrow> fault (next_slot w) = NoFault"
  by (cases "sched w") (auto simp: calm_def next_slot_def)

lemma ro_call: "raises_only P (call R mk f)"
  using calm_interfere [of _ R]
  by (auto simp: raises_only_def call_def Let_def calm_next_slot) (auto simp: calm_def)

lemma ro_perform: "raises_only P (perform R x)"
  unfolding perform_def by (rule ro_call)

lemma ro_query: "raises_only P (query R f)"
  unfolding query_def by (rule ro_call)

lemma ro_ret: "raises_only P (ret x)"
  by (simp add: raises_only_def ret_def)

lemma ro_raise: "P e \<Longrightarrow> raises_only P (raise e)"
  by (simp add: raises_only_def raise_def)

lemma ro_lift: "(\<And>e. r = Inl e \<Longrightarrow> P e) \<Longrightarrow> raises_only P (lift_sum r)"
  by (simp add: raises_only_def lift_sum_def)

lemma ro_bind: "raises_only P m \<Longrightarrow> (\<And>x. raises_only P (f x)) \<Longrightarrow> raises_only P (bind m f)"
  by (fastforce simp: raises_only_def bind_def split: prod.splits sum.splits)

lemma ro_seq: "raises_only P m \<Longrightarrow> raises_only P n \<Longrightarrow> raises_only P (seq m n)"
  unfolding seq_def by (rule ro_bind)

lemma ro_option:
  "raises_only P m \<Longrightarrow> (\<And>x. raises_only P (f x)) \<Longrightarrow> raises_only P (case v of None \<Rightarrow> m | Some x \<Rightarrow> f x)"
  by (cases v) simp_all

lemma ro_if: "(b \<Longrightarrow> raises_only P m) \<Longrightarrow> (\<not> b \<Longrightarrow> raises_only P n) \<Longrightarrow> raises_only P (if b then m else n)"
  by simp

lemma ro_weaken: "raises_only P m \<Longrightarrow> (\<And>e. P e \<Longrightarrow> Q e) \<Longrightarrow> raises_only Q m"
  by (auto simp: raises_only_def)

lemma ro_try_else:
  assumes "raises_only Q m" and "\<And>e. Q e \<Longrightarrow> h e = None \<Longrightarrow> P e"
    and "\<And>e p. h e = Some p \<Longrightarrow> raises_only P p" and "raises_only P n"
  shows "raises_only P (try_else m h n)"
  unfolding raises_only_def
proof (intro allI impI)
  fix w assume w: "calm w"
  obtain r w' where m: "m w = (r, w')" by (cases "m w")
  with assms(1) w have "calm w'" "\<forall>e. r = Inl e \<longrightarrow> Q e"
    by (auto simp: raises_only_def)
  with m assms(2-4) show "calm (snd (try_else m h n w)) \<and> (\<forall>e. fst (try_else m h n w) = Inl e \<longrightarrow> P e)"
    by (cases r) (fastforce simp: try_else_def raises_only_def split: option.splits)+
qed

lemma ro_for_each: "(\<And>x. raises_only P (f x)) \<Longrightarrow> raises_only P (for_each f xs)"
  by (induction xs) (simp_all add: ro_ret ro_seq)

lemmas ro_rules = ro_perform ro_query ro_ret ro_bind ro_seq ro_option ro_if ro_for_each

section \<open>Relations every step keeps\<close>

text \<open>
  A guarantee is a preorder on the shared state that every step of \<open>op\<close> respects. Any program
  built from calls that make such steps then respects it, whatever the slots hold.
\<close>

locale guarantee =
  fixes R :: services and G :: "shared \<Rightarrow> shared \<Rightarrow> bool"
  assumes G_refl: "G s s"
    and G_trans: "G s t \<Longrightarrow> G t u \<Longrightarrow> G s u"
    and G_op: "G s (do_op R x s)"

sublocale guarantee \<subseteq> state_preorder "\<lambda>v w. G (sh v) (sh w)"
  by unfold_locales (auto intro: G_refl G_trans)

context guarantee begin

lemmas prog_rules = resp_rules

lemma G_ops: "G s (do_ops R xs s)"
  by (induction xs arbitrary: s) (auto intro: G_refl G_trans G_op)

lemma G_interfere: "G (sh w) (sh (interfere R w))"
  by (simp add: interfere_def G_ops)

lemma resp_call:
  assumes "\<And>s. G s (snd (f s))"
  shows "keeps (\<lambda>v w. G (sh v) (sh w)) (call R mk f)"
proof (rule keepsI)
  fix w
  have "G (sh w) (snd (f (sh (interfere R w))))"
    by (rule G_trans [OF G_interfere assms])
  then show "G (sh w) (sh (snd (call R mk f w)))"
    using G_interfere [of w] by (simp add: call_def Let_def split: fault.splits)
qed

lemma resp_perform: "keeps (\<lambda>v w. G (sh v) (sh w)) (perform R x)"
  unfolding perform_def by (rule resp_call) (simp add: G_op)

lemma resp_query: "keeps (\<lambda>v w. G (sh v) (sh w)) (query R f)"
  unfolding query_def by (rule resp_call) (simp add: G_refl)

end

section \<open>The schedule is consumed in order\<close>

text \<open>
  Whatever a program does, it uses up slots from the front of the schedule and sets the stop
  event exactly when one of them signals the process. So a signal still to come is not lost:
  \<open>stop_pending\<close> survives every program.
\<close>

definition progress :: "world \<Rightarrow> world \<Rightarrow> bool" where
  "progress v w \<longleftrightarrow> (\<exists>n. sched w = drop n (sched v)
     \<and> (stop w \<longleftrightarrow> stop v \<or> (\<exists>sl \<in> set (take n (sched v)). signalled sl)))"

definition stop_pending :: "world \<Rightarrow> bool" where
  "stop_pending w \<longleftrightarrow> stop w \<or> (\<exists>sl \<in> set (sched w). signalled sl)"

lemma progress_refl: "progress w w"
  unfolding progress_def by (rule exI [of _ 0]) simp

lemma progress_trans: "progress u v \<Longrightarrow> progress v w \<Longrightarrow> progress u w"
proof -
  assume "progress u v" and "progress v w"
  then obtain m n where "sched v = drop m (sched u)"
      "stop v \<longleftrightarrow> stop u \<or> (\<exists>sl \<in> set (take m (sched u)). signalled sl)"
      "sched w = drop n (sched v)"
      "stop w \<longleftrightarrow> stop v \<or> (\<exists>sl \<in> set (take n (sched v)). signalled sl)"
    unfolding progress_def by blast
  then show ?thesis
    unfolding progress_def by (intro exI [of _ "m + n"]) (auto simp: take_add add.commute)
qed

interpretation progress: state_preorder progress
  by unfold_locales (auto intro: progress_refl progress_trans)

lemma progress_same: "sched w = sched v \<Longrightarrow> stop w = stop v \<Longrightarrow> progress v w"
  unfolding progress_def by (rule exI [of _ 0]) simp

lemma progress_interfere: "progress w (interfere R w)"
  unfolding progress_def
  by (rule exI [of _ 1]) (cases "sched w"; simp add: interfere_def next_slot_def)

lemma progress_call: "keeps progress (call R mk f)"
proof (rule keepsI)
  fix w
  have "sched (snd (call R mk f w)) = sched (interfere R w) \<and> stop (snd (call R mk f w)) = stop (interfere R w)"
    by (simp add: call_def Let_def split: fault.splits)
  then show "progress w (snd (call R mk f w))"
    using progress_interfere [of w R] by (simp add: progress_def)
qed

lemma progress_perform: "keeps progress (perform R x)"
  unfolding perform_def by (rule progress_call)

lemma progress_query: "keeps progress (query R f)"
  unfolding query_def by (rule progress_call)

lemmas progress_rules = progress.resp_rules progress_perform progress_query

lemma progress_length: "progress v w \<Longrightarrow> length (sched w) \<le> length (sched v)"
  by (auto simp: progress_def)

lemma bind_consumes:
  assumes "\<And>x. keeps progress (f x)"
  shows "length (sched (snd (bind m f w))) \<le> length (sched (snd (m w)))"
proof -
  obtain r w' where m: "m w = (r, w')" by (cases "m w")
  show ?thesis
    using progress_length [OF keepsD [OF assms]] m by (cases r) (simp_all add: bind_def)
qed

lemma progress_stop_pending:
  assumes "progress v w" and "stop_pending v"
  shows "stop_pending w"
proof -
  from assms(1) obtain n where n: "sched w = drop n (sched v)"
      "stop w \<longleftrightarrow> stop v \<or> (\<exists>sl \<in> set (take n (sched v)). signalled sl)"
    by (auto simp: progress_def)
  have "set (sched v) = set (take n (sched v)) \<union> set (drop n (sched v))"
    by (metis append_take_drop_id set_append)
  with n assms(2) show ?thesis by (auto simp: stop_pending_def)
qed

lemma call_consumes: "length (sched (snd (call R mk f w))) = length (sched w) - 1"
  by (simp add: call_def Let_def interfere_def split: fault.splits)

text \<open>The job table only moves along the life cycles of its jobs, and time only forwards.\<close>

definition jobs_advance :: "shared \<Rightarrow> shared \<Rightarrow> bool" where
  "jobs_advance s t \<longleftrightarrow> table_life (jobs s) (jobs t) \<and> clock s \<le> clock t"

lemma jobs_advance_op: "jobs_advance s (do_op R x s)"
  by (cases x) (simp_all add: jobs_advance_def table_life_db_updates table_life_create
      table_life_cancel table_life_enqueue_failed)

interpretation advance: guarantee R jobs_advance for R
proof (unfold_locales, goal_cases)
  case (2 s t u)
  then show ?case by (auto simp: jobs_advance_def intro: table_life_trans)
qed (simp_all add: jobs_advance_op, simp add: jobs_advance_def)

text \<open>Well-formed tables stay well-formed.\<close>

definition rows_wf :: "int \<Rightarrow> job_row list \<Rightarrow> bool" where
  "rows_wf now rows \<longleftrightarrow> distinct (map r_id rows) \<and> (\<forall>r \<in> set rows. row_wf r
     \<and> r_created_at r \<le> r_updated_at r \<and> r_updated_at r \<le> now)"

definition jobs_wf :: "shared \<Rightarrow> bool" where
  "jobs_wf s \<longleftrightarrow> rows_wf (clock s) (jobs s)"

definition keeps_wf :: "shared \<Rightarrow> shared \<Rightarrow> bool" where
  "keeps_wf s t \<longleftrightarrow> (jobs_wf s \<longrightarrow> jobs_wf t)"

lemma rows_wf_later: "rows_wf t rows \<Longrightarrow> t \<le> t' \<Longrightarrow> rows_wf t' rows"
  by (force simp: rows_wf_def)

lemma rows_wf_sql_update:
  assumes "rows_wf now rows"
    and "\<And>r. r_id (f r) = r_id r" and "\<And>r. r_created_at (f r) = r_created_at r"
    and "\<And>r. r_updated_at (f r) = now"
    and "\<And>r. r \<in> set rows \<Longrightarrow> c r \<Longrightarrow> row_wf r \<Longrightarrow> row_wf (f r)"
  shows "rows_wf now (sql_update c f rows)"
proof -
  have "distinct (map r_id (sql_update c f rows))"
    using assms(1,2) by (simp add: rows_wf_def)
  moreover have "row_wf r' \<and> r_created_at r' \<le> r_updated_at r' \<and> r_updated_at r' \<le> now"
    if "r' \<in> set (sql_update c f rows)" for r'
  proof -
    from that obtain r where r: "r \<in> set rows" "r' = (if c r then f r else r)"
      by (auto simp: sql_update_def)
    with assms(1) have "row_wf r" "r_created_at r \<le> r_updated_at r" "r_updated_at r \<le> now"
      by (auto simp: rows_wf_def)
    with r assms(3-5) show ?thesis by force
  qed
  ultimately show ?thesis by (simp add: rows_wf_def)
qed

lemma rows_wf_db_updates:
  assumes "rows_wf now rows"
  shows "rows_wf now (db_mark_running now i rows)" "rows_wf now (db_heartbeat now i rows)"
    "rows_wf now (db_mark_completed now i path rows)" "rows_wf now (db_mark_failed now i msg rows)"
    "rows_wf now (db_reset_to_queued now i rows)"
  unfolding db_update_defs by (rule rows_wf_sql_update [OF assms]; simp add: row_wf_def)+

lemma rows_wf_store_update:
  assumes wf: "rows_wf now rows"
    and ok: "(to = CANCELLED \<and> err = None) \<or> (to = FAILED \<and> err \<noteq> None)"
  shows "rows_wf now (after_update rows (store_update now i to None err rows))"
proof (cases "store_update now i to None err rows")
  case (Inr rows')
  then obtain r where r: "job_at i rows = Some r" "validate_transition (r_status r) to = None"
    and rows': "rows' = sql_update (\<lambda>q. r_id q = i)
         (\<lambda>q. q\<lparr>r_status := to, r_checkpoint_path := coalesce None (r_checkpoint_path q),
              r_error_message := coalesce err (r_error_message q), r_updated_at := now\<rparr>) rows"
    by (rule store_update_InrE)
  have "q = r" if "q \<in> set rows" "r_id q = i" for q
    using job_at_distinct [of rows q] that wf r by (simp add: rows_wf_def)
  with r(2) ok have "rows_wf now rows'"
    unfolding rows' by (intro rows_wf_sql_update [OF wf])
      (auto simp: row_wf_def coalesce_def validate_transition_None_iff)
  with Inr show ?thesis by (simp add: after_update_def)
qed (use wf in \<open>simp add: after_update_def\<close>)

lemma rows_wf_create: "rows_wf now rows \<Longrightarrow> rows_wf now (store_create now i m p hp rows)"
  by (auto simp: rows_wf_def store_create_def row_wf_def)

lemma jobs_wf_op: "jobs_wf s \<Longrightarrow> jobs_wf (do_op R x s)"
  by (cases x) (simp_all add: jobs_wf_def rows_wf_db_updates rows_wf_create rows_wf_later
      rows_wf_store_update backend_cancel_def backend_enqueue_failed_def)

interpretation wf: guarantee R keeps_wf for R
  by unfold_locales (auto simp: keeps_wf_def jobs_wf_op)

text \<open>The registry tables keep the constraints of the migrations.\<close>

definition keeps_registry :: "shared \<Rightarrow> shared \<Rightarrow> bool" where
  "keeps_registry s t \<longleftrightarrow> (registry_ok (reg s) \<longrightarrow> registry_ok (reg t))"

lemma reg_reserve_ok:
  assumes "registry_ok g"
  shows "registry_ok (snd (reg_reserve name version path ob n sha src g))"
proof -
  have "path_type_text ob \<in> {''prefix'', ''object''}" by (simp add: path_type_text_def)
  from reserve_ok [OF assms this] show ?thesis
    unfolding reg_reserve_def by (metis (no_types, lifting) case_prod_conv old.sum.simps(6) snd_conv)
qed

lemma vram_hint_for_range: "vram_hint_for n \<in> {None, Some ''comfortable'', Some ''tight'', Some ''unsupported''}"
  by (simp add: vram_hint_for_def split: option.split)

lemma reg_model_ok: "registry_ok g \<Longrightarrow> registry_ok (snd (reg_model repo rv display n def g))"
  using register_model_ok [OF _ vram_hint_for_range, of g repo rv display n n def]
  by (auto simp: reg_model_def split: sum.split)

lemma registry_ok_op: "registry_ok (reg s) \<Longrightarrow> registry_ok (reg (do_op R x s))"
  by (cases x) (simp_all add: reg_reserve_ok reg_model_ok delete_activate_ok)

interpretation reg: guarantee R keeps_registry for R
  by unfold_locales (auto simp: keeps_registry_def registry_ok_op)

end
