(* ===== verification/Host.thy ===== *)
theory Host imports World begin

text \<open>
  Programs that work on the local disk: single operations, and the block of a
  \<open>tempfile.TemporaryDirectory\<close>. The name the operating system gives a temporary directory is
  a parameter (a function of the requested prefix and the disk); the block removes the
  directory on every exit, except when the process is killed.
\<close>

definition local_op :: "(disk \<Rightarrow> exn + disk) \<Rightarrow> (world, exn, unit) prog" where
  "local_op f w = (case f (disk w) of Inl e \<Rightarrow> (Inl e, w) | Inr d \<Rightarrow> (Inr (), w\<lparr>disk := d\<rparr>))"

definition local_read :: "(disk \<Rightarrow> exn + 'a) \<Rightarrow> (world, exn, 'a) prog" where
  "local_read f w = (f (disk w), w)"

type_synonym tmp_namer = "string \<Rightarrow> disk \<Rightarrow> path"

definition process_gone :: "exn + 'a \<Rightarrow> bool" where
  "process_gone r \<longleftrightarrow> (case r of Inl Killed \<Rightarrow> True | Inl Blocked \<Rightarrow> True | _ \<Rightarrow> False)"

definition with_tmp :: "tmp_namer \<Rightarrow> string \<Rightarrow> (path \<Rightarrow> (world, exn, 'a) prog) \<Rightarrow> (world, exn, 'a) prog" where
  "with_tmp tmp pre body w =
     (let p = tmp pre (disk w);
          (r, w') = body p (w\<lparr>disk := set_node p Dir (disk w)\<rparr>)
      in (r, if process_gone r then w' else w'\<lparr>disk := remove_tree p (disk w')\<rparr>))"

text \<open>What \<open>mkdtemp\<close> documents: a new directory, directly in the directory for temporary files.\<close>

definition fresh_tmp :: "path \<Rightarrow> tmp_namer \<Rightarrow> bool" where
  "fresh_tmp root tmp \<longleftrightarrow> (\<forall>pre d. \<exists>x. tmp pre d = root @ [x] \<and> x \<noteq> dotdot
     \<and> (\<forall>q. prefix (root @ [x]) q \<longrightarrow> map_of d q = None))"

section \<open>Rules\<close>

lemma local_op_apply: "f (disk w) = Inr d \<Longrightarrow> local_op f w = (Inr (), w\<lparr>disk := d\<rparr>)"
  by (simp add: local_op_def)

lemma local_op_raise: "f (disk w) = Inl e \<Longrightarrow> local_op f w = (Inl e, w)"
  by (simp add: local_op_def)

text \<open>A relation on the world that does not look at the disk does not see local work.\<close>

definition ignores_disk :: "(world \<Rightarrow> world \<Rightarrow> bool) \<Rightarrow> bool" where
  "ignores_disk P \<longleftrightarrow> (\<forall>v w d d'. P (v\<lparr>disk := d\<rparr>) (w\<lparr>disk := d'\<rparr>) = P v w)"

lemma ignores_disk_shared: "ignores_disk (\<lambda>v w. G (sh v) (sh w))"
  by (simp add: ignores_disk_def)

lemma ignores_disk_progress: "ignores_disk progress"
  by (simp add: ignores_disk_def progress_def)

lemma ignores_diskD:
  fixes v w :: world
  shows "ignores_disk P \<Longrightarrow> P v (w\<lparr>disk := d\<rparr>) = P v w"
    and "ignores_disk P \<Longrightarrow> P (v\<lparr>disk := d\<rparr>) w = P v w"
proof -
  assume P: "ignores_disk P"
  have "P (v\<lparr>disk := disk v\<rparr>) (w\<lparr>disk := d\<rparr>) = P v w" "P (v\<lparr>disk := d\<rparr>) (w\<lparr>disk := disk w\<rparr>) = P v w"
    using P unfolding ignores_disk_def by blast+
  then show "P v (w\<lparr>disk := d\<rparr>) = P v w" "P (v\<lparr>disk := d\<rparr>) w = P v w"
    by simp_all
qed

lemma keeps_local_op: "ignores_disk P \<Longrightarrow> (\<And>w. P w w) \<Longrightarrow> keeps P (local_op f)"
  by (auto simp: keeps_def local_op_def ignores_diskD split: sum.split)

lemma keeps_local_read: "(\<And>w. P w w) \<Longrightarrow> keeps P (local_read f)"
  by (auto simp: keeps_def local_read_def)

lemma keeps_with_tmp:
  assumes "ignores_disk P" and "\<And>p. keeps P (body p)"
  shows "keeps P (with_tmp tmp pre body)"
proof (rule keepsI)
  fix w :: world
  let ?p = "tmp pre (disk w)"
  have "P w (snd (body ?p (w\<lparr>disk := set_node ?p Dir (disk w)\<rparr>)))"
    using keepsD [OF assms(2), of "w\<lparr>disk := set_node ?p Dir (disk w)\<rparr>" ?p] ignores_diskD(2) [OF assms(1)]
    by simp
  then show "P w (snd (with_tmp tmp pre body w))"
    using ignores_diskD(1) [OF assms(1)]
    by (auto simp: with_tmp_def Let_def split: prod.split)
qed

lemma calm_disk [simp]: "calm (w\<lparr>disk := d\<rparr>) = calm w"
  by (simp add: calm_def)

lemma ro_local_op: "(\<And>d e. f d = Inl e \<Longrightarrow> P e) \<Longrightarrow> raises_only P (local_op f)"
  by (auto simp: raises_only_def local_op_def split: sum.splits)

lemma ro_local_read: "(\<And>d e. f d = Inl e \<Longrightarrow> P e) \<Longrightarrow> raises_only P (local_read f)"
  by (auto simp: raises_only_def local_read_def split: sum.splits)

lemma ro_with_tmp:
  assumes "\<And>p. raises_only P (body p)"
  shows "raises_only P (with_tmp tmp pre body)"
  unfolding raises_only_def
proof (intro allI impI)
  fix w assume w: "calm w"
  let ?p = "tmp pre (disk w)"
  have "calm (snd (body ?p (w\<lparr>disk := set_node ?p Dir (disk w)\<rparr>)))
      \<and> (\<forall>e. fst (body ?p (w\<lparr>disk := set_node ?p Dir (disk w)\<rparr>)) = Inl e \<longrightarrow> P e)"
    using assms [of ?p] w unfolding raises_only_def by (metis calm_disk)
  then show "calm (snd (with_tmp tmp pre body w)) \<and> (\<forall>e. fst (with_tmp tmp pre body w) = Inl e \<longrightarrow> P e)"
    by (auto simp: with_tmp_def Let_def split: prod.splits)
qed

lemma ro_try:
  assumes "raises_only Q m" and "\<And>e. Q e \<Longrightarrow> \<not> sel e \<Longrightarrow> P e" and "\<And>e. sel e \<Longrightarrow> raises_only P (h e)"
  shows "raises_only P (try_except m sel h)"
  unfolding raises_only_def
proof (intro allI impI)
  fix w assume w: "calm w"
  obtain r w' where m: "m w = (r, w')" by (cases "m w")
  with assms(1) w have "calm w'" "\<forall>e. r = Inl e \<longrightarrow> Q e"
    by (auto simp: raises_only_def)
  with m assms(2,3) show "calm (snd (try_except m sel h w)) \<and> (\<forall>e. fst (try_except m sel h w) = Inl e \<longrightarrow> P e)"
    by (cases r) (auto simp: try_except_def raises_only_def)
qed

lemma mkdirs_error: "mkdirs p d = Inl e \<Longrightarrow> \<exists>m. e = OSError m"
proof -
  have "mkdir_onto full q xs d = Inl e \<Longrightarrow> \<exists>m. e = OSError m" for full q xs
    by (induction full q xs d rule: mkdir_onto.induct)
      (auto simp: os_error_def split: option.splits node.splits if_splits)
  then show "mkdirs p d = Inl e \<Longrightarrow> \<exists>m. e = OSError m"
    unfolding mkdirs_def .
qed

lemma write_file_error: "write_file p s d = Inl e \<Longrightarrow> \<exists>m. e = OSError m"
  by (auto simp: write_file_def os_error_def split: if_splits)

end
