(* ===== verification/Model_Cache.thy ===== *)
theory Model_Cache imports Host Job_Db begin

text \<open>
  \<open>crucible_worker/model_cache.py\<close>. The Hugging Face client is a parameter: \<open>hub repo revision
  cache_dir\<close> is \<open>snapshot_download\<close>, a program that works on the local disk and returns the
  path of the snapshot as text. \<open>local_program\<close> is all that is assumed of it: it leaves the
  services, the schedule and the stop event alone and raises Python exceptions only.
\<close>

type_synonym hub = "string \<Rightarrow> string \<Rightarrow> string \<Rightarrow> (world, exn, string) prog"

definition local_program :: "(world, exn, 'a) prog \<Rightarrow> bool" where
  "local_program m \<longleftrightarrow> (\<forall>w. snd (m w) = w\<lparr>disk := disk (snd (m w))\<rparr>
     \<and> (\<forall>e. fst (m w) = Inl e \<longrightarrow> is_exception e))"

text \<open>\<open>str(Path(text))\<close>.\<close>

definition str_path :: "string \<Rightarrow> string" where
  "str_path s = (let t = (if starts_with [slash] s then [slash] else []) @ join [slash] (path_parts s)
     in if t = [] then [dot] else t)"

fun is_hub_error :: "exn \<Rightarrow> bool" where
  "is_hub_error (HfHubHTTPError _) = True"
| "is_hub_error _ = False"

definition mc_ensure :: "hub \<Rightarrow> string \<Rightarrow> model_meta \<Rightarrow> (world, exn, string) prog" where
  "mc_ensure hub cache_dir m =
     bind (try_except (hub (hf_repo_id m) (revision m) cache_dir) is_hub_error
            (\<lambda>e. raise (ModelCacheError (''failed to fetch '' @ hf_repo_id m @ ''@'' @ revision m @ '': '' @ exn_str e))))
          (\<lambda>path. ret (str_path path))"

type_synonym model_cache = "model_meta \<Rightarrow> (world, exn, string) prog"

record hf_model_cache =
  hf_cache_dir :: string

definition hf_ensure :: "hub \<Rightarrow> hf_model_cache \<Rightarrow> model_cache" where
  "hf_ensure hub c = mc_ensure hub (hf_cache_dir c)"

definition hub_ok :: "hub \<Rightarrow> bool" where
  "hub_ok hub \<longleftrightarrow> (\<forall>repo rev dir. local_program (hub repo rev dir))"

lemma keeps_local_program:
  assumes "local_program m" and "ignores_disk P" and "\<And>w. P w w"
  shows "keeps P m"
proof (rule keepsI)
  fix w
  have "snd (m w) = w\<lparr>disk := disk (snd (m w))\<rparr>" using assms(1) by (simp add: local_program_def)
  then show "P w (snd (m w))" using ignores_diskD(1) [OF assms(2)] assms(3) by metis
qed

lemma ro_local_program: "local_program m \<Longrightarrow> raises_only is_exception m"
  unfolding local_program_def raises_only_def by (metis calm_disk)

lemma local_program_read: "(\<And>d e. f d = Inl e \<Longrightarrow> is_exception e) \<Longrightarrow> local_program (local_read f)"
  by (auto simp: local_program_def local_read_def)

lemma keeps_mc_ensure:
  assumes "hub_ok hub" and "ignores_disk P" and "state_preorder P"
  shows "keeps P (mc_ensure hub dir m)"
  unfolding mc_ensure_def
  by (intro state_preorder.resp_rules [OF assms(3)] keeps_local_program assms(2))
    (use assms in \<open>auto simp: hub_ok_def intro: state_preorder.R_refl\<close>)

lemma ro_mc_ensure: "hub_ok hub \<Longrightarrow> raises_only is_exception (mc_ensure hub dir m)"
  unfolding mc_ensure_def
  by (intro ro_bind ro_ret, rule ro_try [OF ro_local_program]) (auto simp: hub_ok_def intro: ro_raise)

end
