(* ===== verification/Repository.thy ===== *)
theory Repository imports World begin

text \<open>
  The clients the processor and the reconciler are given, as programs over the world:
  \<open>PostgresJobRepository\<close> (\<open>db.py\<close>, the contract \<open>repository.py\<close>), \<open>StatusPublisher\<close>
  (\<open>status.py\<close>) and \<open>RedisQueue\<close> (\<open>redis_queue.py\<close>). Each method is one call. Undecodable
  rows raise after the statement, inside the method.
\<close>

definition repo_get_job :: "services \<Rightarrow> uuid \<Rightarrow> (world, exn, job option) prog" where
  "repo_get_job R i = bind (query R (\<lambda>s. db_get_job i (jobs s))) lift_sum"

definition repo_get_model_meta :: "services \<Rightarrow> string \<Rightarrow> (world, exn, model_meta option) prog" where
  "repo_get_model_meta R repo = query R (\<lambda>s. db_get_model_meta repo (models (reg s)))"

definition repo_mark_running :: "services \<Rightarrow> uuid \<Rightarrow> (world, exn, unit) prog" where
  "repo_mark_running R i = perform R (MarkRunning i)"

definition repo_heartbeat :: "services \<Rightarrow> uuid \<Rightarrow> (world, exn, unit) prog" where
  "repo_heartbeat R i = perform R (Heartbeat i)"

definition repo_mark_completed :: "services \<Rightarrow> uuid \<Rightarrow> string \<Rightarrow> (world, exn, unit) prog" where
  "repo_mark_completed R i path = perform R (MarkCompleted i path)"

definition repo_mark_failed :: "services \<Rightarrow> uuid \<Rightarrow> string \<Rightarrow> (world, exn, unit) prog" where
  "repo_mark_failed R i msg = perform R (MarkFailed i msg)"

definition repo_reset_to_queued :: "services \<Rightarrow> uuid \<Rightarrow> (world, exn, unit) prog" where
  "repo_reset_to_queued R i = perform R (ResetToQueued i)"

definition repo_find_stale_running :: "services \<Rightarrow> int \<Rightarrow> (world, exn, uuid list) prog" where
  "repo_find_stale_running R n = query R (\<lambda>s. db_find_stale_running (clock s) n (jobs s))"

definition repo_find_orphan_queued :: "services \<Rightarrow> int \<Rightarrow> (world, exn, uuid list) prog" where
  "repo_find_orphan_queued R n = query R (\<lambda>s. db_find_orphan_queued (clock s) n (jobs s))"

definition publish :: "services \<Rightarrow> string \<Rightarrow> string \<Rightarrow> bool \<Rightarrow> (world, exn, unit) prog" where
  "publish R jid status is_terminal = perform R (Publish jid status is_terminal)"

definition rq_ack :: "services \<Rightarrow> string \<Rightarrow> (world, exn, unit) prog" where
  "rq_ack R jid = perform R (Ack jid)"

definition rq_requeue :: "services \<Rightarrow> string \<Rightarrow> (world, exn, unit) prog" where
  "rq_requeue R jid = perform R (Requeue jid)"

definition rq_queued_ids :: "services \<Rightarrow> (world, exn, string set) prog" where
  "rq_queued_ids R = query R (\<lambda>s. queued_ids R (rd s))"

definition rq_in_flight_ids :: "services \<Rightarrow> (world, exn, string set) prog" where
  "rq_in_flight_ids R = query R (\<lambda>s. in_flight_ids R (rd s))"

text \<open>
  \<open>claim\<close>: \<open>BRPOPLPUSH\<close> with the configured timeout. With a positive timeout the call waits
  through one slot and answers \<open>None\<close> if the queue is empty at its end. Timeout 0 means no
  timeout: the call waits slot after slot, and never returns if no id ever comes. A
  negative timeout is an error of the server.
\<close>

definition claim_once :: "services \<Rightarrow> (world, exn, string option) prog" where
  "claim_once R = call R DriverError (\<lambda>s. (fst (queue_claim R (rd s)), do_op R Claim s))"

fun claim_forever :: "services \<Rightarrow> slot list \<Rightarrow> (world, exn, string option) prog" where
  "claim_forever R [] = bind (claim_once R) (\<lambda>r. case r of None \<Rightarrow> raise Blocked | Some x \<Rightarrow> ret (Some x))"
| "claim_forever R (_ # slots) =
     bind (claim_once R) (\<lambda>r. case r of None \<Rightarrow> claim_forever R slots | Some x \<Rightarrow> ret (Some x))"

definition rq_claim :: "services \<Rightarrow> int \<Rightarrow> (world, exn, string option) prog" where
  "rq_claim R block_seconds =
     (if block_seconds < 0 then seq (query R (\<lambda>_. ())) (raise (DriverError ''timeout is negative''))
      else if block_seconds = 0 then (\<lambda>w. claim_forever R (tl (sched w)) w)
      else claim_once R)"

section \<open>The collaborators\<close>

text \<open>
  The processor and the reconciler hold their collaborators in fields, so that tests can pass fakes: a
  repository (the protocol \<open>JobRepository\<close>), a queue and a publisher. Each is a record of its methods over
  any state; the production instances run on the world.
\<close>

record 's job_repository =
  jr_get_job :: "uuid \<Rightarrow> ('s, exn, job option) prog"
  jr_get_model_meta :: "string \<Rightarrow> ('s, exn, model_meta option) prog"
  jr_mark_running :: "uuid \<Rightarrow> ('s, exn, unit) prog"
  jr_heartbeat :: "uuid \<Rightarrow> ('s, exn, unit) prog"
  jr_mark_completed :: "uuid \<Rightarrow> string \<Rightarrow> ('s, exn, unit) prog"
  jr_mark_failed :: "uuid \<Rightarrow> string \<Rightarrow> ('s, exn, unit) prog"
  jr_reset_to_queued :: "uuid \<Rightarrow> ('s, exn, unit) prog"
  jr_find_stale_running :: "int \<Rightarrow> ('s, exn, uuid list) prog"
  jr_find_orphan_queued :: "int \<Rightarrow> ('s, exn, uuid list) prog"

definition postgres_repository :: "services \<Rightarrow> world job_repository" where
  "postgres_repository R = \<lparr>jr_get_job = repo_get_job R, jr_get_model_meta = repo_get_model_meta R,
     jr_mark_running = repo_mark_running R, jr_heartbeat = repo_heartbeat R,
     jr_mark_completed = repo_mark_completed R, jr_mark_failed = repo_mark_failed R,
     jr_reset_to_queued = repo_reset_to_queued R, jr_find_stale_running = repo_find_stale_running R,
     jr_find_orphan_queued = repo_find_orphan_queued R\<rparr>"

record 's work_queue =
  wq_claim :: "('s, exn, string option) prog"
  wq_ack :: "string \<Rightarrow> ('s, exn, unit) prog"
  wq_requeue :: "string \<Rightarrow> ('s, exn, unit) prog"
  wq_queued_ids :: "('s, exn, string set) prog"
  wq_in_flight_ids :: "('s, exn, string set) prog"

definition redis_queue :: "services \<Rightarrow> int \<Rightarrow> world work_queue" where
  "redis_queue R block_seconds = \<lparr>wq_claim = rq_claim R block_seconds, wq_ack = rq_ack R,
     wq_requeue = rq_requeue R, wq_queued_ids = rq_queued_ids R, wq_in_flight_ids = rq_in_flight_ids R\<rparr>"

type_synonym 's status_publisher = "string \<Rightarrow> string \<Rightarrow> bool \<Rightarrow> ('s, exn, unit) prog"

lemma postgres_methods:
  "jr_get_job (postgres_repository R) = repo_get_job R" "jr_get_model_meta (postgres_repository R) = repo_get_model_meta R"
  "jr_mark_running (postgres_repository R) = repo_mark_running R" "jr_heartbeat (postgres_repository R) = repo_heartbeat R"
  "jr_mark_completed (postgres_repository R) = repo_mark_completed R" "jr_mark_failed (postgres_repository R) = repo_mark_failed R"
  "jr_reset_to_queued (postgres_repository R) = repo_reset_to_queued R"
  "jr_find_stale_running (postgres_repository R) = repo_find_stale_running R"
  "jr_find_orphan_queued (postgres_repository R) = repo_find_orphan_queued R"
  by (simp_all add: postgres_repository_def)

lemma redis_methods:
  "wq_claim (redis_queue R n) = rq_claim R n" "wq_ack (redis_queue R n) = rq_ack R"
  "wq_requeue (redis_queue R n) = rq_requeue R" "wq_queued_ids (redis_queue R n) = rq_queued_ids R"
  "wq_in_flight_ids (redis_queue R n) = rq_in_flight_ids R"
  by (simp_all add: redis_queue_def)

section \<open>Rules\<close>

lemmas repo_defs = repo_get_job_def repo_get_model_meta_def repo_mark_running_def
  repo_heartbeat_def repo_mark_completed_def repo_mark_failed_def repo_reset_to_queued_def
  repo_find_stale_running_def repo_find_orphan_queued_def publish_def rq_ack_def rq_requeue_def
  rq_queued_ids_def rq_in_flight_ids_def

text \<open>The only exception a method raises by itself is that of a row it cannot decode.\<close>

definition decode_error :: "exn \<Rightarrow> bool" where
  "decode_error e \<longleftrightarrow> (\<exists>k. e = KeyError k) \<or> (\<exists>m. e = TypeError m)"

lemma json_item_error: "json_item v k = Inl e \<Longrightarrow> decode_error e"
  by (cases "(v, k)" rule: json_item.cases) (auto simp: decode_error_def split: option.splits)

lemma row_to_job_error: "row_to_job r = Inl e \<Longrightarrow> decode_error e"
  by (auto simp: row_to_job_def Let_def dest: json_item_error split: sum.splits)

lemma db_get_job_error: "db_get_job i rows = Inl e \<Longrightarrow> decode_error e"
  by (auto simp: db_get_job_def dest: row_to_job_error split: option.splits sum.splits)

lemma ro_get_job: "raises_only decode_error (repo_get_job R i)"
proof -
  have "repo_get_job R i = (\<lambda>w. case query R (\<lambda>s. db_get_job i (jobs s)) w of
      (Inl e, w') \<Rightarrow> (Inl e, w') | (Inr x, w') \<Rightarrow> (x, w'))"
    by (rule ext) (simp add: repo_get_job_def bind_def lift_sum_apply split: prod.split sum.split)
  moreover have "decode_error e" if "query R (\<lambda>s. db_get_job i (jobs s)) w = (Inr (Inl e), w')" for w w' e
    using that by (auto simp: query_def call_def Let_def dest: db_get_job_error split: fault.splits)
  ultimately show ?thesis
    using ro_query [of decode_error R "\<lambda>s. db_get_job i (jobs s)"]
    by (fastforce simp: raises_only_def split: prod.splits sum.splits)
qed

lemma ro_repo:
  "raises_only P (repo_get_model_meta R m)" "raises_only P (repo_mark_running R i)"
  "raises_only P (repo_heartbeat R i)" "raises_only P (repo_mark_completed R i p)"
  "raises_only P (repo_mark_failed R i p)" "raises_only P (repo_reset_to_queued R i)"
  "raises_only P (repo_find_stale_running R n)" "raises_only P (repo_find_orphan_queued R n)"
  "raises_only P (publish R j st b)" "raises_only P (rq_ack R j)" "raises_only P (rq_requeue R j)"
  "raises_only P (rq_queued_ids R)" "raises_only P (rq_in_flight_ids R)"
  unfolding repo_defs by (intro ro_rules)+

lemma progress_repo:
  "keeps progress (repo_get_job R i)" "keeps progress (repo_get_model_meta R m)"
  "keeps progress (repo_mark_running R i)" "keeps progress (repo_heartbeat R i)"
  "keeps progress (repo_mark_completed R i p)" "keeps progress (repo_mark_failed R i p)"
  "keeps progress (repo_reset_to_queued R i)" "keeps progress (repo_find_stale_running R n)"
  "keeps progress (repo_find_orphan_queued R n)" "keeps progress (publish R j st b)"
  "keeps progress (rq_ack R j)" "keeps progress (rq_requeue R j)"
  "keeps progress (rq_queued_ids R)" "keeps progress (rq_in_flight_ids R)"
  unfolding repo_defs by (intro progress_rules)+

lemma progress_claim_once: "keeps progress (claim_once R)"
  unfolding claim_once_def by (rule progress_call)

lemma progress_claim_forever: "keeps progress (claim_forever R slots)"
  by (induction slots) (auto intro!: progress_rules progress_claim_once split: option.splits)

lemma progress_claim: "keeps progress (rq_claim R n)"
proof (cases "n = 0")
  case True
  then show ?thesis
    using keepsD [OF progress_claim_forever] by (auto simp: rq_claim_def keeps_def)
qed (auto simp: rq_claim_def intro!: progress_rules progress_claim_once)

lemma claim_once_consumes: "length (sched (snd (claim_once R w))) = length (sched w) - 1"
  unfolding claim_once_def by (rule call_consumes)

lemma claim_forever_consumes: "length (sched (snd (claim_forever R slots w))) \<le> length (sched w) - 1"
proof -
  have p: "keeps progress (case r of None \<Rightarrow> raise Blocked | Some x \<Rightarrow> ret (Some x))"
    "keeps progress (case r of None \<Rightarrow> claim_forever R s | Some x \<Rightarrow> ret (Some x))" for r :: "string option" and s
    by (auto intro!: progress_rules progress_claim_forever split: option.splits)
  show ?thesis
    by (cases slots) (simp_all add: order_trans [OF bind_consumes [OF p(1)]]
        order_trans [OF bind_consumes [OF p(2)]] claim_once_consumes)
qed

lemma claim_consumes: "length (sched (snd (rq_claim R n w))) \<le> length (sched w) - 1"
proof -
  have "length (sched (snd (seq (query R f) (raise e :: (world, exn, string option) prog) w))) \<le> length (sched w) - 1"
    for f :: "shared \<Rightarrow> unit" and e :: exn
    unfolding seq_def
    by (rule order_trans [OF bind_consumes [OF progress.resp_raise]]) (simp add: query_def call_consumes)
  then show ?thesis
    using claim_forever_consumes [of R _ w] claim_once_consumes [of R w] by (simp add: rq_claim_def)
qed

lemma ro_claim: "0 < n \<Longrightarrow> raises_only P (rq_claim R n)"
  by (simp add: rq_claim_def claim_once_def ro_call)

context guarantee begin

lemma resp_repo:
  "keeps (\<lambda>v w. G (sh v) (sh w)) (repo_get_job R i)"
  "keeps (\<lambda>v w. G (sh v) (sh w)) (repo_get_model_meta R m)"
  "keeps (\<lambda>v w. G (sh v) (sh w)) (repo_mark_running R i)"
  "keeps (\<lambda>v w. G (sh v) (sh w)) (repo_heartbeat R i)"
  "keeps (\<lambda>v w. G (sh v) (sh w)) (repo_mark_completed R i p)"
  "keeps (\<lambda>v w. G (sh v) (sh w)) (repo_mark_failed R i p)"
  "keeps (\<lambda>v w. G (sh v) (sh w)) (repo_reset_to_queued R i)"
  "keeps (\<lambda>v w. G (sh v) (sh w)) (repo_find_stale_running R n)"
  "keeps (\<lambda>v w. G (sh v) (sh w)) (repo_find_orphan_queued R n)"
  "keeps (\<lambda>v w. G (sh v) (sh w)) (publish R j st b)"
  "keeps (\<lambda>v w. G (sh v) (sh w)) (rq_ack R j)"
  "keeps (\<lambda>v w. G (sh v) (sh w)) (rq_requeue R j)"
  "keeps (\<lambda>v w. G (sh v) (sh w)) (rq_queued_ids R)"
  "keeps (\<lambda>v w. G (sh v) (sh w)) (rq_in_flight_ids R)"
  unfolding repo_defs by (intro resp_bind resp_perform resp_query resp_lift)+

lemma resp_claim_once: "keeps (\<lambda>v w. G (sh v) (sh w)) (claim_once R)"
  unfolding claim_once_def by (rule resp_call) (simp add: G_op del: do_op.simps)

lemma resp_claim_forever: "keeps (\<lambda>v w. G (sh v) (sh w)) (claim_forever R slots)"
  by (induction slots)
    (auto intro!: resp_bind resp_claim_once resp_raise resp_ret split: option.splits)

lemma resp_claim: "keeps (\<lambda>v w. G (sh v) (sh w)) (rq_claim R n)"
proof (cases "n = 0")
  case True
  then show ?thesis
    using keepsD [OF resp_claim_forever] by (auto simp: rq_claim_def keeps_def)
qed (auto simp: rq_claim_def intro!: resp_seq resp_query resp_raise resp_claim_once)

end

end
