(* ===== verification/Validation.thy ===== *)
theory Validation imports Py_Exn begin

text \<open>
  \<open>crucible_worker/validation.py\<close>, the format gate run before training, together with
  \<open>_is_single_file\<close> of \<open>dataset_store.py\<close>, the test the download stage uses on the same
  path. The lemmas say exactly which paths pass the gate, and that both stages take the same
  view of which paths are single files.
\<close>

definition SUPPORTED_FORMATS :: "string list" where
  "SUPPORTED_FORMATS = [''csv'', ''json'', ''parquet'']"

definition unsupported_format_error :: "string \<Rightarrow> string \<Rightarrow> exn" where
  "unsupported_format_error fmt path = UnsupportedDatasetFormatError fmt path
     (''unsupported dataset format '' @ repr_str fmt @ '' for '' @ repr_str path @
      ''; supported formats: '' @ join '', '' (sort SUPPORTED_FORMATS))"

definition detect_format :: "string \<Rightarrow> string option" where
  "detect_format path =
     (let suffix = strip_left (\<lambda>c. c = dot) (lower (path_suffix path))
      in if suffix = [] then None else Some suffix)"

definition validate_dataset_format :: "string \<Rightarrow> exn + string option" where
  "validate_dataset_format path = (case detect_format path of
     None \<Rightarrow> Inr None
   | Some fmt \<Rightarrow> if fmt \<notin> set SUPPORTED_FORMATS then Inl (unsupported_format_error fmt path)
       else Inr (Some fmt))"

definition is_single_file :: "string \<Rightarrow> bool" where
  "is_single_file path \<longleftrightarrow> path_suffix (strip_right (\<lambda>c. c = slash) path) \<noteq> []"

section \<open>Which paths pass\<close>

lemma lower_char_dot: "lower_char c = dot \<longleftrightarrow> c = dot"
proof
  assume l: "lower_char c = dot"
  show "c = dot"
  proof (cases "lower_char c = c")
    case False
    then have "lower_char c = char_of (ord_of c + 32)"
      and "65 \<le> ord_of c" and "ord_of c \<le> 222"
      by (auto simp: lower_char_def Let_def split: if_splits)
    then have "97 \<le> ord_of (lower_char c)" by simp
    with l show ?thesis by (simp add: dot_def ord_of_def)
  qed (use l in simp)
qed (simp add: lower_char_def dot_def ord_of_def)

lemma lower_append [simp]: "lower (s @ t) = lower s @ lower t"
  by (simp add: lower_def)

lemma lower_Nil_iff [simp]: "lower s = [] \<longleftrightarrow> s = []"
  by (simp add: lower_def)

lemma detect_format_dotted:
  assumes "path_suffix p = dot # e" and "dot \<notin> set e"
  shows "detect_format p = (if e = [] then None else Some (lower e))"
proof -
  have "lower (dot # e) = dot # lower e"
    using lower_char_dot by (simp add: lower_def)
  moreover have "strip_left (\<lambda>c. c = dot) (lower e) = lower e"
    using assms(2) lower_char_dot by (intro strip_left_noop) (cases e; auto simp: lower_def)
  ultimately show ?thesis
    using assms(1) by (simp add: detect_format_def strip_left_def Let_def)
qed

lemma detect_format_None_iff: "detect_format p = None \<longleftrightarrow> path_suffix p = []"
  using name_suffix_shape [of "path_name p"]
  by (auto simp: path_suffix_def [symmetric] detect_format_dotted)
    (simp add: detect_format_def strip_left_def lower_def)

lemma detect_format_Some_iff:
  "detect_format p = Some f \<longleftrightarrow> (\<exists>e. path_suffix p = dot # e \<and> e \<noteq> [] \<and> f = lower e)"
  using name_suffix_shape [of "path_name p"]
  by (auto simp: path_suffix_def [symmetric] detect_format_dotted detect_format_None_iff)
    (simp add: detect_format_def strip_left_def lower_def)

lemma validate_cases:
  obtains (prefix) "detect_format p = None" "validate_dataset_format p = Inr None"
  | (ok) f where "detect_format p = Some f" "f \<in> set SUPPORTED_FORMATS"
      "validate_dataset_format p = Inr (Some f)"
  | (bad) f where "detect_format p = Some f" "f \<notin> set SUPPORTED_FORMATS"
      "validate_dataset_format p = Inl (unsupported_format_error f p)"
  by (cases "detect_format p") (auto simp: validate_dataset_format_def)

lemma is_single_file_iff: "is_single_file p \<longleftrightarrow> detect_format p \<noteq> None"
  by (simp add: is_single_file_def path_suffix_def path_name_strip_right detect_format_None_iff)

end
