(* ===== verification/Processor.thy ===== *)
theory Processor imports Repository Validation Guardrail begin

text \<open>
  \<open>crucible_worker/processor.py\<close>: one job from claim to ack. The class is a record of its
  injected collaborators; an executor is any program that takes the job, the model's metadata and a
  heartbeat and returns a checkpoint path.

  \<open>executor_contract\<close> is what the processor relies on: the executor touches the shared state
  only through the heartbeat and through steps everybody may make, it leaves the stop event and
  the schedule to the calls it makes, and it raises nothing but exceptions when no call fails. The executors of \<open>executor.py\<close> interpret it.
\<close>

type_synonym 's job_executor = "job \<Rightarrow> model_meta \<Rightarrow> ('s, exn, unit) prog \<Rightarrow> ('s, exn, string) prog"

type_synonym heartbeat = "(world, exn, unit) prog"

type_synonym executor = "world job_executor"

record 's job_processor =
  jp_repo :: "'s job_repository"
  jp_queue :: "'s work_queue"
  jp_status :: "'s status_publisher"
  jp_executor :: "'s job_executor"

definition TERMINAL_STATUSES :: "job_status set" where
  "TERMINAL_STATUSES = {COMPLETED, FAILED, CANCELLED}"

definition not_allowed_error :: "string \<Rightarrow> exn" where
  "not_allowed_error model = OversizedModelError (''base model '' @ repr_str model @ '' is not in the allow-list'')"

definition processor_heartbeat :: "'s job_processor \<Rightarrow> job \<Rightarrow> ('s, exn, unit) prog" where
  "processor_heartbeat p j = seq (jr_heartbeat (jp_repo p) (job_id j))
     (jp_status p (uuid_str (job_id j)) (status_value RUNNING) False)"

definition processor_run :: "'s job_processor \<Rightarrow> job \<Rightarrow> ('s, exn, unit) prog" where
  "processor_run p j =
     seq (jr_mark_running (jp_repo p) (job_id j))
    (seq (jp_status p (uuid_str (job_id j)) (status_value RUNNING) False)
    (seq (lift_sum (validate_dataset_format (dataset_path j)))
    (bind (jr_get_model_meta (jp_repo p) (base_model j)) (\<lambda>m. case m of
       None \<Rightarrow> raise (not_allowed_error (base_model j))
     | Some model \<Rightarrow>
         seq (lift_sum (check_model_fits (param_count model) (vram_hint model)))
        (bind (jp_executor p j model (processor_heartbeat p j)) (\<lambda>ckpt.
         seq (jr_mark_completed (jp_repo p) (job_id j) ckpt)
             (jp_status p (uuid_str (job_id j)) (status_value COMPLETED) True)))))))"

definition processor_fail :: "'s job_processor \<Rightarrow> string \<Rightarrow> uuid \<Rightarrow> string \<Rightarrow> ('s, exn, unit) prog" where
  "processor_fail p raw i msg =
     seq (jr_mark_failed (jp_repo p) i msg)
    (seq (jp_status p (uuid_str i) (status_value FAILED) True)
         (wq_ack (jp_queue p) raw))"

fun is_rejection :: "exn \<Rightarrow> bool" where
  "is_rejection (UnsupportedDatasetFormatError _ _ _) = True"
| "is_rejection (OversizedModelError _) = True"
| "is_rejection _ = False"

text \<open>The two \<open>except\<close> clauses; \<open>None\<close> is an exception neither accepts.\<close>

definition processor_handler :: "'s job_processor \<Rightarrow> string \<Rightarrow> uuid \<Rightarrow> exn \<Rightarrow> ('s, exn, unit) prog option" where
  "processor_handler p raw i e =
     (if is_rejection e then Some (processor_fail p raw i (exn_str e))
      else if is_exception e then Some (processor_fail p raw i (''worker error: '' @ exn_str e))
      else None)"

definition processor_process :: "'s job_processor \<Rightarrow> string \<Rightarrow> ('s, exn, unit) prog" where
  "processor_process p raw = (case uuid_of_text raw of
     None \<Rightarrow> wq_ack (jp_queue p) raw
   | Some i \<Rightarrow> bind (jr_get_job (jp_repo p) i) (\<lambda>found. case found of
       None \<Rightarrow> wq_ack (jp_queue p) raw
     | Some j \<Rightarrow>
         if job_state j \<in> TERMINAL_STATUSES then wq_ack (jp_queue p) raw
         else try_else (processor_run p j) (processor_handler p raw i) (wq_ack (jp_queue p) raw)))"

section \<open>The processor of a worker\<close>

text \<open>
  \<open>main.run\<close> builds it over Postgres and Redis. How long its queue blocks in \<open>claim\<close> plays no part in
  processing, nor does the executor in a failure: the programs below fix some, and the equations
  \<open>processor_code\<close> hold for all.
\<close>

definition new_job_processor :: "services \<Rightarrow> int \<Rightarrow> executor \<Rightarrow> world job_processor" where
  "new_job_processor R block_seconds exec = \<lparr>jp_repo = postgres_repository R, jp_queue = redis_queue R block_seconds,
     jp_status = publish R, jp_executor = exec\<rparr>"

definition heartbeat_of :: "services \<Rightarrow> job \<Rightarrow> heartbeat" where
  "heartbeat_of R j = seq (repo_heartbeat R (job_id j))
     (publish R (uuid_str (job_id j)) (status_value RUNNING) False)"

definition run_job :: "services \<Rightarrow> executor \<Rightarrow> job \<Rightarrow> (world, exn, unit) prog" where
  "run_job R exec = processor_run (new_job_processor R 0 exec)"

definition fail_job :: "services \<Rightarrow> string \<Rightarrow> uuid \<Rightarrow> string \<Rightarrow> (world, exn, unit) prog" where
  "fail_job R = processor_fail (new_job_processor R 0 (\<lambda>j m hb. ret []))"

definition run_handler :: "services \<Rightarrow> string \<Rightarrow> uuid \<Rightarrow> exn \<Rightarrow> (world, exn, unit) prog option" where
  "run_handler R = processor_handler (new_job_processor R 0 (\<lambda>j m hb. ret []))"

definition process :: "services \<Rightarrow> executor \<Rightarrow> string \<Rightarrow> (world, exn, unit) prog" where
  "process R exec = processor_process (new_job_processor R 0 exec)"

lemma processor_fields:
  "jp_repo (new_job_processor R n exec) = postgres_repository R" "jp_queue (new_job_processor R n exec) = redis_queue R n"
  "jp_status (new_job_processor R n exec) = publish R" "jp_executor (new_job_processor R n exec) = exec"
  by (simp_all add: new_job_processor_def)

lemmas processor_methods = processor_fields postgres_methods redis_methods

lemma processor_code:
  "processor_heartbeat (new_job_processor R n exec) = heartbeat_of R"
  "processor_run (new_job_processor R n exec) = run_job R exec"
  "processor_fail (new_job_processor R n exec) = fail_job R"
  "processor_handler (new_job_processor R n exec) = run_handler R"
  "processor_process (new_job_processor R n exec) = process R exec"
proof -
  show h: "processor_heartbeat (new_job_processor R n exec) = heartbeat_of R" for n exec
    by (rule ext) (simp only: processor_heartbeat_def heartbeat_of_def processor_methods)
  show r: "processor_run (new_job_processor R n exec) = run_job R exec" for n
    unfolding run_job_def by (rule ext) (simp only: processor_run_def processor_methods h)
  show f: "processor_fail (new_job_processor R n exec) = fail_job R" for n exec
    unfolding fail_job_def by (intro ext) (simp only: processor_fail_def processor_methods)
  show e: "processor_handler (new_job_processor R n exec) = run_handler R" for n exec
    unfolding run_handler_def by (intro ext) (simp only: processor_handler_def processor_methods f)
  show "processor_process (new_job_processor R n exec) = process R exec"
    unfolding process_def by (rule ext) (simp only: processor_process_def processor_methods r e)
qed

lemma run_job_code:
  "run_job R exec j =
     seq (repo_mark_running R (job_id j))
    (seq (publish R (uuid_str (job_id j)) (status_value RUNNING) False)
    (seq (lift_sum (validate_dataset_format (dataset_path j)))
    (bind (repo_get_model_meta R (base_model j)) (\<lambda>m. case m of
       None \<Rightarrow> raise (not_allowed_error (base_model j))
     | Some model \<Rightarrow>
         seq (lift_sum (check_model_fits (param_count model) (vram_hint model)))
        (bind (exec j model (heartbeat_of R j)) (\<lambda>ckpt.
         seq (repo_mark_completed R (job_id j) ckpt)
             (publish R (uuid_str (job_id j)) (status_value COMPLETED) True)))))))"
  unfolding run_job_def by (simp only: processor_run_def processor_methods processor_code(1))

lemma fail_job_code:
  "fail_job R raw i msg =
     seq (repo_mark_failed R i msg) (seq (publish R (uuid_str i) (status_value FAILED) True) (rq_ack R raw))"
  unfolding fail_job_def by (simp only: processor_fail_def processor_methods)

lemma run_handler_code:
  "run_handler R raw i e =
     (if is_rejection e then Some (fail_job R raw i (exn_str e))
      else if is_exception e then Some (fail_job R raw i (''worker error: '' @ exn_str e))
      else None)"
  unfolding run_handler_def by (simp only: processor_handler_def processor_code(3))

lemma process_code:
  "process R exec raw = (case uuid_of_text raw of
     None \<Rightarrow> rq_ack R raw
   | Some i \<Rightarrow> bind (repo_get_job R i) (\<lambda>found. case found of
       None \<Rightarrow> rq_ack R raw
     | Some j \<Rightarrow>
         if job_state j \<in> TERMINAL_STATUSES then rq_ack R raw
         else try_else (run_job R exec j) (run_handler R raw i) (rq_ack R raw)))"
  unfolding process_def by (simp only: processor_process_def processor_methods processor_code(2,4))

section \<open>What a job may go through while it is processed\<close>

locale executor_contract =
  fixes R :: services and exec :: executor
  assumes exec_keeps: "guarantee R G \<Longrightarrow> keeps (\<lambda>v w. G (sh v) (sh w)) hb \<Longrightarrow>
      keeps (\<lambda>v w. G (sh v) (sh w)) (exec j m hb)"
    and exec_progress: "keeps progress hb \<Longrightarrow> keeps progress (exec j m hb)"
    and exec_raises: "raises_only (\<lambda>_. False) hb \<Longrightarrow> raises_only is_exception (exec j m hb)"
begin

lemma resp_run_job:
  assumes g: "guarantee R G"
  shows "keeps (\<lambda>v w. G (sh v) (sh w)) (run_job R exec j)"
  unfolding run_job_code heartbeat_of_def
  by (intro guarantee.resp_repo [OF g] guarantee.prog_rules [OF g] exec_keeps [OF g])

lemma resp_process:
  assumes g: "guarantee R G"
  shows "keeps (\<lambda>v w. G (sh v) (sh w)) (process R exec raw)"
  unfolding process_code
  by (intro guarantee.prog_rules [OF g] guarantee.resp_repo [OF g] resp_run_job [OF g])
    (auto simp: run_handler_code fail_job_code split: if_splits
      intro!: guarantee.prog_rules [OF g] guarantee.resp_repo [OF g])

lemma progress_process: "keeps progress (process R exec raw)"
  unfolding process_code run_job_code heartbeat_of_def
  by (intro progress_rules progress_repo exec_progress)
    (auto simp: run_handler_code fail_job_code split: if_splits intro!: progress_rules progress_repo)

lemma ro_run_job: "raises_only is_exception (run_job R exec j)"
proof -
  have h: "raises_only (\<lambda>_. False) (heartbeat_of R j)"
    unfolding heartbeat_of_def by (intro ro_seq ro_repo)
  have c: "is_exception e" if "check_model_fits n v = Inl e" for n v e
    using check_model_fits_error [OF that] by auto
  have v: "is_exception e" if "validate_dataset_format p = Inl e" for p e
    using that by (cases p rule: validate_cases) (auto simp: unsupported_format_error_def)
  show ?thesis
    unfolding run_job_code
    by (intro ro_seq ro_repo ro_bind ro_lift ro_option ro_raise exec_raises h)
      (auto simp: not_allowed_error_def dest: c v)
qed

lemma ro_process: "raises_only decode_error (process R exec raw)"
proof -
  have f: "raises_only decode_error (fail_job R raw i m)" for i m
    unfolding fail_job_code by (intro ro_seq ro_repo)
  have e: "raises_only decode_error (try_else (run_job R exec j) (run_handler R raw i) (rq_ack R raw))" for i j
    by (rule ro_try_else [OF ro_run_job]) (auto simp: run_handler_code f ro_repo split: if_splits)
  show ?thesis
    unfolding process_code by (intro ro_option ro_bind ro_get_job ro_if ro_repo e)
qed

end

text \<open>
  The processor, alone or interleaved with anybody, takes every job along its life cycle, and
  keeps the table well-formed.
\<close>

lemma process_advances:
  "executor_contract R exec \<Longrightarrow> jobs_advance (sh w) (sh (snd (process R exec raw w)))"
  using keepsD [OF executor_contract.resp_process [OF _ advance.guarantee_axioms]] by blast

lemma process_keeps_wf:
  "executor_contract R exec \<Longrightarrow> jobs_wf (sh w) \<Longrightarrow> jobs_wf (sh (snd (process R exec raw w)))"
  using keepsD [OF executor_contract.resp_process [OF _ wf.guarantee_axioms]] unfolding keeps_wf_def by blast

section \<open>Returning means acknowledged\<close>

definition not_in_flight :: "string \<Rightarrow> world \<Rightarrow> bool" where
  "not_in_flight raw w \<longleftrightarrow> raw \<notin> set (rlists (rd (sh w)) PROCESSING_KEY)"

context redis_server begin

lemma post_ack: "post (rq_ack R raw) (\<lambda>_ w. not_in_flight raw w)"
  by (auto simp: post_def rq_ack_def perform_def call_def Let_def not_in_flight_def ack_lists
      split: fault.splits)

lemma post_process: "post (process R exec raw) (\<lambda>_ w. not_in_flight raw w)"
  unfolding process_code
  by (intro post_rules post_ack) (auto simp: run_handler_code fail_job_code split: if_splits
      intro!: post_seq post_ack)

end

end
