(* ===== verification/Trainer.thy ===== *)
theory Trainer imports Model_Cache Processor begin

text \<open>
  \<open>crucible_worker/trainer.py\<close>: the check of a downloaded dataset and the fine-tune. The GPU
  stack (\<open>datasets\<close>, \<open>unsloth\<close>, \<open>trl\<close>, \<open>transformers\<close>) is the parameter \<open>gpu_stack\<close>, one field per
  call the code makes, over abstract datasets, models, tokenizers and trainers; \<open>g_train\<close> gives
  the number of steps done (the callback runs after each), the outcome and the disk after it.
\<close>

definition DEFAULT_MAX_SEQ_LENGTH :: int where
  "DEFAULT_MAX_SEQ_LENGTH = 2048"

definition TARGET_MODULES :: "string list" where
  "TARGET_MODULES = [''q_proj'', ''k_proj'', ''v_proj'', ''o_proj'', ''gate_proj'', ''up_proj'', ''down_proj'']"

definition SEED :: int where
  "SEED = 3407"

definition TEXT_FIELD :: string where
  "TEXT_FIELD = ''text''"

definition FORMAT_BY_SUFFIX :: "(string \<times> string) list" where
  "FORMAT_BY_SUFFIX = [(''csv'', ''csv''), (''json'', ''json''), (''jsonl'', ''json''), (''parquet'', ''parquet'')]"

text \<open>\<open>str(sorted(xs))\<close> of a list of strings.\<close>

definition repr_list :: "string list \<Rightarrow> string" where
  "repr_list xs = ''['' @ join '', '' (map repr_str xs) @ '']''"

definition resolve_text_field :: "string list \<Rightarrow> exn + string" where
  "resolve_text_field column_names =
     (if TEXT_FIELD \<in> set column_names then Inr TEXT_FIELD
      else Inl (TrainerError (''dataset has no '' @ repr_str TEXT_FIELD @ '' column (found '' @
        repr_list (sort column_names) @ ''); v1 requires a '' @ repr_str TEXT_FIELD @
        '' column with the formatted training string'')))"

section \<open>The dataset on disk\<close>

definition suffix_of :: "path \<Rightarrow> string" where
  "suffix_of p = (case rev p of [] \<Rightarrow> [] | n # _ \<Rightarrow> strip_left (\<lambda>c. c = dot) (lower (name_suffix n)))"

definition check_formats :: "path \<Rightarrow> path list \<Rightarrow> exn + string \<times> string list" where
  "check_formats p files =
     (let suffixes = remdups (map suffix_of files);
          unknown = filter (\<lambda>s. s \<notin> set (map fst FORMAT_BY_SUFFIX)) suffixes;
          formats = remdups (map (\<lambda>s. the (map_of FORMAT_BY_SUFFIX s)) suffixes)
      in if unknown \<noteq> [] then Inl (TrainerError (''unsupported dataset file extension(s) '' @ repr_list (sort unknown) @
             '' in '' @ path_text p @ ''; supported: '' @ repr_list (sort (map fst FORMAT_BY_SUFFIX))))
         else (case formats of
             [fmt] \<Rightarrow> Inr (fmt, map path_text files)
           | _ \<Rightarrow> Inl (TrainerError (''dataset mixes multiple formats '' @ repr_list (sort formats) @ '' in '' @
               path_text p @ ''; v1 expects a single format''))))"

definition dataset_load_spec :: "path \<Rightarrow> disk \<Rightarrow> exn + string \<times> string list" where
  "dataset_load_spec p d =
     (case (if is_dir d p then Some (files_under d p) else if is_file d p then Some [p] else None) of
        None \<Rightarrow> Inl (TrainerError (''dataset path does not exist: '' @ path_text p))
      | Some files \<Rightarrow>
          if files = [] then Inl (TrainerError (''no dataset files found in '' @ path_text p))
          else check_formats p files)"

section \<open>The fine-tune\<close>

record peft_args =
  pa_r :: json
  pa_lora_alpha :: json
  pa_target_modules :: "string list"
  pa_lora_dropout :: int
  pa_bias :: string
  pa_use_gradient_checkpointing :: string
  pa_random_state :: int
  pa_max_seq_length :: int

record sft_args =
  sa_dataset_text_field :: string
  sa_max_seq_length :: int
  sa_per_device_train_batch_size :: json
  sa_gradient_accumulation_steps :: int
  sa_num_train_epochs :: json
  sa_learning_rate :: json
  sa_logging_steps :: int
  sa_optim :: string
  sa_bf16 :: bool
  sa_seed :: int
  sa_output_dir :: string
  sa_save_strategy :: string
  sa_report_to :: string
  sa_dataset_num_proc :: int

record ('ds, 'm, 't, 'tr) gpu_stack =
  g_load_dataset :: "string \<Rightarrow> string list \<Rightarrow> disk \<Rightarrow> exn + 'ds"
  g_column_names :: "'ds \<Rightarrow> string list"
  g_from_pretrained :: "string \<Rightarrow> int \<Rightarrow> bool \<Rightarrow> disk \<Rightarrow> exn + 'm \<times> 't"
  g_get_peft_model :: "'m \<Rightarrow> peft_args \<Rightarrow> exn + 'm"
  g_sft_trainer :: "'m \<Rightarrow> 't \<Rightarrow> 'ds \<Rightarrow> sft_args \<Rightarrow> disk \<Rightarrow> exn + 'tr"
  g_train :: "'tr \<Rightarrow> disk \<Rightarrow> nat \<times> (exn + 'm) \<times> disk"
  g_save_model :: "'m \<Rightarrow> path \<Rightarrow> disk \<Rightarrow> exn + disk"
  g_save_tokenizer :: "'t \<Rightarrow> path \<Rightarrow> disk \<Rightarrow> exn + disk"

definition peft_args_of :: "job \<Rightarrow> int \<Rightarrow> peft_args" where
  "peft_args_of j n = \<lparr>pa_r = lora_rank (hyperparams j), pa_lora_alpha = lora_alpha (hyperparams j),
     pa_target_modules = TARGET_MODULES, pa_lora_dropout = 0, pa_bias = ''none'',
     pa_use_gradient_checkpointing = ''unsloth'', pa_random_state = SEED, pa_max_seq_length = n\<rparr>"

definition sft_args_of :: "job \<Rightarrow> int \<Rightarrow> string \<Rightarrow> path \<Rightarrow> sft_args" where
  "sft_args_of j n text_field state_dir = \<lparr>sa_dataset_text_field = text_field, sa_max_seq_length = n,
     sa_per_device_train_batch_size = batch_size (hyperparams j), sa_gradient_accumulation_steps = 1,
     sa_num_train_epochs = epochs (hyperparams j), sa_learning_rate = learning_rate (hyperparams j),
     sa_logging_steps = 1, sa_optim = ''adamw_8bit'', sa_bf16 = True, sa_seed = SEED,
     sa_output_dir = path_text state_dir, sa_save_strategy = ''no'', sa_report_to = ''none'',
     sa_dataset_num_proc = 1\<rparr>"

definition run_training :: "('ds, 'm, 't, 'tr) gpu_stack \<Rightarrow> 'tr \<Rightarrow> heartbeat \<Rightarrow> (world, exn, 'm) prog" where
  "run_training g tr hb =
     bind (local_read (\<lambda>d. Inr (g_train g tr d))) (\<lambda>(steps, outcome, d).
       seq (for_each (\<lambda>_. hb) [0..<steps])
      (seq (local_op (\<lambda>_. Inr d))
           (lift_sum outcome)))"

type_synonym trainer = "job \<Rightarrow> string \<Rightarrow> path \<Rightarrow> path \<Rightarrow> heartbeat \<Rightarrow> (world, exn, unit) prog"

definition unsloth_train :: "('ds, 'm, 't, 'tr) gpu_stack \<Rightarrow> tmp_namer \<Rightarrow> int \<Rightarrow> trainer" where
  "unsloth_train g tmp max_seq_length j model_path ds_path output_dir hb =
     bind (local_read (dataset_load_spec ds_path)) (\<lambda>(fmt, files).
     bind (local_read (g_load_dataset g fmt files)) (\<lambda>ds.
     bind (lift_sum (resolve_text_field (g_column_names g ds))) (\<lambda>text_field.
     seq hb
    (bind (local_read (g_from_pretrained g model_path max_seq_length True)) (\<lambda>(model, tokenizer).
     bind (lift_sum (g_get_peft_model g model (peft_args_of j max_seq_length))) (\<lambda>model.
     seq hb
    (bind (with_tmp tmp (''crucible-train-'' @ uuid_str (job_id j) @ ''-'') (\<lambda>state_dir.
        bind (local_read (g_sft_trainer g model tokenizer ds (sft_args_of j max_seq_length text_field state_dir)))
          (\<lambda>tr. run_training g tr hb))) (\<lambda>model.
     seq (local_op (g_save_model g model output_dir))
    (seq (local_op (g_save_tokenizer g tokenizer output_dir))
         hb)))))))))"

section \<open>What the executor relies on\<close>

text \<open>A trainer touches the shared state only through the heartbeat and raises Python exceptions only.\<close>

locale trainer_contract =
  fixes train :: trainer
  assumes train_keeps: "state_preorder P \<Longrightarrow> ignores_disk P \<Longrightarrow> keeps P hb \<Longrightarrow> keeps P (train j m d out hb)"
    and train_raises: "raises_only (\<lambda>_. False) hb \<Longrightarrow> raises_only is_exception (train j m d out hb)"

text \<open>What is assumed of the GPU stack: it raises Python exceptions.\<close>

definition gpu_ok :: "('ds, 'm, 't, 'tr) gpu_stack \<Rightarrow> bool" where
  "gpu_ok g \<longleftrightarrow>
     (\<forall>f fs d e. g_load_dataset g f fs d = Inl e \<longrightarrow> is_exception e)
     \<and> (\<forall>p n b d e. g_from_pretrained g p n b d = Inl e \<longrightarrow> is_exception e)
     \<and> (\<forall>m a e. g_get_peft_model g m a = Inl e \<longrightarrow> is_exception e)
     \<and> (\<forall>m t ds a d e. g_sft_trainer g m t ds a d = Inl e \<longrightarrow> is_exception e)
     \<and> (\<forall>tr d n e d'. g_train g tr d = (n, Inl e, d') \<longrightarrow> is_exception e)
     \<and> (\<forall>m p d e. g_save_model g m p d = Inl e \<longrightarrow> is_exception e)
     \<and> (\<forall>t p d e. g_save_tokenizer g t p d = Inl e \<longrightarrow> is_exception e)"

lemma gpu_train_error: "gpu_ok g \<Longrightarrow> g_train g tr d = (n, Inl e, d') \<Longrightarrow> is_exception e"
  unfolding gpu_ok_def by blast

lemma gpu_errors:
  assumes "gpu_ok g"
  shows "g_load_dataset g f fs d = Inl e \<Longrightarrow> is_exception e"
    and "g_from_pretrained g p n b d = Inl e \<Longrightarrow> is_exception e"
    and "g_get_peft_model g m a = Inl e \<Longrightarrow> is_exception e"
    and "g_sft_trainer g m t ds sa d = Inl e \<Longrightarrow> is_exception e"
    and "g_save_model g m q d = Inl e \<Longrightarrow> is_exception e"
    and "g_save_tokenizer g t q d = Inl e \<Longrightarrow> is_exception e"
  using assms unfolding gpu_ok_def by - metis+

lemma load_spec_error: "dataset_load_spec p d = Inl e \<Longrightarrow> \<exists>m. e = TrainerError m"
  by (auto simp: dataset_load_spec_def check_formats_def Let_def split: option.splits if_splits list.splits)

lemma text_field_error: "resolve_text_field cs = Inl e \<Longrightarrow> \<exists>m. e = TrainerError m"
  by (auto simp: resolve_text_field_def split: if_splits)

lemma unsloth_contract:
  assumes "gpu_ok g"
  shows "trainer_contract (unsloth_train g tmp n)"
proof
  fix P :: "world \<Rightarrow> world \<Rightarrow> bool" and hb :: heartbeat and j m d out
  assume P: "state_preorder P" "ignores_disk P" "keeps P hb"
  have r: "P w w" for w using state_preorder.R_refl [OF P(1)] .
  show "keeps P (unsloth_train g tmp n j m d out hb)"
    unfolding unsloth_train_def run_training_def split_def
    by (intro state_preorder.resp_rules [OF P(1)] keeps_local_read keeps_local_op keeps_with_tmp P r)
next
  fix hb :: heartbeat and j m d out
  assume h: "raises_only (\<lambda>_. False) hb"
  then have h': "raises_only is_exception hb" by (rule ro_weaken) simp
  have rt: "raises_only is_exception (run_training g tr hb)" for tr
  proof -
    have "raises_only is_exception (lift_sum (fst (snd (g_train g tr d))))" for d
      by (intro ro_lift, cases "g_train g tr d") (auto dest: gpu_train_error [OF assms])
    moreover have "run_training g tr hb = (\<lambda>w. (seq (for_each (\<lambda>_. hb) [0..<fst (g_train g tr (disk w))])
      (seq (local_op (\<lambda>_. Inr (snd (snd (g_train g tr (disk w)))))) (lift_sum (fst (snd (g_train g tr (disk w))))))) w)"
      by (rule ext) (simp add: run_training_def bind_def local_read_def split_def)
    moreover have "raises_only is_exception (seq (for_each (\<lambda>_. hb) [0..<fst (g_train g tr d)])
      (seq (local_op (\<lambda>_. Inr (snd (snd (g_train g tr d))))) (lift_sum (fst (snd (g_train g tr d))))))" for d
      by (intro ro_seq ro_for_each h' ro_local_op calculation(1)) simp
    ultimately show ?thesis by (simp add: raises_only_def)
  qed
  show "raises_only is_exception (unsloth_train g tmp n j m d out hb)"
    unfolding unsloth_train_def split_def
    by (intro ro_bind ro_seq ro_with_tmp ro_local_read ro_local_op ro_lift h' rt)
      (auto dest: gpu_errors [OF assms] load_spec_error text_field_error)
qed

end
