(* ===== verification/Config.thy ===== *)
theory Config imports Py_Exn begin

text \<open>
  \<open>crucible_worker/config.py\<close>: the configuration read from the environment, a map from
  variable names to values.
\<close>

type_synonym environ = "string \<Rightarrow> string option"

definition REQUIRED_ENV :: "string list" where
  "REQUIRED_ENV = [''DATABASE_URL'', ''REDIS_URL'', ''GARAGE_ENDPOINT'', ''GARAGE_ACCESS_KEY'',
     ''GARAGE_SECRET_KEY'', ''GARAGE_BUCKET'']"

definition DEFAULT_MODEL_CACHE_DIR :: string where
  "DEFAULT_MODEL_CACHE_DIR = ''/var/crucible/models''"

definition DEFAULT_QUEUE_BLOCK_SECONDS :: int where
  "DEFAULT_QUEUE_BLOCK_SECONDS = 5"

definition DEFAULT_VISIBILITY_TIMEOUT_SECONDS :: int where
  "DEFAULT_VISIBILITY_TIMEOUT_SECONDS = 15 * 60"

definition DEFAULT_RECONCILE_INTERVAL_SECONDS :: int where
  "DEFAULT_RECONCILE_INTERVAL_SECONDS = 5 * 60"

definition DEFAULT_ORPHAN_GRACE_SECONDS :: int where
  "DEFAULT_ORPHAN_GRACE_SECONDS = 60"

definition DEFAULT_GPU_IDS :: "string list" where
  "DEFAULT_GPU_IDS = [''0'']"

record config =
  database_url :: string
  redis_url :: string
  garage_endpoint :: string
  garage_access_key :: string
  garage_secret_key :: string
  garage_bucket :: string
  model_cache_dir :: string
  queue_block_seconds :: int
  visibility_timeout_seconds :: int
  reconcile_interval_seconds :: int
  orphan_grace_seconds :: int
  gpu_ids :: "string list"

definition gpu_ids_env :: "environ \<Rightarrow> string \<Rightarrow> string list \<Rightarrow> exn + string list" where
  "gpu_ids_env env key dflt = (case env key of
     None \<Rightarrow> Inr dflt
   | Some raw \<Rightarrow>
       if strip_both is_space raw = [] then Inr dflt
       else let ids = map (strip_both is_space) (filter (\<lambda>part. strip_both is_space part \<noteq> []) (split_on (CHR '','') raw)) in
         if ids = [] then Inl (ConfigError (key @ '' is set but lists no GPU ids, got '' @ repr_str raw))
         else Inr ids)"

definition int_env :: "environ \<Rightarrow> string \<Rightarrow> int \<Rightarrow> exn + int" where
  "int_env env key dflt = (case env key of
     None \<Rightarrow> Inr dflt
   | Some raw \<Rightarrow>
       if raw = [] then Inr dflt
       else (case parse_int 10 raw of
           Some n \<Rightarrow> Inr n
         | None \<Rightarrow> Inl (ConfigError (key @ '' must be an integer, got '' @ repr_str raw))))"

text \<open>\<open>os.environ.get(key, default)\<close>, and the truth of \<open>os.environ.get(key)\<close>.\<close>

definition env_get :: "environ \<Rightarrow> string \<Rightarrow> string \<Rightarrow> string" where
  "env_get env key dflt = (case env key of None \<Rightarrow> dflt | Some v \<Rightarrow> v)"

definition env_present :: "environ \<Rightarrow> string \<Rightarrow> bool" where
  "env_present env key \<longleftrightarrow> env_get env key [] \<noteq> []"

definition missing_env :: "environ \<Rightarrow> string list" where
  "missing_env env = filter (\<lambda>k. \<not> env_present env k) REQUIRED_ENV"

definition load :: "environ \<Rightarrow> exn + config" where
  "load env =
     (if missing_env env \<noteq> [] then
        Inl (ConfigError (''missing required environment variables: '' @ join '', '' (missing_env env)))
      else
        case int_env env ''QUEUE_BLOCK_SECONDS'' DEFAULT_QUEUE_BLOCK_SECONDS of Inl e \<Rightarrow> Inl e | Inr block \<Rightarrow>
        case int_env env ''VISIBILITY_TIMEOUT_SECONDS'' DEFAULT_VISIBILITY_TIMEOUT_SECONDS of Inl e \<Rightarrow> Inl e | Inr vis \<Rightarrow>
        case int_env env ''RECONCILE_INTERVAL_SECONDS'' DEFAULT_RECONCILE_INTERVAL_SECONDS of Inl e \<Rightarrow> Inl e | Inr iv \<Rightarrow>
        case int_env env ''ORPHAN_GRACE_SECONDS'' DEFAULT_ORPHAN_GRACE_SECONDS of Inl e \<Rightarrow> Inl e | Inr grace \<Rightarrow>
        case gpu_ids_env env ''CRUCIBLE_GPUS'' DEFAULT_GPU_IDS of Inl e \<Rightarrow> Inl e | Inr gpus \<Rightarrow>
        Inr \<lparr>database_url = env_get env ''DATABASE_URL'' [], redis_url = env_get env ''REDIS_URL'' [],
          garage_endpoint = env_get env ''GARAGE_ENDPOINT'' [],
          garage_access_key = env_get env ''GARAGE_ACCESS_KEY'' [],
          garage_secret_key = env_get env ''GARAGE_SECRET_KEY'' [],
          garage_bucket = env_get env ''GARAGE_BUCKET'' [],
          model_cache_dir = env_get env ''MODEL_CACHE_DIR'' DEFAULT_MODEL_CACHE_DIR,
          queue_block_seconds = block, visibility_timeout_seconds = vis,
          reconcile_interval_seconds = iv, orphan_grace_seconds = grace, gpu_ids = gpus\<rparr>)"

section \<open>Reading back\<close>

lemma int_env_str_int:
  "env key = Some (str_int i) \<Longrightarrow> \<bar>i\<bar> < 10 ^ max_str_digits \<Longrightarrow> int_env env key d = Inr i"
  by (simp add: int_env_def parse_int_str_int)

lemma gpu_ids_env_join:
  assumes "env key = Some (join '','' xs)" and "xs \<noteq> []"
    and "\<forall>x \<in> set xs. x \<noteq> [] \<and> (\<forall>c \<in> set x. c \<noteq> CHR '','' \<and> \<not> is_space c)"
  shows "gpu_ids_env env key d = Inr xs"
proof -
  have s: "split_on (CHR '','') (join '','' xs) = xs"
    using assms(2,3) by (intro split_on_join) auto
  have x: "strip_both is_space x = x" if "x \<in> set xs" for x
    using assms(3) that by (intro strip_both_noop) auto
  have f: "filter (\<lambda>p. strip_both is_space p \<noteq> []) xs = xs"
    using assms(3) x by (auto intro!: filter_True)
  have m: "map (strip_both is_space) xs = xs"
    using x by (simp add: map_idI)
  obtain y ys where xs: "xs = y # ys" using assms(2) by (cases xs) auto
  obtain c cs where y: "y = c # cs" using assms(3) xs by (cases y) auto
  have "\<not> is_space c" using assms(3) xs y by auto
  then have "strip_both is_space (join '','' xs) \<noteq> []"
    unfolding xs y by (cases ys) (auto simp: strip_both_def strip_left_def strip_right_def)
  then show ?thesis
    using assms(1,2) by (simp add: gpu_ids_env_def s f m)
qed

lemma gpu_ids_env_nonempty: "gpu_ids_env env key d = Inr xs \<Longrightarrow> d \<noteq> [] \<Longrightarrow> xs \<noteq> []"
  by (auto simp: gpu_ids_env_def Let_def split: option.splits if_splits)

lemma load_InrE:
  assumes "load env = Inr c"
  obtains "missing_env env = []"
    "int_env env ''QUEUE_BLOCK_SECONDS'' DEFAULT_QUEUE_BLOCK_SECONDS = Inr (queue_block_seconds c)"
    "int_env env ''VISIBILITY_TIMEOUT_SECONDS'' DEFAULT_VISIBILITY_TIMEOUT_SECONDS = Inr (visibility_timeout_seconds c)"
    "int_env env ''RECONCILE_INTERVAL_SECONDS'' DEFAULT_RECONCILE_INTERVAL_SECONDS = Inr (reconcile_interval_seconds c)"
    "int_env env ''ORPHAN_GRACE_SECONDS'' DEFAULT_ORPHAN_GRACE_SECONDS = Inr (orphan_grace_seconds c)"
    "gpu_ids_env env ''CRUCIBLE_GPUS'' DEFAULT_GPU_IDS = Inr (gpu_ids c)"
    "database_url c = env_get env ''DATABASE_URL'' []"
  using assms by (auto simp: load_def split: sum.splits if_splits)

text \<open>The environment a configuration is written to.\<close>

definition env_of_config :: "config \<Rightarrow> environ" where
  "env_of_config c = map_of
     [(''DATABASE_URL'', database_url c), (''REDIS_URL'', redis_url c),
      (''GARAGE_ENDPOINT'', garage_endpoint c), (''GARAGE_ACCESS_KEY'', garage_access_key c),
      (''GARAGE_SECRET_KEY'', garage_secret_key c), (''GARAGE_BUCKET'', garage_bucket c),
      (''MODEL_CACHE_DIR'', model_cache_dir c),
      (''QUEUE_BLOCK_SECONDS'', str_int (queue_block_seconds c)),
      (''VISIBILITY_TIMEOUT_SECONDS'', str_int (visibility_timeout_seconds c)),
      (''RECONCILE_INTERVAL_SECONDS'', str_int (reconcile_interval_seconds c)),
      (''ORPHAN_GRACE_SECONDS'', str_int (orphan_grace_seconds c)),
      (''CRUCIBLE_GPUS'', join '','' (gpu_ids c))]"

text \<open>The configurations that can be written: required texts, plain GPU ids, integers of a size.\<close>

definition plain_gpu_id :: "string \<Rightarrow> bool" where
  "plain_gpu_id x \<longleftrightarrow> x \<noteq> [] \<and> list_all (\<lambda>c. c \<noteq> CHR '','' \<and> \<not> is_space c) x"

definition writable_config :: "config \<Rightarrow> bool" where
  "writable_config c \<longleftrightarrow>
     list_all (\<lambda>v. v \<noteq> []) [database_url c, redis_url c, garage_endpoint c, garage_access_key c,
       garage_secret_key c, garage_bucket c]
     \<and> list_all (\<lambda>n. \<bar>n\<bar> < 10 ^ max_str_digits) [queue_block_seconds c, visibility_timeout_seconds c,
       reconcile_interval_seconds c, orphan_grace_seconds c]
     \<and> gpu_ids c \<noteq> [] \<and> list_all plain_gpu_id (gpu_ids c)"

lemma env_of_config_vars:
  "env_of_config c ''DATABASE_URL'' = Some (database_url c)"
  "env_of_config c ''REDIS_URL'' = Some (redis_url c)"
  "env_of_config c ''GARAGE_ENDPOINT'' = Some (garage_endpoint c)"
  "env_of_config c ''GARAGE_ACCESS_KEY'' = Some (garage_access_key c)"
  "env_of_config c ''GARAGE_SECRET_KEY'' = Some (garage_secret_key c)"
  "env_of_config c ''GARAGE_BUCKET'' = Some (garage_bucket c)"
  "env_of_config c ''MODEL_CACHE_DIR'' = Some (model_cache_dir c)"
  "env_of_config c ''QUEUE_BLOCK_SECONDS'' = Some (str_int (queue_block_seconds c))"
  "env_of_config c ''VISIBILITY_TIMEOUT_SECONDS'' = Some (str_int (visibility_timeout_seconds c))"
  "env_of_config c ''RECONCILE_INTERVAL_SECONDS'' = Some (str_int (reconcile_interval_seconds c))"
  "env_of_config c ''ORPHAN_GRACE_SECONDS'' = Some (str_int (orphan_grace_seconds c))"
  "env_of_config c ''CRUCIBLE_GPUS'' = Some (join '','' (gpu_ids c))"
  by (simp_all add: env_of_config_def)

text \<open>C29: a configuration written to the environment loads back unchanged.\<close>

theorem load_env_of_config: "writable_config c \<Longrightarrow> load (env_of_config c) = Inr c"
proof -
  assume w: "writable_config c"
  have "missing_env (env_of_config c) = []"
    using w by (simp add: missing_env_def REQUIRED_ENV_def env_present_def env_get_def
        env_of_config_vars writable_config_def)
  moreover have "gpu_ids_env (env_of_config c) ''CRUCIBLE_GPUS'' d = Inr (gpu_ids c)" for d
    using w by (intro gpu_ids_env_join)
      (auto simp: env_of_config_vars writable_config_def plain_gpu_id_def list_all_iff)
  ultimately show ?thesis
    using w by (simp add: load_def int_env_str_int env_of_config_vars env_get_def writable_config_def)
qed

definition sample_config :: config where
  "sample_config = \<lparr>database_url = ''postgres://db'', redis_url = ''redis://r'',
     garage_endpoint = ''http://garage'', garage_access_key = ''k'', garage_secret_key = ''s'',
     garage_bucket = ''crucible'', model_cache_dir = ''/var/crucible/models'',
     queue_block_seconds = 5, visibility_timeout_seconds = 900, reconcile_interval_seconds = 300,
     orphan_grace_seconds = 60, gpu_ids = [''0'', ''1'']\<rparr>"

lemma small_int_writable: "\<bar>i\<bar> < 1000 \<Longrightarrow> \<bar>i\<bar> < 10 ^ max_str_digits" for i :: int
proof -
  assume "\<bar>i\<bar> < 1000"
  moreover have "(10 :: int) ^ 3 \<le> 10 ^ max_str_digits"
    by (rule power_increasing) (simp_all add: max_str_digits_def)
  ultimately show ?thesis by simp
qed

lemma sample_config_writable: "writable_config sample_config"
proof -
  have "plain_gpu_id ''0''" and "plain_gpu_id ''1''"
    by (simp_all add: plain_gpu_id_def is_space_def ord_of_def)
  moreover have "\<bar>n\<bar> < 10 ^ max_str_digits" if "n \<in> {5, 900, 300, 60}" for n :: int
    using that by (intro small_int_writable) auto
  from this [of 5] this [of 900] this [of 300] this [of 60] have "list_all (\<lambda>n :: int. \<bar>n\<bar> < 10 ^ max_str_digits) [5, 900, 300, 60]"
    by simp
  ultimately show ?thesis
    by (simp add: writable_config_def sample_config_def)
qed

theorem load_env_of_config_witness: "load (env_of_config sample_config) = Inr sample_config"
  using load_env_of_config [OF sample_config_writable] .

lemma strip_right_idem: "strip_right p (strip_right p s) = strip_right p s"
  by (induction s rule: rev_induct) (simp_all add: strip_right_snoc, simp add: strip_right_def)

lemma strip_left_right: "strip_left p (strip_right p (strip_left p s)) = strip_right p (strip_left p s)"
proof (rule strip_left_noop)
  show "strip_right p (strip_left p s) = [] \<or> \<not> p (hd (strip_right p (strip_left p s)))"
  proof (cases "strip_left p s")
    case (Cons c cs)
    then have c: "\<not> p c"
      by (auto simp: strip_left_def dropWhile_eq_Cons_conv)
    then have "strip_right p (c # cs) = c # strip_right p cs"
      by (induction cs rule: rev_induct) (simp_all add: strip_right_def)
    with c Cons show ?thesis by simp
  qed (simp add: strip_right_def)
qed

lemma strip_both_idem: "strip_both p (strip_both p s) = strip_both p s"
  by (simp add: strip_both_def strip_left_right strip_right_idem)

lemma gpu_ids_env_clean:
  assumes "gpu_ids_env env k [''0''] = Inr xs"
  shows "list_all (\<lambda>g. g \<noteq> [] \<and> strip_both is_space g = g) xs"
proof -
  have z: "strip_both is_space ''0'' = ''0''"
    by (rule strip_both_noop) (simp add: is_space_def ord_of_def)
  have "xs = [''0''] \<or> (\<exists>raw. xs = map (strip_both is_space) (filter (\<lambda>p. strip_both is_space p \<noteq> []) (split_on (CHR '','') raw)))"
    using assms by (auto simp: gpu_ids_env_def Let_def split: option.splits if_splits)
  then show ?thesis
    by (auto simp: list_all_iff strip_both_idem z)
qed

lemma env_error:
  "int_env env k n = Inl e \<Longrightarrow> \<exists>m. e = ConfigError m"
  "gpu_ids_env env k ids = Inl e \<Longrightarrow> \<exists>m. e = ConfigError m"
  by (auto simp: int_env_def split: option.splits if_splits)
    (auto simp: gpu_ids_env_def Let_def split: option.splits if_splits)

lemma load_error: "load env = Inl e \<Longrightarrow> \<exists>m. e = ConfigError m"
  by (simp add: load_def split: if_splits sum.splits) (auto dest: env_error)

text \<open>
  When the configuration loads, every required variable is present and not empty, and there
  is at least one GPU id, each of them non-empty and without surrounding white space; when it
  does not load, the error is a \<open>ConfigError\<close>.
\<close>

theorem load_checked:
  "case load env of
     Inl e \<Rightarrow> \<exists>m. e = ConfigError m
   | Inr c \<Rightarrow> list_all (env_present env) REQUIRED_ENV \<and> gpu_ids c \<noteq> []
       \<and> list_all (\<lambda>g. g \<noteq> [] \<and> strip_both is_space g = g) (gpu_ids c)"
proof (cases "load env")
  case (Inl e)
  then show ?thesis
    by (simp add: load_error)
next
  case (Inr c)
  then have m: "missing_env env = []" and g: "gpu_ids_env env ''CRUCIBLE_GPUS'' DEFAULT_GPU_IDS = Inr (gpu_ids c)"
    by (auto elim: load_InrE)
  have "list_all (\<lambda>g. g \<noteq> [] \<and> strip_both is_space g = g) (gpu_ids c)"
    using g unfolding DEFAULT_GPU_IDS_def by (rule gpu_ids_env_clean)
  moreover have "gpu_ids c \<noteq> []"
    using g by (auto dest: gpu_ids_env_nonempty simp: DEFAULT_GPU_IDS_def)
  moreover have "list_all (env_present env) REQUIRED_ENV"
    using m by (auto simp: missing_env_def filter_empty_conv list_all_iff)
  ultimately show ?thesis
    using Inr by simp
qed

end
