(* ===== verification/Garage.thy ===== *)
theory Garage imports Host Config begin

text \<open>
  \<open>crucible_worker/garage.py\<close> (the client both stores are built on) and the three requests the
  stores make with it. A request is one call; a listing, with all its pages, is one step.
\<close>

record boto_client =
  bc_endpoint_url :: string
  bc_access_key_id :: string
  bc_secret_access_key :: string
  bc_region_name :: string
  bc_addressing_style :: string

definition GARAGE_REGION :: string where
  "GARAGE_REGION = ''garage''"

definition build_client :: "config \<Rightarrow> boto_client" where
  "build_client cfg = \<lparr>bc_endpoint_url = garage_endpoint cfg, bc_access_key_id = garage_access_key cfg,
     bc_secret_access_key = garage_secret_key cfg, bc_region_name = GARAGE_REGION,
     bc_addressing_style = ''path''\<rparr>"

text \<open>The classes \<open>Boto3Error\<close>, \<open>BotoCoreError\<close>, \<open>ClientError\<close>, which the stores catch.\<close>

fun is_s3_error :: "exn \<Rightarrow> bool" where
  "is_s3_error (S3Error _) = True"
| "is_s3_error _ = False"

definition not_found :: exn where
  "not_found = S3Error ''An error occurred (404) when calling the HeadObject operation: Not Found''"

definition s3_fetch :: "services \<Rightarrow> string \<Rightarrow> string \<Rightarrow> (world, exn, string) prog" where
  "s3_fetch R bucket key =
     bind (call R S3Error (\<lambda>s. (s3_get (s3 R) bucket key (objects s), s)))
       (\<lambda>r. case r of None \<Rightarrow> raise not_found | Some bytes \<Rightarrow> ret bytes)"

text \<open>\<open>client.download_file\<close>: the object's bytes, then the local file.\<close>

definition s3_download :: "services \<Rightarrow> string \<Rightarrow> string \<Rightarrow> path \<Rightarrow> (world, exn, unit) prog" where
  "s3_download R bucket key target = bind (s3_fetch R bucket key) (\<lambda>bytes. local_op (write_file target bytes))"

text \<open>\<open>client.upload_file\<close>.\<close>

definition read_file :: "path \<Rightarrow> disk \<Rightarrow> exn + string" where
  "read_file p d = (case file_at d p of
     None \<Rightarrow> Inl (os_error ''[Errno 2] No such file or directory'' p) | Some bytes \<Rightarrow> Inr bytes)"

definition s3_upload :: "services \<Rightarrow> path \<Rightarrow> string \<Rightarrow> string \<Rightarrow> (world, exn, unit) prog" where
  "s3_upload R p bucket key = bind (local_read (read_file p)) (\<lambda>bytes.
     call R S3Error (\<lambda>s. ((), do_op R (PutObject bucket key bytes) s)))"

text \<open>\<open>list_objects_v2\<close> over all pages: the keys below a prefix.\<close>

definition s3_list :: "services \<Rightarrow> string \<Rightarrow> string \<Rightarrow> (world, exn, string list list) prog" where
  "s3_list R bucket p = call R S3Error (\<lambda>s. (s3_pages (s3 R) bucket p (objects s), s))"

section \<open>Rules\<close>

context guarantee begin

lemma resp_s3:
  "keeps (\<lambda>v w. G (sh v) (sh w)) (s3_download R b k t)"
  "keeps (\<lambda>v w. G (sh v) (sh w)) (s3_upload R p b k)"
  "keeps (\<lambda>v w. G (sh v) (sh w)) (s3_list R b pre)"
proof -
  have l: "keeps (\<lambda>v w. G (sh v) (sh w)) (local_op f)" for f
    by (intro keeps_local_op ignores_disk_shared G_refl)
  have r: "keeps (\<lambda>v w. G (sh v) (sh w)) (local_read f)" for f :: "disk \<Rightarrow> exn + string"
    by (intro keeps_local_read G_refl)
  show "keeps (\<lambda>v w. G (sh v) (sh w)) (s3_download R b k t)"
    unfolding s3_download_def s3_fetch_def by (intro prog_rules resp_call l) (simp add: G_refl)
  show "keeps (\<lambda>v w. G (sh v) (sh w)) (s3_upload R p b k)"
    unfolding s3_upload_def by (intro prog_rules resp_call r) (simp add: G_op del: do_op.simps)
  show "keeps (\<lambda>v w. G (sh v) (sh w)) (s3_list R b pre)"
    unfolding s3_list_def by (rule resp_call) (simp add: G_refl)
qed

end

lemma progress_local: "keeps progress (local_op f)" "keeps progress (local_read g)"
  by (intro keeps_local_op keeps_local_read ignores_disk_progress progress_refl)+

lemma progress_s3:
  "keeps progress (s3_download R b k t)" "keeps progress (s3_upload R p b k)" "keeps progress (s3_list R b pre)"
  unfolding s3_download_def s3_fetch_def s3_upload_def s3_list_def
  by (intro progress_rules progress_call progress_local)+

definition s3_or_os_error :: "exn \<Rightarrow> bool" where
  "s3_or_os_error e \<longleftrightarrow> is_s3_error e \<or> (\<exists>m. e = OSError m)"

lemma ro_s3:
  "raises_only s3_or_os_error (s3_download R b k t)" "raises_only s3_or_os_error (s3_upload R p b k)"
  "raises_only P (s3_list R b pre)"
  unfolding s3_download_def s3_fetch_def s3_upload_def s3_list_def
  by (intro ro_bind ro_call ro_option ro_ret ro_raise ro_local_op ro_local_read;
      auto simp: s3_or_os_error_def not_found_def read_file_def os_error_def
        dest: write_file_error split: option.splits)+

section \<open>Without interference\<close>

lemma s3_download_quiet:
  assumes "sched w = []"
  shows "s3_download R b k t w = (case s3_get (s3 R) b k (objects (sh w)) of
     None \<Rightarrow> (Inl not_found, w)
   | Some bytes \<Rightarrow> (case write_file t bytes (disk w) of Inl e \<Rightarrow> (Inl e, w) | Inr d \<Rightarrow> (Inr (), w\<lparr>disk := d\<rparr>)))"
  using assms by (simp add: s3_download_def s3_fetch_def bind_def call_quiet raise_def ret_def local_op_def
      split: option.split)

lemma s3_upload_quiet:
  assumes "sched w = []"
  shows "s3_upload R p b k w = (case file_at (disk w) p of
     None \<Rightarrow> (Inl (os_error ''[Errno 2] No such file or directory'' p), w)
   | Some bytes \<Rightarrow> (Inr (), w\<lparr>sh := do_op R (PutObject b k bytes) (sh w)\<rparr>))"
  using assms by (simp add: s3_upload_def bind_def call_quiet local_read_def read_file_def split: option.split)

lemma s3_list_quiet: "sched w = [] \<Longrightarrow> s3_list R b p w = (Inr (s3_pages (s3 R) b p (objects (sh w))), w)"
  by (simp add: s3_list_def call_quiet)

end
