(* ===== verification/Dataset_Store.thy ===== *)
theory Dataset_Store imports Garage Validation begin

text \<open>
  \<open>crucible_worker/dataset_store.py\<close>: fetching a dataset, a single object or everything below a
  prefix, into a local directory.
\<close>

definition download_error :: "string \<Rightarrow> exn \<Rightarrow> exn" where
  "download_error what e = DatasetDownloadError (what @ '': '' @ exn_str e)"

definition ds_download_file :: "services \<Rightarrow> string \<Rightarrow> string \<Rightarrow> path \<Rightarrow> (world, exn, path) prog" where
  "ds_download_file R bucket key local_dir =
     (let target = path_join local_dir (path_name key) in
      seq (try_except (s3_download R bucket key target) is_s3_error
            (\<lambda>e. raise (download_error (''failed to download dataset '' @ key @ '' from bucket '' @ bucket) e)))
          (ret target))"

definition ds_list_keys :: "services \<Rightarrow> string \<Rightarrow> string \<Rightarrow> (world, exn, string list) prog" where
  "ds_list_keys R bucket p =
     try_except
       (bind (s3_list R bucket p) (\<lambda>pages. ret (filter (\<lambda>k. \<not> ends_with ''/'' k) (concat pages))))
       is_s3_error
       (\<lambda>e. raise (download_error (''failed to list dataset prefix '' @ p @ '' in bucket '' @ bucket) e))"

definition ds_fetch_key :: "services \<Rightarrow> string \<Rightarrow> string \<Rightarrow> path \<Rightarrow> string \<Rightarrow> (world, exn, unit) prog" where
  "ds_fetch_key R bucket p local_dir key =
     (let target = path_join local_dir (drop (length p) key) in
      seq (local_op (mkdirs (butlast target)))
          (try_except (s3_download R bucket key target) is_s3_error
            (\<lambda>e. raise (download_error (''failed to download '' @ key @ '' from bucket '' @ bucket) e))))"

definition ds_download_prefix :: "services \<Rightarrow> string \<Rightarrow> string \<Rightarrow> path \<Rightarrow> (world, exn, path) prog" where
  "ds_download_prefix R bucket pre local_dir =
     (let p = strip_right (\<lambda>c. c = slash) pre @ ''/'' in
      bind (ds_list_keys R bucket p) (\<lambda>keys.
        if keys = [] then raise (DatasetDownloadError (''no dataset objects found under '' @ p @ '' in bucket '' @ bucket))
        else seq (for_each (ds_fetch_key R bucket p local_dir) keys) (ret local_dir)))"

definition ds_download :: "services \<Rightarrow> string \<Rightarrow> string \<Rightarrow> path \<Rightarrow> (world, exn, path) prog" where
  "ds_download R bucket ds local_dir =
     seq (local_op (mkdirs local_dir))
         (if is_single_file ds then ds_download_file R bucket ds local_dir
          else ds_download_prefix R bucket ds local_dir)"

text \<open>The protocol, and the store as \<open>from_config\<close> builds it.\<close>

type_synonym dataset_store = "string \<Rightarrow> path \<Rightarrow> (world, exn, path) prog"

record garage_dataset_store =
  gd_client :: boto_client
  gd_bucket :: string

definition dataset_store_from_config :: "config \<Rightarrow> garage_dataset_store" where
  "dataset_store_from_config cfg = \<lparr>gd_client = build_client cfg, gd_bucket = garage_bucket cfg\<rparr>"

definition gd_download :: "services \<Rightarrow> garage_dataset_store \<Rightarrow> dataset_store" where
  "gd_download R st = ds_download R (gd_bucket st)"

section \<open>On every outcome\<close>

lemmas ds_defs = ds_download_def ds_download_file_def ds_download_prefix_def ds_list_keys_def ds_fetch_key_def Let_def

context guarantee begin

lemma resp_ds_download: "keeps (\<lambda>v w. G (sh v) (sh w)) (ds_download R b p d)"
  unfolding ds_defs
  by (intro prog_rules resp_s3 keeps_local_op ignores_disk_shared G_refl)

end

lemma progress_ds_download: "keeps progress (ds_download R b p d)"
  unfolding ds_defs by (intro progress_rules progress_s3 progress_local)

lemma ro_ds_download: "raises_only is_exception (ds_download R b p d)"
proof -
  have m: "raises_only is_exception (local_op (mkdirs q))" for q
    by (rule ro_local_op) (auto dest: mkdirs_error)
  have t: "raises_only is_exception (try_except (s3_download R b k t) is_s3_error (\<lambda>e. raise (download_error x e)))"
    for k t x
    by (rule ro_try [OF ro_s3(1)]) (auto simp: s3_or_os_error_def download_error_def intro: ro_raise)
  have l: "raises_only is_exception (ds_list_keys R b q)" for q
    unfolding ds_list_keys_def
    by (rule ro_try [where Q = "\<lambda>_. False"]) (auto intro!: ro_bind ro_s3 ro_ret ro_raise simp: download_error_def)
  show ?thesis
    unfolding ds_download_def ds_download_file_def ds_download_prefix_def ds_fetch_key_def Let_def
    by (intro ro_seq ro_if ro_bind ro_for_each ro_ret ro_raise m t l) simp
qed

section \<open>Without interference\<close>

lemma ds_list_keys_quiet:
  "sched w = [] \<Longrightarrow> ds_list_keys R b p w =
     (Inr (filter (\<lambda>k. \<not> ends_with ''/'' k) (concat (s3_pages (s3 R) b p (objects (sh w))))), w)"
  by (simp add: ds_list_keys_def try_except_def bind_def s3_list_quiet ret_def)

end
