(* ===== verification/Dataset_Spec.thy ===== *)
theory Dataset_Spec imports Dataset_Store begin

text \<open>
  What a download leaves on the disk when nothing interferes: exactly the objects of the
  dataset, at the paths their keys spell, and nothing else changed.
\<close>

section \<open>Keys and relative paths\<close>

text \<open>A relative path as the registration script writes it into a key.\<close>

definition good_name :: "string \<Rightarrow> bool" where
  "good_name x \<longleftrightarrow> x \<noteq> [] \<and> x \<noteq> [dot] \<and> x \<noteq> dotdot \<and> slash \<notin> set x"

definition good_rel :: "path \<Rightarrow> bool" where
  "good_rel q \<longleftrightarrow> q \<noteq> [] \<and> list_all good_name q"

lemma good_rel_plain: "good_rel q \<Longrightarrow> plain q"
  by (auto simp: good_rel_def good_name_def plain_def list_all_iff)

lemma good_rel_butlast_plain: "good_rel q \<Longrightarrow> plain (butlast q)"
  by (rule plain_butlast [OF good_rel_plain])

lemma path_parts_posix: "good_rel q \<Longrightarrow> path_parts (posix_text q) = q"
  unfolding posix_text_def by (rule path_parts_join) (auto simp: good_rel_def good_name_def list_all_iff)

lemma posix_text_no_leading: "good_rel q \<Longrightarrow> \<not> starts_with [slash] (posix_text q)"
  by (cases q; cases "tl q"; cases "hd q")
    (auto simp: posix_text_def good_rel_def good_name_def starts_with_def)

lemma path_join_posix: "good_rel q \<Longrightarrow> path_join d (posix_text q) = d @ q"
  by (simp add: path_join_def path_parts_posix posix_text_no_leading)

lemma posix_text_inject: "good_rel q \<Longrightarrow> good_rel r \<Longrightarrow> posix_text q = posix_text r \<longleftrightarrow> q = r"
  by (metis path_parts_posix)

lemma posix_text_last: "good_rel q \<Longrightarrow> posix_text q \<noteq> [] \<and> last (posix_text q) \<noteq> slash"
proof (induction q)
  case (Cons a q)
  then have a: "a \<noteq> []" "slash \<notin> set a" by (auto simp: good_rel_def good_name_def)
  show ?case
  proof (cases q)
    case Nil
    with a show ?thesis by (auto simp: posix_text_def dest: last_in_set)
  next
    case (Cons b r)
    then have "good_rel q" using Cons.prems by (auto simp: good_rel_def)
    from Cons.IH [OF this] Cons show ?thesis by (auto simp: posix_text_def)
  qed
qed (simp add: good_rel_def)

lemma posix_text_no_trailing:
  assumes "good_rel q"
  shows "\<not> ends_with ''/'' (x @ posix_text q)"
proof -
  obtain y c where "posix_text q = y @ [c]" "c \<noteq> slash"
    using posix_text_last [OF assms] by (cases "posix_text q" rule: rev_cases) auto
  then have "x @ posix_text q = (x @ y) @ [c]" "c \<noteq> CHR ''/''"
    by (simp_all add: slash_def)
  then show ?thesis
    by (metis ends_with_snoc)
qed

section \<open>Downloading key by key\<close>

text \<open>
  After the objects at the relative paths \<open>done\<close> were fetched below \<open>dir\<close>: their bytes (\<open>get\<close>)
  are on the disk, every other file is as before, and the directories below \<open>dir\<close> are those on
  the way to the files.
\<close>

definition fetched :: "disk \<Rightarrow> path \<Rightarrow> (path \<Rightarrow> string option) \<Rightarrow> path set \<Rightarrow> disk \<Rightarrow> bool" where
  "fetched d0 dir get ready d \<longleftrightarrow>
     is_dir d dir
     \<and> (\<forall>x. plain x \<longrightarrow> file_at d x = (if \<exists>q \<in> ready. x = dir @ q then get (drop (length dir) x) else file_at d0 x))
     \<and> (\<forall>z. plain z \<and> z \<noteq> [] \<and> is_dir d (dir @ z) \<longrightarrow> (\<exists>q \<in> ready. strict_prefix z q))"

text \<open>A directory in which nothing is yet, and no file on the way to it.\<close>

definition empty_dir :: "disk \<Rightarrow> path \<Rightarrow> bool" where
  "empty_dir d dir \<longleftrightarrow> plain dir \<and> is_dir d dir \<and> (\<forall>y. prefix y dir \<longrightarrow> file_at d y = None)
     \<and> (\<forall>z. plain z \<and> z \<noteq> [] \<longrightarrow> node_at d (dir @ z) = None)"

text \<open>Paths that can be files of one tree.\<close>

definition tree_paths :: "path set \<Rightarrow> bool" where
  "tree_paths Q \<longleftrightarrow> (\<forall>q \<in> Q. good_rel q) \<and> (\<forall>q \<in> Q. \<forall>r \<in> Q. \<not> strict_prefix q r)"

lemma fetched_none: "empty_dir d dir \<Longrightarrow> fetched d dir get {} d"
  by (auto simp: fetched_def empty_dir_def is_dir_def)

lemma file_at_plain: "is_dir d x \<Longrightarrow> file_at d x = None"
  by (simp add: is_dir_def file_at_def)

lemma fetched_file:
  "fetched d0 dir get ready d \<Longrightarrow> plain x \<Longrightarrow>
     file_at d x = (if \<exists>q \<in> ready. x = dir @ q then get (drop (length dir) x) else file_at d0 x)"
  by (simp add: fetched_def)

text \<open>No file stands in the way of the directories of a new file.\<close>

lemma fetched_no_file:
  assumes e: "empty_dir d0 dir" and f: "fetched d0 dir get ready d" and t: "tree_paths (insert q ready)"
    and y: "prefix y (dir @ butlast q)"
  shows "file_at d y = None"
proof -
  have g: "good_rel q" using t by (simp add: tree_paths_def)
  have pl: "plain dir" "plain (butlast q)" "q \<noteq> []"
    using e good_rel_butlast_plain [OF g] g by (auto simp: empty_dir_def good_rel_def)
  have py: "plain y" using plain_prefix [OF y] pl by simp
  show ?thesis
  proof (cases "prefix y dir")
    case True
    moreover have "\<not> (\<exists>r \<in> ready. y = dir @ r)"
      using True t by (auto simp: tree_paths_def good_rel_def prefix_def)
    ultimately show ?thesis using fetched_file [OF f py] e by (simp add: empty_dir_def)
  next
    case False
    with y obtain z where z: "y = dir @ z" "prefix z (butlast q)" "z \<noteq> []"
      by (auto simp: prefix_append)
    then have "strict_prefix z q" using pl(3) by (blast intro: prefix_butlast_strict)
    then have "\<not> (\<exists>r \<in> ready. y = dir @ r)" using t z(1) by (auto simp: tree_paths_def)
    moreover have "file_at d0 y = None" using e z py by (auto simp: empty_dir_def file_at_def)
    ultimately show ?thesis using fetched_file [OF f py] by simp
  qed
qed

text \<open>A directory that \<open>mkdirs\<close> adds lies on the way to the one it was asked for.\<close>

lemma mkdirs_new_dir:
  assumes "mkdirs (dir @ b) d = Inr d1" and "plain dir" "plain b" "plain z"
    and "is_dir d1 (dir @ z)" and "\<not> is_dir d (dir @ z)"
  shows "prefix z b"
proof -
  have "node_at d (dir @ z) = None"
    using assms(5,6) mkdirs_keeps [OF assms(1), of "dir @ z"] by (cases "node_at d (dir @ z)") (auto simp: is_dir_def)
  then obtain ys where "prefix ys (dir @ b)" "resolve (dir @ z) = resolve ys"
    using mkdirs_adds [OF assms(1), of "dir @ z"] assms(5) by (auto simp: is_dir_def)
  then have "prefix (dir @ z) (dir @ b)"
    using plain_prefix [of ys "dir @ b"] assms(2-4) by simp
  then show ?thesis by simp
qed

lemma fetched_step:
  assumes e: "empty_dir d0 dir" and f: "fetched d0 dir get ready d"
    and t: "tree_paths (insert q ready)" and n: "q \<notin> ready" and b: "get q = Some bytes"
  obtains d1 d2 where "mkdirs (dir @ butlast q) d = Inr d1"
    and "write_file (dir @ q) bytes d1 = Inr d2" and "fetched d0 dir get (insert q ready) d2"
proof -
  have g: "good_rel q" using t by (simp add: tree_paths_def)
  have pl: "plain dir" "plain q" "plain (butlast q)" "q \<noteq> []"
    using e good_rel_plain [OF g] good_rel_butlast_plain [OF g] g by (auto simp: empty_dir_def good_rel_def)
  obtain d1 where d1: "mkdirs (dir @ butlast q) d = Inr d1"
    using mkdirs_total fetched_no_file [OF e f t] by blast
  note new = mkdirs_new_dir [OF d1 pl(1,3)]
  have tq: "dir @ q \<noteq> []" "butlast (dir @ q) = dir @ butlast q"
    using pl(4) by (simp_all add: butlast_append)
  have "\<not> is_dir d (dir @ q)"
    using f pl t by (auto simp: fetched_def tree_paths_def)
  then have "\<not> is_dir d1 (dir @ q)"
    using new [OF pl(2)] prefix_butlast_strict [of q q] pl(4) by blast
  then have w: "write_file (dir @ q) bytes d1 = Inr (set_node (dir @ q) (File bytes) d1)"
    using mkdirs_makes [OF d1] by (simp add: write_file_def tq(2))
  let ?d2 = "set_node (dir @ q) (File bytes) d1"
  have r: "resolve (dir @ q) = dir @ q" "resolve (dir @ q) \<noteq> []" using pl by simp_all
  have "node_at d1 dir = Some Dir" using f mkdirs_keeps [OF d1, of dir] by (simp add: fetched_def is_dir_def)
  then have "is_dir ?d2 dir" using r pl by (simp add: is_dir_def node_at_set_node)
  moreover have "file_at ?d2 x = (if \<exists>r \<in> insert q ready. x = dir @ r then get (drop (length dir) x) else file_at d0 x)"
    if "plain x" for x
    using that r b by (auto simp: file_at_set_node mkdirs_file_at [OF d1] fetched_file [OF f])
  moreover have "\<exists>r \<in> insert q ready. strict_prefix z r" if z: "plain z" "z \<noteq> []" "is_dir ?d2 (dir @ z)" for z
  proof (cases "is_dir d (dir @ z)")
    case True
    then show ?thesis using f z by (auto simp: fetched_def)
  next
    case False
    have "is_dir d1 (dir @ z)" using z r pl by (auto simp: is_dir_def node_at_set_node split: if_splits)
    from new [OF z(1) this False] show ?thesis using prefix_butlast_strict [of z q] pl(4) by auto
  qed
  ultimately have "fetched d0 dir get (insert q ready) ?d2" by (auto simp: fetched_def)
  with d1 w show thesis by (rule that)
qed

lemma fetch_key_step:
  assumes "sched w = []" and "empty_dir d0 dir" and "fetched d0 dir get ready (disk w)"
    and "tree_paths (insert q ready)" and "q \<notin> ready" and "get q = Some bytes"
    and "s3_get (s3 R) bucket (p @ posix_text q) (objects (sh w)) = Some bytes"
  shows "\<exists>d. ds_fetch_key R bucket p dir (p @ posix_text q) w = (Inr (), w\<lparr>disk := d\<rparr>)
    \<and> fetched d0 dir get (insert q ready) d"
proof -
  have g: "good_rel q" using assms(4) by (simp add: tree_paths_def)
  then have b: "butlast (dir @ q) = dir @ butlast q"
    by (simp add: butlast_append good_rel_def)
  obtain d1 d2 where d: "mkdirs (dir @ butlast q) (disk w) = Inr d1" "write_file (dir @ q) bytes d1 = Inr d2"
    and f: "fetched d0 dir get (insert q ready) d2"
    by (rule fetched_step [OF assms(2-6)])
  have "s3_download R bucket (p @ posix_text q) (dir @ q) (w\<lparr>disk := d1\<rparr>) = (Inr (), w\<lparr>disk := d2\<rparr>)"
    using assms(1,7) d(2) by (simp add: s3_download_quiet)
  then have "ds_fetch_key R bucket p dir (p @ posix_text q) w = (Inr (), w\<lparr>disk := d2\<rparr>)"
    using d(1) by (simp add: ds_fetch_key_def path_join_posix [OF g] b Let_def seq_def bind_def
        local_op_apply try_except_def)
  with f show ?thesis by blast
qed

lemma fetch_keys:
  assumes "empty_dir d0 dir"
    and "\<And>q. q \<in> set qs \<Longrightarrow> get q = s3_get (s3 R) bucket (p @ posix_text q) st \<and> get q \<noteq> None"
  shows "sched w = [] \<Longrightarrow> objects (sh w) = st \<Longrightarrow> fetched d0 dir get ready (disk w) \<Longrightarrow>
    tree_paths (set qs \<union> ready) \<Longrightarrow> distinct qs \<Longrightarrow> set qs \<inter> ready = {} \<Longrightarrow>
    \<exists>d. for_each (ds_fetch_key R bucket p dir) (map (\<lambda>q. p @ posix_text q) qs) w = (Inr (), w\<lparr>disk := d\<rparr>)
      \<and> fetched d0 dir get (set qs \<union> ready) d"
  using assms(2)
proof (induction qs arbitrary: w ready)
  case Nil
  then show ?case by (intro exI [of _ "disk w"]) (simp add: ret_apply)
next
  case (Cons q qs)
  obtain bytes where b: "get q = Some bytes" "s3_get (s3 R) bucket (p @ posix_text q) (objects (sh w)) = Some bytes"
    using Cons.prems(2,7) by force
  have t: "tree_paths (insert q ready)"
    using Cons.prems(4) by (auto simp: tree_paths_def)
  obtain d where d: "ds_fetch_key R bucket p dir (p @ posix_text q) w = (Inr (), w\<lparr>disk := d\<rparr>)"
      "fetched d0 dir get (insert q ready) d"
    using fetch_key_step [OF Cons.prems(1) assms(1) Cons.prems(3) t _ b] Cons.prems(6) by auto
  have p7: "get x = s3_get (s3 R) bucket (p @ posix_text x) st \<and> get x \<noteq> None" if "x \<in> set qs" for x
    by (rule Cons.prems(7)) (use that in simp)
  have "\<exists>d'. for_each (ds_fetch_key R bucket p dir) (map (\<lambda>q. p @ posix_text q) qs) (w\<lparr>disk := d\<rparr>)
      = (Inr (), w\<lparr>disk := d\<rparr>\<lparr>disk := d'\<rparr>) \<and> fetched d0 dir get (set qs \<union> insert q ready) d'"
    by (rule Cons.IH [OF _ _ _ _ _ _ p7]) (use Cons.prems(1-6) d in auto)
  then show ?case
    using d(1) by (auto simp: seq_def bind_def)
qed

text \<open>What the listing of a prefix returns: one key per relative path of the dataset.\<close>

lemma listed_paths:
  assumes "s3_server S" and "tree_paths Q"
    and "{k. s3_get S b k st \<noteq> None \<and> starts_with p k \<and> \<not> ends_with ''/'' k} = (\<lambda>q. p @ posix_text q) ` Q"
  obtains qs where "filter (\<lambda>k. \<not> ends_with ''/'' k) (concat (s3_pages S b p st)) = map (\<lambda>q. p @ posix_text q) qs"
    and "set qs = Q" and "distinct qs"
proof -
  let ?keys = "filter (\<lambda>k. \<not> ends_with ''/'' k) (concat (s3_pages S b p st))"
  let ?rel = "\<lambda>k. path_parts (drop (length p) k)"
  have "set (concat (s3_pages S b p st)) = {k. s3_get S b k st \<noteq> None \<and> starts_with p k}"
    by (rule s3_server.pages_doc [OF assms(1)])
  then have "set ?keys = {k. s3_get S b k st \<noteq> None \<and> starts_with p k \<and> \<not> ends_with ''/'' k}"
    unfolding set_filter by blast
  with assms(3) have keys: "set ?keys = (\<lambda>q. p @ posix_text q) ` Q" by simp
  have fwd: "?rel (p @ posix_text q) = q" if "q \<in> Q" for q
    using assms(2) that by (simp add: tree_paths_def path_parts_posix)
  have inv: "p @ posix_text (?rel k) = k \<and> ?rel k \<in> Q" if "k \<in> set ?keys" for k
    using that fwd unfolding keys by auto
  have "map (\<lambda>q. p @ posix_text q) (map ?rel ?keys) = ?keys"
    unfolding map_map by (rule map_idI) (use inv in \<open>simp add: o_def\<close>)
  moreover have "set (map ?rel ?keys) = Q"
    unfolding set_map keys using fwd by (auto simp: image_iff)
  moreover have "distinct (map ?rel ?keys)"
  proof -
    have "distinct ?keys" using s3_server.pages_distinct_doc [OF assms(1)] by (rule distinct_filter)
    moreover have "inj_on ?rel (set ?keys)" using inv by (metis (no_types, lifting) inj_onI)
    ultimately show ?thesis by (simp only: distinct_map)
  qed
  ultimately show thesis
    by (metis that)
qed

section \<open>Properties\<close>

lemma mkdirs_existing:
  "(\<And>y. prefix y xs \<Longrightarrow> y \<noteq> [] \<Longrightarrow> is_dir d (p @ y)) \<Longrightarrow> mkdir_onto full p xs d = Inr d"
proof (induction xs arbitrary: p)
  case (Cons x xs)
  have "is_dir d (p @ [x])" using Cons.prems [of "[x]"] by simp
  moreover have "mkdir_onto full (p @ [x]) xs d = Inr d"
    by (rule Cons.IH) (use Cons.prems in \<open>metis append_Cons append_Nil append_assoc list.distinct(1) prefix_Cons prefix_code(3) same_prefix_prefix\<close>)
  ultimately show ?case by (simp add: is_dir_def)
qed simp

text \<open>An empty directory whose ancestors exist.\<close>

definition ready_dir :: "disk \<Rightarrow> path \<Rightarrow> bool" where
  "ready_dir d dir \<longleftrightarrow> plain dir \<and> (\<forall>y. prefix y dir \<longrightarrow> is_dir d y)
     \<and> (\<forall>z. plain z \<and> z \<noteq> [] \<longrightarrow> node_at d (dir @ z) = None)"

lemma ready_dir_empty: "ready_dir d dir \<Longrightarrow> empty_dir d dir \<and> mkdirs dir d = Inr d"
  by (auto simp: ready_dir_def empty_dir_def mkdirs_def intro!: mkdirs_existing file_at_plain)

lemma download_prefix_quiet:
  assumes "s3_server (s3 R)" and "sched w = []" and "ready_dir (disk w) dir" and "\<not> is_single_file ds"
    and "p = strip_right (\<lambda>c. c = slash) ds @ ''/''" and "tree_paths Q" and "Q \<noteq> {}"
    and "{k. s3_get (s3 R) bucket k (objects (sh w)) \<noteq> None \<and> starts_with p k \<and> \<not> ends_with ''/'' k}
      = (\<lambda>q. p @ posix_text q) ` Q"
  shows "\<exists>d. ds_download R bucket ds dir w = (Inr dir, w\<lparr>disk := d\<rparr>)
    \<and> (\<forall>q \<in> Q. file_at d (dir @ q) = s3_get (s3 R) bucket (p @ posix_text q) (objects (sh w)))
    \<and> (\<forall>x. plain x \<and> x \<notin> (\<lambda>q. dir @ q) ` Q \<longrightarrow> file_at d x = file_at (disk w) x)"
proof -
  let ?get = "\<lambda>q. s3_get (s3 R) bucket (p @ posix_text q) (objects (sh w))"
  have e: "empty_dir (disk w) dir" and m: "mkdirs dir (disk w) = Inr (disk w)"
    using ready_dir_empty [OF assms(3)] by simp_all
  obtain qs where qs: "filter (\<lambda>k. \<not> ends_with ''/'' k) (concat (s3_pages (s3 R) bucket p (objects (sh w)))) = map (\<lambda>q. p @ posix_text q) qs"
    "set qs = Q" "distinct qs"
    by (rule listed_paths [OF assms(1,6,8)])
  have stored: "?get q \<noteq> None" if "q \<in> Q" for q
  proof -
    have "p @ posix_text q \<in> {k. s3_get (s3 R) bucket k (objects (sh w)) \<noteq> None \<and> starts_with p k \<and> \<not> ends_with ''/'' k}"
      unfolding assms(8) using that by (rule imageI)
    then show ?thesis by simp
  qed
  obtain d where d: "for_each (ds_fetch_key R bucket p dir) (map (\<lambda>q. p @ posix_text q) qs) w = (Inr (), w\<lparr>disk := d\<rparr>)"
      "fetched (disk w) dir ?get (set qs \<union> {}) d"
    using fetch_keys [OF e, of qs ?get R bucket p "objects (sh w)" w "{}"] stored qs assms(2,6) fetched_none [OF e]
    by auto
  have "ds_download R bucket ds dir w = (Inr dir, w\<lparr>disk := d\<rparr>)"
    using assms(2,4,7) m qs(2) d(1)
    by (auto simp: ds_download_def ds_download_prefix_def assms(5) [symmetric] Let_def seq_def bind_def local_op_def
        ds_list_keys_quiet qs(1) ret_apply)
  moreover have "file_at d (dir @ q) = ?get q" if "q \<in> Q" for q
  proof -
    have "plain (dir @ q)"
      using that assms(3,6) by (auto simp: ready_dir_def tree_paths_def intro: good_rel_plain)
    then show ?thesis using d(2) qs(2) that by (auto simp: fetched_def)
  qed
  moreover have "file_at d x = file_at (disk w) x" if "plain x" "x \<notin> (\<lambda>q. dir @ q) ` Q" for x
    using d(2) qs(2) that by (auto simp: fetched_def)
  ultimately show ?thesis by blast
qed

text \<open>
  C26: downloading a prefix dataset into an empty directory gives exactly its objects: the
  directory is returned, each object's bytes are in the file its key spells below it, and no
  other file of the disk and nothing of the shared state changed.
\<close>

theorem download_prefix_exact:
  assumes "s3_server (s3 R)" and "sched w = []" and "ready_dir (disk w) dir" and "\<not> is_single_file ds"
    and "p = strip_right (\<lambda>c. c = slash) ds @ ''/''" and "tree_paths Q" and "Q \<noteq> {}"
    and "{k. s3_get (s3 R) bucket k (objects (sh w)) \<noteq> None \<and> starts_with p k \<and> \<not> ends_with ''/'' k}
      = (\<lambda>q. p @ posix_text q) ` Q"
  shows "\<exists>d. ds_download R bucket ds dir w = (Inr dir, w\<lparr>disk := d\<rparr>)
    \<and> (\<forall>q \<in> Q. file_at d (dir @ q) = s3_get (s3 R) bucket (p @ posix_text q) (objects (sh w)))
    \<and> (\<forall>x. plain x \<and> x \<notin> (\<lambda>q. dir @ q) ` Q \<longrightarrow> file_at d x = file_at (disk w) x)"
  using assms by (rule download_prefix_quiet)

definition store_world :: "object_store \<Rightarrow> disk \<Rightarrow> world" where
  "store_world st d = \<lparr>sh = \<lparr>jobs = [], reg = \<lparr>datasets = [], next_dataset_id = 1, models = [], next_model_id = 2\<rparr>, rd = \<lparr>rlists = (\<lambda>_. []), rhashes = (\<lambda>_. None)\<rparr>,
     objects = st, clock = 100\<rparr>, sched = [], disk = d, stop = False\<rparr>"

lemma store_world_simps [simp]:
  "objects (sh (store_world st d)) = st" "disk (store_world st d) = d" "sched (store_world st d) = []"
  by (simp_all add: store_world_def)

definition sample_store :: object_store where
  "sample_store = [((''crucible'', ''datasets/d/v/a.csv''), ''1''), ((''crucible'', ''datasets/d/v/s/b.csv''), ''2''),
     ((''crucible'', ''datasets/d/w.csv''), ''3'')]"

definition sample_disk :: disk where
  "sample_disk = [([''tmp''], Dir), ([''tmp'', ''x''], Dir)]"

lemma reference_services_s3: "s3_server (s3 reference_services)"
  by (simp add: reference_services_def s3_server_reference)

lemma reference_get: "s3_get (s3 reference_services) b k st = map_of st (b, k)"
  by (simp add: reference_services_def reference_s3_def)

lemma sample_ready: "ready_dir sample_disk [''tmp'', ''x'']"
proof -
  have "plain [''tmp'', ''x'']" by (simp add: plain_def dotdot_def)
  moreover have "is_dir sample_disk y" if "prefix y [''tmp'', ''x'']" for y
  proof -
    have "y = [] \<or> y = [''tmp''] \<or> y = [''tmp'', ''x'']"
      using that by (auto simp: prefix_Cons)
    then show ?thesis by (auto simp: is_dir_def node_at_def sample_disk_def plain_def dotdot_def)
  qed
  moreover have "node_at sample_disk ([''tmp'', ''x''] @ z) = None" if "plain z" "z \<noteq> []" for z
  proof -
    have "resolve ([''tmp'', ''x''] @ z) = [''tmp'', ''x''] @ z"
      using that(1) by (intro resolve_plain) (simp add: plain_def dotdot_def)
    then show ?thesis using that(2) by (simp add: node_at_def sample_disk_def)
  qed
  ultimately show ?thesis by (simp add: ready_dir_def)
qed

lemma sample_prefix:
  "{k. s3_get (s3 reference_services) ''crucible'' k sample_store \<noteq> None \<and> starts_with ''datasets/d/v/'' k \<and> \<not> ends_with ''/'' k}
    = (\<lambda>q. ''datasets/d/v/'' @ posix_text q) ` {[''a.csv''], [''s'', ''b.csv'']}"
proof -
  have k: "s3_get (s3 reference_services) ''crucible'' k sample_store \<noteq> None
      \<longleftrightarrow> k \<in> {''datasets/d/v/a.csv'', ''datasets/d/v/s/b.csv'', ''datasets/d/w.csv''}" for k
    by (auto simp: reference_get sample_store_def)
  have "(\<lambda>q. ''datasets/d/v/'' @ posix_text q) ` {[''a.csv''], [''s'', ''b.csv'']}
      = {''datasets/d/v/a.csv'', ''datasets/d/v/s/b.csv''}"
    by (simp add: posix_text_def slash_def)
  moreover have "starts_with ''datasets/d/v/'' ''datasets/d/v/a.csv''" "starts_with ''datasets/d/v/'' ''datasets/d/v/s/b.csv''"
    "\<not> starts_with ''datasets/d/v/'' ''datasets/d/w.csv''"
    "\<not> ends_with ''/'' ''datasets/d/v/a.csv''" "\<not> ends_with ''/'' ''datasets/d/v/s/b.csv''"
    by code_simp+
  ultimately show ?thesis
    unfolding k by auto
qed

lemma sample_tree: "tree_paths {[''a.csv''], [''s'', ''b.csv'']}"
  by (simp add: tree_paths_def good_rel_def good_name_def dot_def dotdot_def slash_def strict_prefix_def)

theorem download_prefix_exact_witness:
  "\<exists>d. ds_download reference_services ''crucible'' ''datasets/d/v'' [''tmp'', ''x''] (store_world sample_store sample_disk)
       = (Inr [''tmp'', ''x''], store_world sample_store sample_disk\<lparr>disk := d\<rparr>)
     \<and> file_at d [''tmp'', ''x'', ''s'', ''b.csv''] = Some ''2''"
proof -
  have "\<not> is_single_file ''datasets/d/v''" by code_simp
  moreover have "''datasets/d/v/'' = strip_right (\<lambda>c. c = slash) ''datasets/d/v'' @ ''/''"
    by (simp add: strip_right_def slash_def)
  ultimately show ?thesis
    using download_prefix_exact [OF reference_services_s3, of "store_world sample_store sample_disk" "[''tmp'', ''x'']"
        "''datasets/d/v''" "''datasets/d/v/''" "{[''a.csv''], [''s'', ''b.csv'']}" "''crucible''"]
      sample_ready sample_tree sample_prefix
    by (auto simp: reference_get sample_store_def posix_text_def slash_def)
qed

end
