(* ===== verification/Checkpoint_Store.thy ===== *)
theory Checkpoint_Store imports Garage Dataset_Spec begin

text \<open>
  \<open>crucible_worker/checkpoint_store.py\<close>: uploading the adapter directory of a job. The
  multipart thresholds change how the bytes travel, not what is stored; they are kept as
  constants.
\<close>

definition MULTIPART_THRESHOLD :: int where
  "MULTIPART_THRESHOLD = 8 * 1024 * 1024"

definition MULTIPART_CHUNKSIZE :: int where
  "MULTIPART_CHUNKSIZE = 512 * 1024 * 1024"

definition upload_prefix :: "uuid \<Rightarrow> string" where
  "upload_prefix i = ''checkpoints/'' @ uuid_str i @ ''/''"

definition upload_one :: "services \<Rightarrow> string \<Rightarrow> string \<Rightarrow> path \<Rightarrow> path \<Rightarrow> (world, exn, unit) prog" where
  "upload_one R bucket pre local_dir p =
     (let key = pre @ posix_text (drop (length local_dir) p) in
      try_except (s3_upload R p bucket key) is_s3_error
        (\<lambda>e. raise (CheckpointUploadError (''failed to upload '' @ key @ '' to bucket '' @ bucket @ '': '' @ exn_str e))))"

definition ck_upload :: "services \<Rightarrow> string \<Rightarrow> uuid \<Rightarrow> path \<Rightarrow> (world, exn, string) prog" where
  "ck_upload R bucket i local_dir =
     (let pre = upload_prefix i in
      bind (local_read (\<lambda>d. Inr (files_under d local_dir))) (\<lambda>files.
        if files = [] then raise (CheckpointUploadError
             (''no checkpoint files produced for job '' @ uuid_str i @ '' in '' @ path_text local_dir))
        else seq (for_each (upload_one R bucket pre local_dir) files) (ret pre)))"

text \<open>The protocol, and the store as \<open>from_config\<close> builds it, with its transfer settings.\<close>

type_synonym checkpoint_store = "uuid \<Rightarrow> path \<Rightarrow> (world, exn, string) prog"

record garage_checkpoint_store =
  gc_client :: boto_client
  gc_bucket :: string
  gc_multipart_threshold :: int
  gc_multipart_chunksize :: int

definition checkpoint_store_from_config :: "config \<Rightarrow> garage_checkpoint_store" where
  "checkpoint_store_from_config cfg = \<lparr>gc_client = build_client cfg, gc_bucket = garage_bucket cfg,
     gc_multipart_threshold = MULTIPART_THRESHOLD, gc_multipart_chunksize = MULTIPART_CHUNKSIZE\<rparr>"

definition gc_upload :: "services \<Rightarrow> garage_checkpoint_store \<Rightarrow> checkpoint_store" where
  "gc_upload R st = ck_upload R (gc_bucket st)"

section \<open>On every outcome\<close>

context guarantee begin

lemma resp_ck_upload: "keeps (\<lambda>v w. G (sh v) (sh w)) (ck_upload R b i d)"
  unfolding ck_upload_def upload_one_def Let_def
  by (intro prog_rules resp_s3 keeps_local_read G_refl)

end

lemma progress_ck_upload: "keeps progress (ck_upload R b i d)"
  unfolding ck_upload_def upload_one_def Let_def
  by (intro progress_rules progress_s3 progress_local)

lemma ro_ck_upload: "raises_only is_exception (ck_upload R b i d)"
proof -
  have u: "raises_only is_exception (upload_one R b pre d p)" for pre p
    unfolding upload_one_def Let_def
    by (rule ro_try [OF ro_s3(2)]) (auto simp: s3_or_os_error_def intro: ro_raise)
  show ?thesis
    unfolding ck_upload_def Let_def
    by (intro ro_bind ro_if ro_seq ro_for_each ro_ret ro_raise u ro_local_read) simp_all
qed

section \<open>Without interference\<close>

definition upload_op :: "string \<Rightarrow> string \<Rightarrow> path \<Rightarrow> disk \<Rightarrow> path \<Rightarrow> op" where
  "upload_op bucket pre dir d p = PutObject bucket (pre @ posix_text (drop (length dir) p)) (the (file_at d p))"

lemma upload_one_quiet:
  "sched w = [] \<Longrightarrow> is_file (disk w) p \<Longrightarrow>
     upload_one R bucket pre dir p w = (Inr (), after R [upload_op bucket pre dir (disk w) p] w)"
  by (auto simp: upload_one_def Let_def try_except_def s3_upload_quiet is_file_def upload_op_def after_def)

lemma upload_all_quiet:
  "sched w = [] \<Longrightarrow> \<forall>p \<in> set ps. is_file (disk w) p \<Longrightarrow>
     for_each (upload_one R bucket pre dir) ps w = (Inr (), after R (map (upload_op bucket pre dir (disk w)) ps) w)"
proof (induction ps arbitrary: w)
  case (Cons p ps)
  have d: "disk (after R xs w) = disk w" for xs
    by (simp add: after_def)
  show ?case
    using Cons.prems Cons.IH [of "after R [upload_op bucket pre dir (disk w) p] w"]
    by (simp add: seq_Inr [where m = "upload_one R bucket pre dir p" and s = w, OF upload_one_quiet] d)
qed (simp add: ret_apply)

lemma uploads_objects:
  "objects (do_ops R (map (upload_op bucket pre dir d) ps) s) =
     fold (\<lambda>(k, v). s3_put (s3 R) bucket k v) (map (\<lambda>p. (pre @ posix_text (drop (length dir) p), the (file_at d p))) ps) (objects s)"
  "jobs (do_ops R (map (upload_op bucket pre dir d) ps) s) = jobs s"
  by (induction ps arbitrary: s) (simp_all add: upload_op_def)

lemma set_files_under: "set (files_under d dir) = {p. strict_prefix dir p \<and> (\<exists>s. (p, File s) \<in> set d)}"
proof -
  have "n \<noteq> Dir \<longleftrightarrow> (\<exists>s. n = File s)" for n by (cases n) simp_all
  then show ?thesis by (auto simp: files_under_def image_iff) force
qed

lemma files_under_iff:
  assumes "disk_wf d"
  shows "p \<in> set (files_under d dir) \<longleftrightarrow> strict_prefix dir p \<and> plain p \<and> is_file d p"
proof -
  have "(p, File s) \<in> set d \<longleftrightarrow> plain p \<and> p \<noteq> [] \<and> node_at d p = Some (File s)" for s
  proof
    assume e: "(p, File s) \<in> set d"
    with assms have "plain p" "p \<noteq> []" by (auto simp: disk_wf_def)
    with e assms show "plain p \<and> p \<noteq> [] \<and> node_at d p = Some (File s)"
      by (simp add: node_at_def disk_wf_def)
  next
    assume "plain p \<and> p \<noteq> [] \<and> node_at d p = Some (File s)"
    then show "(p, File s) \<in> set d" by (auto simp: node_at_def dest: map_of_SomeD)
  qed
  then show ?thesis
    by (auto simp: set_files_under is_file_def file_at_def strict_prefix_def split: option.splits node.splits)
qed

text \<open>The relative paths of the files below a directory, all of them spellable as keys.\<close>

definition rel_files :: "disk \<Rightarrow> path \<Rightarrow> path set" where
  "rel_files d dir = {q. dir @ q \<in> set (files_under d dir)}"

lemma files_under_rel:
  "p \<in> set (files_under d dir) \<Longrightarrow> p = dir @ drop (length dir) p \<and> drop (length dir) p \<in> rel_files d dir"
  by (auto simp: rel_files_def set_files_under strict_prefix_def prefix_def)

lemma uploaded_get:
  assumes "s3_server (s3 R)" and "\<forall>q \<in> rel_files d dir. good_rel q"
  shows "s3_get (s3 R) b k (fold (\<lambda>(k, v). s3_put (s3 R) bucket k v)
       (map (\<lambda>p. (pre @ posix_text (drop (length dir) p), the (file_at d p))) (files_under d dir)) st)
     = (if b = bucket \<and> (\<exists>q \<in> rel_files d dir. k = pre @ posix_text q)
        then Some (the (file_at d (dir @ path_parts (drop (length pre) k)))) else s3_get (s3 R) b k st)"
proof -
  let ?kvs = "map (\<lambda>p. (pre @ posix_text (drop (length dir) p), the (file_at d p))) (files_under d dir)"
  have mem: "map_of (rev ?kvs) k = (if \<exists>q \<in> rel_files d dir. k = pre @ posix_text q
      then Some (the (file_at d (dir @ path_parts (drop (length pre) k)))) else None)" for k
  proof (cases "\<exists>q \<in> rel_files d dir. k = pre @ posix_text q")
    case True
    then obtain q where q: "q \<in> rel_files d dir" "k = pre @ posix_text q" by blast
    have val: "v = the (file_at d (dir @ path_parts (drop (length pre) k)))" if "(k, v) \<in> set ?kvs" for v
    proof -
      from that obtain p where p: "p \<in> set (files_under d dir)" "k = pre @ posix_text (drop (length dir) p)"
          "v = the (file_at d p)" by auto
      with files_under_rel [OF p(1)] assms(2) show ?thesis by (simp add: path_parts_posix)
    qed
    have "k \<in> fst ` set (rev ?kvs)"
      using q by (force simp: rel_files_def image_iff)
    then have "map_of (rev ?kvs) k \<noteq> None" by (simp only: map_of_eq_None_iff not_not)
    then obtain v where v: "map_of (rev ?kvs) k = Some v" by blast
    have "(k, v) \<in> set ?kvs" using map_of_SomeD [OF v] unfolding set_rev .
    then have "v = the (file_at d (dir @ path_parts (drop (length pre) k)))" by (rule val)
    with True v show ?thesis by (simp only: if_True)
  next
    case False
    then have "k \<notin> fst ` set (rev ?kvs)"
      using files_under_rel by (force simp: image_iff)
    then have "map_of (rev ?kvs) k = None" by (simp add: map_of_eq_None_iff)
    then show ?thesis using False by (simp only: if_False)
  qed
  show ?thesis
    unfolding s3_server.puts_get [OF assms(1)] mem by auto
qed

lemma ck_upload_quiet:
  assumes "sched w = []" and "disk_wf (disk w)" and "files_under (disk w) dir \<noteq> []"
  shows "ck_upload R bucket i dir w = (Inr (upload_prefix i),
    after R (map (upload_op bucket (upload_prefix i) dir (disk w)) (files_under (disk w) dir)) w)"
proof -
  have f: "\<forall>p \<in> set (files_under (disk w) dir). is_file (disk w) p"
    using files_under_iff [OF assms(2)] by blast
  show ?thesis
    using assms(3)
    by (simp add: ck_upload_def Let_def bind_def local_read_def seq_def upload_all_quiet [OF assms(1) f] ret_apply)
qed

text \<open>
  Uploading a checkpoint stores every file of the adapter directory under the job's prefix,
  at its relative path and with its bytes, changes no other object and no row, and returns the
  prefix.
\<close>

theorem upload_exact:
  assumes "s3_server (s3 R)" and "sched w = []" and "disk_wf (disk w)"
    and "rel_files (disk w) dir \<noteq> {}" and "\<forall>q \<in> rel_files (disk w) dir. good_rel q"
  shows "let t = sh (snd (ck_upload R bucket i dir w)); pre = upload_prefix i in
    fst (ck_upload R bucket i dir w) = Inr pre
    \<and> (\<forall>q \<in> rel_files (disk w) dir.
         s3_get (s3 R) bucket (pre @ posix_text q) (objects t) = file_at (disk w) (dir @ q))
    \<and> (\<forall>b k. b \<noteq> bucket \<or> k \<notin> (\<lambda>q. pre @ posix_text q) ` rel_files (disk w) dir \<longrightarrow>
         s3_get (s3 R) b k (objects t) = s3_get (s3 R) b k (objects (sh w)))
    \<and> jobs t = jobs (sh w)"
proof -
  have ne: "files_under (disk w) dir \<noteq> []"
    using assms(4) by (auto simp: rel_files_def)
  have f: "file_at (disk w) (dir @ q) \<noteq> None" if "q \<in> rel_files (disk w) dir" for q
    using that files_under_iff [OF assms(3)] by (simp add: rel_files_def is_file_def)
  show ?thesis
    using f assms(5)
    by (auto simp: ck_upload_quiet [OF assms(2,3) ne] Let_def uploads_objects
        uploaded_get [OF assms(1,5)] path_parts_posix)
qed

definition adapter_disk :: disk where
  "adapter_disk = [([''tmp''], Dir), ([''tmp'', ''out''], Dir),
     ([''tmp'', ''out'', ''adapter.json''], File ''{}''), ([''tmp'', ''out'', ''a''], Dir),
     ([''tmp'', ''out'', ''a'', ''w.bin''], File ''xyz''), ([''other''], File ''keep'')]"

lemma adapter_disk_wf: "disk_wf adapter_disk"
  by (simp add: disk_wf_def adapter_disk_def plain_def dotdot_def)

lemma adapter_rel: "rel_files adapter_disk [''tmp'', ''out''] = {[''adapter.json''], [''a'', ''w.bin'']}"
  by (auto simp: rel_files_def set_files_under adapter_disk_def strict_prefix_def)

theorem upload_exact_witness:
  "s3_get (s3 reference_services) ''crucible'' (''checkpoints/'' @ uuid_str 1 @ ''/'' @ ''a/w.bin'')
     (objects (sh (snd (ck_upload reference_services ''crucible'' 1 [''tmp'', ''out''] (store_world [] adapter_disk)))))
    = Some ''xyz''"
proof -
  have g: "\<forall>q \<in> rel_files (disk (store_world [] adapter_disk)) [''tmp'', ''out'']. good_rel q"
    by (simp add: adapter_rel good_rel_def good_name_def dot_def dotdot_def slash_def)
  have "file_at adapter_disk [''tmp'', ''out'', ''a'', ''w.bin''] = Some ''xyz''"
    by (simp add: file_at_def node_at_def adapter_disk_def plain_def dotdot_def)
  then show ?thesis
    using upload_exact [OF reference_services_s3, of "store_world [] adapter_disk" "[''tmp'', ''out'']" "''crucible''" 1]
      adapter_disk_wf g by (simp add: adapter_rel Let_def posix_text_def slash_def upload_prefix_def)
qed

end
