(* ===== verification/Executor.thy ===== *)
theory Executor imports Trainer Checkpoint_Store begin

text \<open>
  \<open>crucible_worker/executor.py\<close>: the execution seam and its implementations. The stub and the
  caching executor meet the contract the processor relies on; the caching one for every
  trainer that meets the trainer's contract, as the stub trainer and the QLoRA trainer do.
\<close>

definition checkpoint_prefix :: "job \<Rightarrow> string" where
  "checkpoint_prefix j = ''checkpoints/'' @ uuid_str (job_id j) @ ''/''"

definition stub_executor :: "'s job_executor" where
  "stub_executor j m hb = seq hb (ret (checkpoint_prefix j))"

definition stub_train :: trainer where
  "stub_train j model_path ds_path output_dir hb =
     seq hb (local_op (write_file (output_dir @ [''STUB_ADAPTER.txt''])
       (''stub adapter for job '' @ uuid_str (job_id j) @ ''; replaced by the Phase 5C trainer'' @ [CHR 0x0A])))"

text \<open>\<open>CachingExecutor\<close>: a record of its injected collaborators.\<close>

record executor_parts =
  ce_cache :: model_cache
  ce_dataset_store :: dataset_store
  ce_trainer :: trainer
  ce_store :: checkpoint_store

definition caching_run :: "tmp_namer \<Rightarrow> executor_parts \<Rightarrow> executor" where
  "caching_run tmp x j m hb =
     bind (ce_cache x m) (\<lambda>model_path.
     seq hb
    (with_tmp tmp (''crucible-data-'' @ uuid_str (job_id j) @ ''-'') (\<lambda>data_tmp.
     with_tmp tmp (''crucible-out-'' @ uuid_str (job_id j) @ ''-'') (\<lambda>output_dir.
       bind (ce_dataset_store x (dataset_path j) data_tmp) (\<lambda>ds.
       seq hb
      (seq (ce_trainer x j model_path ds output_dir hb)
           (ce_store x (job_id j) output_dir)))))))"

text \<open>Over the Garage stores and the model cache, for any trainer.\<close>

definition caching_executor :: "services \<Rightarrow> string \<Rightarrow> hub \<Rightarrow> string \<Rightarrow> tmp_namer \<Rightarrow> trainer \<Rightarrow> executor" where
  "caching_executor R bucket hub cache_dir tmp train =
     caching_run tmp \<lparr>ce_cache = mc_ensure hub cache_dir, ce_dataset_store = ds_download R bucket,
       ce_trainer = train, ce_store = ck_upload R bucket\<rparr>"

lemma caching_executor_code:
  "caching_executor R bucket hub cache_dir tmp train j m hb =
     bind (mc_ensure hub cache_dir m) (\<lambda>model_path.
     seq hb
    (with_tmp tmp (''crucible-data-'' @ uuid_str (job_id j) @ ''-'') (\<lambda>data_tmp.
     with_tmp tmp (''crucible-out-'' @ uuid_str (job_id j) @ ''-'') (\<lambda>output_dir.
       bind (ds_download R bucket (dataset_path j) data_tmp) (\<lambda>ds.
       seq hb
      (seq (train j model_path ds output_dir hb)
           (ck_upload R bucket (job_id j) output_dir)))))))"
  by (simp only: caching_executor_def caching_run_def executor_parts.select_convs)

text \<open>The executor \<open>main.py\<close> builds: the Garage stores, the model cache and the QLoRA trainer.\<close>

definition production_executor ::
  "services \<Rightarrow> config \<Rightarrow> hub \<Rightarrow> tmp_namer \<Rightarrow> ('ds, 'm, 't, 'tr) gpu_stack \<Rightarrow> executor" where
  "production_executor R cfg hub tmp g =
     caching_run tmp \<lparr>ce_cache = hf_ensure hub \<lparr>hf_cache_dir = model_cache_dir cfg\<rparr>,
       ce_dataset_store = gd_download R (dataset_store_from_config cfg),
       ce_trainer = unsloth_train g tmp DEFAULT_MAX_SEQ_LENGTH,
       ce_store = gc_upload R (checkpoint_store_from_config cfg)\<rparr>"

lemma production_executor_code:
  "production_executor R cfg hub tmp g =
     caching_executor R (garage_bucket cfg) hub (model_cache_dir cfg) tmp (unsloth_train g tmp DEFAULT_MAX_SEQ_LENGTH)"
  by (simp add: production_executor_def caching_executor_def hf_ensure_def gd_download_def gc_upload_def
      dataset_store_from_config_def checkpoint_store_from_config_def)

section \<open>The contracts\<close>

interpretation stub: executor_contract R stub_executor for R
proof (unfold_locales, goal_cases)
  case (1 G hb j m)
  then show ?case
    unfolding stub_executor_def by (intro guarantee.prog_rules [OF 1(1)])
next
  case (2 hb j m)
  then show ?case
    unfolding stub_executor_def by (intro progress_rules)
next
  case (3 hb j m)
  then show ?case
    unfolding stub_executor_def by (intro ro_seq ro_ret) (auto elim: ro_weaken)
qed

interpretation stub_train: trainer_contract stub_train
proof (unfold_locales, goal_cases)
  case (1 P hb j m d out)
  then show ?case
    unfolding stub_train_def
    by (intro state_preorder.resp_rules [OF 1(1)] keeps_local_op) (auto intro: state_preorder.R_refl)
next
  case (2 hb j m d out)
  then show ?case
    unfolding stub_train_def by (intro ro_seq ro_local_op) (auto elim: ro_weaken dest!: write_file_error)
qed

context trainer_contract begin

lemma caching_contract:
  assumes "hub_ok hub"
  shows "executor_contract R (caching_executor R bucket hub dir tmp train)"
proof (unfold_locales, goal_cases)
  case (1 G hb j m)
  have P: "state_preorder (\<lambda>v w. G (sh v) (sh w))"
    using guarantee.G_refl [OF 1(1)] guarantee.G_trans [OF 1(1)] by unfold_locales blast+
  show ?case
    unfolding caching_executor_code
    by (intro guarantee.prog_rules [OF 1(1)] keeps_mc_ensure [OF assms] ignores_disk_shared P keeps_with_tmp
        guarantee.resp_ds_download [OF 1(1)] guarantee.resp_ck_upload [OF 1(1)] train_keeps 1(2))
next
  case (2 hb j m)
  have P: "state_preorder progress" by (rule progress.state_preorder_axioms)
  show ?case
    unfolding caching_executor_code
    by (intro progress_rules keeps_mc_ensure [OF assms] ignores_disk_progress P keeps_with_tmp
        progress_ds_download progress_ck_upload train_keeps 2)
next
  case (3 hb j m)
  have h: "raises_only is_exception hb" using 3 by (rule ro_weaken) simp
  show ?case
    unfolding caching_executor_code
    by (intro ro_bind ro_seq ro_mc_ensure [OF assms] h ro_with_tmp ro_ds_download ro_ck_upload train_raises 3)
qed

end

lemma production_contract:
  "hub_ok hub \<Longrightarrow> gpu_ok g \<Longrightarrow> executor_contract R (production_executor R cfg hub tmp g)"
  unfolding production_executor_code
  by (rule trainer_contract.caching_contract [OF unsloth_contract])

end
