(* ===== verification/Processor_Spec.thy ===== *)
theory Processor_Spec imports Processor begin

text \<open>
  The processor's behaviour branch by branch in a world without interference: which statements
  and pipelines one call of \<open>process\<close> comes to. \<open>preflight\<close> is the pure decision the run makes
  before it spends anything: a rejection, or the model to train on. The theorems about rows,
  status hashes and queues read these equations off.
\<close>

definition gate :: "(string \<Rightarrow> model_meta option) \<Rightarrow> string \<Rightarrow> string \<Rightarrow> exn + model_meta" where
  "gate allowed model path =
     (case validate_dataset_format path of Inl e \<Rightarrow> Inl e | Inr _ \<Rightarrow>
      (case allowed model of
         None \<Rightarrow> Inl (not_allowed_error model)
       | Some m \<Rightarrow> (case check_model_fits (param_count m) (vram_hint m) of
           Inl e \<Rightarrow> Inl e | Inr _ \<Rightarrow> Inr m)))"

definition preflight :: "shared \<Rightarrow> job \<Rightarrow> exn + model_meta" where
  "preflight s j = gate (\<lambda>m. db_get_model_meta m (models (reg s))) (base_model j) (dataset_path j)"

definition start_ops :: "uuid \<Rightarrow> op list" where
  "start_ops i = [MarkRunning i, Publish (uuid_str i) (status_value RUNNING) False]"

definition fail_ops :: "string \<Rightarrow> uuid \<Rightarrow> string \<Rightarrow> op list" where
  "fail_ops raw i msg = [MarkFailed i msg, Publish (uuid_str i) (status_value FAILED) True, Ack raw]"

definition complete_ops :: "string \<Rightarrow> uuid \<Rightarrow> string \<Rightarrow> op list" where
  "complete_ops raw i ckpt = [MarkCompleted i ckpt, Publish (uuid_str i) (status_value COMPLETED) True, Ack raw]"

definition failure_message :: "exn \<Rightarrow> string" where
  "failure_message e = (if is_rejection e then exn_str e else ''worker error: '' @ exn_str e)"

section \<open>One call at a time\<close>

lemma quiet_get_job:
  "sched w = [] \<Longrightarrow> db_get_job i (jobs (sh w)) = Inr v \<Longrightarrow> bind (repo_get_job R i) g w = g v w"
  by (simp add: repo_get_job_def bind_assoc quiet_query)

definition beat_ops :: "uuid \<Rightarrow> op list" where
  "beat_ops i = [Heartbeat i, Publish (uuid_str i) (status_value RUNNING) False]"

lemma heartbeat_quiet: "sched w = [] \<Longrightarrow> heartbeat_of R j w = (Inr (), after R (beat_ops (job_id j)) w)"
  by (simp add: heartbeat_of_def repo_defs quiet_rules beat_ops_def)

lemma fail_job_quiet: "sched w = [] \<Longrightarrow> fail_job R raw i msg w = (Inr (), after R (fail_ops raw i msg) w)"
  by (simp add: fail_job_code repo_defs quiet_rules fail_ops_def)

lemma models_start_ops: "reg (do_ops R (start_ops i) s) = reg s"
  by (simp add: start_ops_def)

lemma run_job_quiet:
  assumes "sched w = []" and "job_id j = i"
  shows "run_job R exec j w =
    (case preflight (sh w) j of
       Inl e \<Rightarrow> (Inl e, after R (start_ops i) w)
     | Inr m \<Rightarrow> bind (exec j m (heartbeat_of R j)) (\<lambda>ckpt.
         seq (repo_mark_completed R i ckpt) (publish R (uuid_str i) (status_value COMPLETED) True))
         (after R (start_ops i) w))"
proof -
  have q: "bind (query R (\<lambda>s. db_get_model_meta (base_model j) (models (reg s)))) g (after R (start_ops i) w)
      = g (db_get_model_meta (base_model j) (models (reg (sh w)))) (after R (start_ops i) w)" for g
    using assms(1) by (subst quiet_query) (simp_all add: models_start_ops)
  have "run_job R exec j w = seq (lift_sum (validate_dataset_format (dataset_path j)))
    (bind (query R (\<lambda>s. db_get_model_meta (base_model j) (models (reg s)))) (\<lambda>m. case m of
       None \<Rightarrow> raise (not_allowed_error (base_model j))
     | Some model \<Rightarrow> seq (lift_sum (check_model_fits (param_count model) (vram_hint model)))
        (bind (exec j model (heartbeat_of R j)) (\<lambda>ckpt.
         seq (repo_mark_completed R i ckpt) (publish R (uuid_str i) (status_value COMPLETED) True)))))
    (after R (start_ops i) w)"
    using assms(1) unfolding assms(2) [symmetric]
    by (simp add: run_job_code repo_mark_running_def publish_def quiet_seq
        repo_get_model_meta_def start_ops_def)
  also have "\<dots> = (case preflight (sh w) j of
       Inl e \<Rightarrow> (Inl e, after R (start_ops i) w)
     | Inr m \<Rightarrow> bind (exec j m (heartbeat_of R j)) (\<lambda>ckpt.
         seq (repo_mark_completed R i ckpt) (publish R (uuid_str i) (status_value COMPLETED) True))
         (after R (start_ops i) w))"
    by (auto simp: seq_lift q preflight_def gate_def raise_apply split: sum.split option.split)
  finally show ?thesis .
qed

section \<open>The branches\<close>

lemma process_malformed: "uuid_of_text raw = None \<Longrightarrow> process R exec raw = perform R (Ack raw)"
  by (simp add: process_code rq_ack_def)

lemma process_missing:
  "uuid_of_text raw = Some i \<Longrightarrow> sched w = [] \<Longrightarrow> job_at i (jobs (sh w)) = None \<Longrightarrow>
     process R exec raw w = (Inr (), after R [Ack raw] w)"
  by (simp add: process_code db_get_job_def quiet_get_job rq_ack_def quiet_perform)

lemma process_terminal:
  "uuid_of_text raw = Some i \<Longrightarrow> sched w = [] \<Longrightarrow> db_get_job i (jobs (sh w)) = Inr (Some j) \<Longrightarrow>
     job_state j \<in> TERMINAL_STATUSES \<Longrightarrow> process R exec raw w = (Inr (), after R [Ack raw] w)"
  by (simp add: process_code quiet_get_job rq_ack_def quiet_perform)

lemma process_active:
  "uuid_of_text raw = Some i \<Longrightarrow> sched w = [] \<Longrightarrow> db_get_job i (jobs (sh w)) = Inr (Some j) \<Longrightarrow>
     job_state j \<notin> TERMINAL_STATUSES \<Longrightarrow>
     process R exec raw w = try_else (run_job R exec j) (run_handler R raw i) (rq_ack R raw) w"
  by (simp add: process_code quiet_get_job)

lemma gate_rejects: "gate allowed model path = Inl e \<Longrightarrow> is_rejection e"
  by (auto simp: gate_def not_allowed_error_def unsupported_format_error_def
      validate_dataset_format_def dest!: check_model_fits_error
      split: sum.splits option.splits if_splits)

lemma preflight_rejects: "preflight s j = Inl e \<Longrightarrow> is_rejection e"
  by (simp add: preflight_def gate_rejects)

lemma process_rejected:
  assumes raw: "uuid_of_text raw = Some i" and w: "sched w = []"
    and j: "db_get_job i (jobs (sh w)) = Inr (Some j)" "job_state j \<notin> TERMINAL_STATUSES"
    and e: "preflight (sh w) j = Inl e"
  shows "process R exec raw w = (Inr (), after R (start_ops i @ fail_ops raw i (exn_str e)) w)"
proof -
  have i: "job_id j = i" using j(1) by (rule db_get_job_SomeE)
  have "run_job R exec j w = (Inl e, after R (start_ops i) w)"
    using run_job_quiet [OF w i] e by simp
  then show ?thesis
    using preflight_rejects [OF e] w
    by (simp add: process_active [OF raw w j] try_else_Inl run_handler_code fail_job_quiet)
qed

lemma process_executor_fails:
  assumes raw: "uuid_of_text raw = Some i" and w: "sched w = []"
    and j: "db_get_job i (jobs (sh w)) = Inr (Some j)" "job_state j \<notin> TERMINAL_STATUSES"
    and m: "preflight (sh w) j = Inr m"
    and x: "exec j m (heartbeat_of R j) (after R (start_ops i) w) = (Inl e, w')" "sched w' = []"
    and e: "is_exception e"
  shows "process R exec raw w = (Inr (), after R (fail_ops raw i (failure_message e)) w')"
proof -
  have i: "job_id j = i" using j(1) by (rule db_get_job_SomeE)
  have "run_job R exec j w = (Inl e, w')"
    using run_job_quiet [OF w i] m x by (simp add: bind_Inl)
  then show ?thesis
    using e x(2)
    by (simp add: process_active [OF raw w j] try_else_Inl run_handler_code fail_job_quiet failure_message_def)
qed

lemma process_completes:
  assumes raw: "uuid_of_text raw = Some i" and w: "sched w = []"
    and j: "db_get_job i (jobs (sh w)) = Inr (Some j)" "job_state j \<notin> TERMINAL_STATUSES"
    and m: "preflight (sh w) j = Inr m"
    and x: "exec j m (heartbeat_of R j) (after R (start_ops i) w) = (Inr ckpt, w')" "sched w' = []"
  shows "process R exec raw w = (Inr (), after R (complete_ops raw i ckpt) w')"
proof -
  have i: "job_id j = i" using j(1) by (rule db_get_job_SomeE)
  have "run_job R exec j w = (Inr (), after R [MarkCompleted i ckpt, Publish (uuid_str i) (status_value COMPLETED) True] w')"
    using run_job_quiet [OF w i] m x
    by (simp add: bind_Inr repo_mark_completed_def publish_def quiet_rules)
  then show ?thesis
    using x(2)
    by (simp add: process_active [OF raw w j] try_else_Inr rq_ack_def quiet_perform complete_ops_def)
qed

section \<open>What the steps come to\<close>

lemma published_status_cong: "rhashes a = rhashes b \<Longrightarrow> published_status t jid a = published_status t jid b"
  by (simp add: published_status_def live_hash_def)

lemma start_ops_jobs:
  "job_at k (jobs (do_ops R (start_ops i) s)) = map_option (\<lambda>r. if r_id r = i \<and> r_status r = QUEUED
     then r\<lparr>r_status := RUNNING, r_updated_at := clock s\<rparr> else r) (job_at k (jobs s))"
  "clock (do_ops R (start_ops i) s) = clock s"
  by (simp_all add: start_ops_def)

lemma beat_ops_jobs:
  "job_at k (jobs (do_ops R (beat_ops i) s)) = map_option (\<lambda>r. if r_id r = i \<and> r_status r = RUNNING
     then r\<lparr>r_updated_at := clock s\<rparr> else r) (job_at k (jobs s))"
  "clock (do_ops R (beat_ops i) s) = clock s"
  by (simp_all add: beat_ops_def)

lemma fail_ops_jobs:
  "job_at k (jobs (do_ops R (fail_ops raw i m) s)) = map_option (\<lambda>r. if r_id r = i \<and> r_status r = RUNNING
     then r\<lparr>r_status := FAILED, r_error_message := Some m, r_updated_at := clock s\<rparr> else r) (job_at k (jobs s))"
  by (simp add: fail_ops_def)

lemma complete_ops_jobs:
  "job_at k (jobs (do_ops R (complete_ops raw i p) s)) = map_option (\<lambda>r. if r_id r = i \<and> r_status r = RUNNING
     then r\<lparr>r_status := COMPLETED, r_checkpoint_path := Some p, r_updated_at := clock s\<rparr> else r) (job_at k (jobs s))"
  by (simp add: complete_ops_def)

context redis_server begin

lemma start_ops_lists: "rlists (rd (do_ops R (start_ops i) s)) = rlists (rd s)"
  by (simp add: start_ops_def publish_lists)

lemma fail_ops_lists:
  "rlists (rd (do_ops R (fail_ops raw i m) s)) k =
     (if k = PROCESSING_KEY then filter (\<lambda>x. x \<noteq> raw) (rlists (rd s) k) else rlists (rd s) k)"
  by (simp add: fail_ops_def publish_lists ack_lists)

lemma complete_ops_lists:
  "rlists (rd (do_ops R (complete_ops raw i p) s)) k =
     (if k = PROCESSING_KEY then filter (\<lambda>x. x \<noteq> raw) (rlists (rd s) k) else rlists (rd s) k)"
  by (simp add: complete_ops_def publish_lists ack_lists)

lemma published_after_ack: "published_status t jid (queue_ack R raw r) = published_status t jid r"
  by (rule published_status_cong) (simp add: queue_hashes)

lemma fail_ops_published:
  "published_status t (uuid_str i) (rd (do_ops R (fail_ops raw i m) s)) =
     (if t < clock s + TERMINAL_TTL_SECONDS * 1000000 then Some (status_value FAILED) else None)"
  by (simp add: fail_ops_def published_after_ack publish_terminal_lifetime)

lemma complete_ops_published:
  "published_status t (uuid_str i) (rd (do_ops R (complete_ops raw i p) s)) =
     (if t < clock s + TERMINAL_TTL_SECONDS * 1000000 then Some (status_value COMPLETED) else None)"
  by (simp add: complete_ops_def published_after_ack publish_terminal_lifetime)

end

lemma active_status: "s \<notin> TERMINAL_STATUSES \<longleftrightarrow> s = QUEUED \<or> s = RUNNING"
  by (cases s) (simp_all add: TERMINAL_STATUSES_def)

end
