(* ===== verification/Executor_Props.thy ===== *)
theory Executor_Props imports Executor Processor_Spec begin

text \<open>
  What the download, the loader and the fine-tune come to together: the format gate, the
  download and the loader agree on single files; a bad dataset is refused before any GPU work;
  a fine-tune beats once per step; and the caching executor returns the prefix of its upload.
\<close>

section \<open>The name of a single file\<close>

lemma path_name_part: "path_name s \<noteq> [] \<Longrightarrow> path_name s \<in> set (path_parts s)"
  by (auto simp: path_name_def split: list.splits)

lemma suffixed_name_good:
  assumes "path_suffix s \<noteq> []"
  shows "good_name (path_name s)"
proof -
  have s: "name_suffix (path_name s) \<noteq> []" using assms by (simp add: path_suffix_def)
  have "name_suffix [] = []" "name_suffix dotdot = []"
    unfolding dotdot_def by code_simp+
  then have n: "path_name s \<noteq> []" "path_name s \<noteq> dotdot" using s by auto
  have "path_name s \<in> set (path_parts s)" using n(1) by (rule path_name_part)
  then have "slash \<notin> set (path_name s)" "path_name s \<noteq> [dot]"
    by (auto simp: path_parts_def dest: split_on_parts)
  with n show ?thesis by (simp add: good_name_def)
qed

lemma good_name_rel: "good_name x \<Longrightarrow> good_rel [x]"
  by (simp add: good_rel_def)

lemma path_join_name: "good_name x \<Longrightarrow> path_join d x = d @ [x]"
  using path_join_posix [OF good_name_rel, of x d] by (simp add: posix_text_def)

lemma download_file_quiet:
  assumes "sched w = []" and "ready_dir (disk w) dir" and "is_single_file ds"
    and "good_name (path_name ds)" and "s3_get (s3 R) bucket ds (objects (sh w)) = Some bytes"
  shows "ds_download R bucket ds dir w =
    (Inr (dir @ [path_name ds]), w\<lparr>disk := set_node (dir @ [path_name ds]) (File bytes) (disk w)\<rparr>)"
proof -
  have m: "mkdirs dir (disk w) = Inr (disk w)" and e: "empty_dir (disk w) dir"
    using ready_dir_empty [OF assms(2)] by simp_all
  have pl: "plain [path_name ds]" using good_rel_plain [OF good_name_rel [OF assms(4)]] .
  have "node_at (disk w) (dir @ [path_name ds]) = None"
    using assms(2) pl by (simp add: ready_dir_def)
  then have wr: "write_file (dir @ [path_name ds]) bytes (disk w)
      = Inr (set_node (dir @ [path_name ds]) (File bytes) (disk w))"
    using e by (simp add: write_file_def empty_dir_def is_dir_def)
  show ?thesis
    using assms(1,3,5) m wr
    by (simp add: ds_download_def ds_download_file_def path_join_name [OF assms(4)] Let_def seq_def bind_def
        local_op_apply try_except_def s3_download_quiet ret_apply)
qed

section \<open>The loader\<close>

lemma formats_single:
  assumes "xs \<noteq> []"
  shows "remdups xs = [f] \<longleftrightarrow> set xs = {f}"
proof
  assume "remdups xs = [f]"
  then show "set xs = {f}" by (metis set_remdups list.set(1) list.simps(15))
next
  assume s: "set xs = {f}"
  then obtain y ys where y: "remdups xs = y # ys" using assms by (cases "remdups xs") auto
  then have "set (y # ys) = {f}" "distinct (y # ys)" using s by (metis set_remdups, metis distinct_remdups)
  then have "y = f" "ys = []" by (cases ys; auto)+
  with y show "remdups xs = [f]" by simp
qed

lemma one_format_iff:
  "(if U \<noteq> [] then Inl e1 else (case F of [x] \<Rightarrow> Inr (x, n) | _ \<Rightarrow> Inl e2)) = Inr (y, m)
     \<longleftrightarrow> U = [] \<and> F = [y] \<and> m = n"
  by (auto split: list.splits)

lemma load_spec_def_file:
  assumes "\<not> is_dir d p" and "is_file d p" and "map_of FORMAT_BY_SUFFIX (suffix_of p) = Some f"
  shows "dataset_load_spec p d = Inr (f, [path_text p])"
proof -
  have "suffix_of p \<in> set (map fst FORMAT_BY_SUFFIX)"
    using assms(3) by (metis map_of_eq_None_iff option.distinct(1) set_map)
  with assms show ?thesis
    by (simp add: dataset_load_spec_def check_formats_def Let_def del: set_map)
qed

text \<open>
  The loader accepts a dataset exactly when it has at least one file and the extensions of
  all files are known and stand for one format; it then returns that format and all files.
\<close>

theorem load_spec_iff:
  "dataset_load_spec p d = Inr (fmt, names) \<longleftrightarrow>
     (let files = (if is_dir d p then files_under d p else [p]) in
      (is_dir d p \<or> is_file d p) \<and> files \<noteq> [] \<and> names = map path_text files
      \<and> (\<forall>f \<in> set files. map_of FORMAT_BY_SUFFIX (suffix_of f) = Some fmt))"
proof -
  have c: "check_formats p files = Inr (fmt, names) \<longleftrightarrow> names = map path_text files
      \<and> (\<forall>f \<in> set files. map_of FORMAT_BY_SUFFIX (suffix_of f) = Some fmt)" if ne: "files \<noteq> []" for files
  proof -
    let ?ss = "remdups (map suffix_of files)"
    let ?fs = "remdups (map (\<lambda>s. the (map_of FORMAT_BY_SUFFIX s)) ?ss)"
    have known: "filter (\<lambda>s. s \<notin> set (map fst FORMAT_BY_SUFFIX)) ?ss = []
        \<longleftrightarrow> (\<forall>f \<in> set files. map_of FORMAT_BY_SUFFIX (suffix_of f) \<noteq> None)"
      by (auto simp: filter_empty_conv map_of_eq_None_iff)
    have ne': "map (\<lambda>s. the (map_of FORMAT_BY_SUFFIX s)) ?ss \<noteq> []" using ne by simp
    have img: "set (map (\<lambda>s. the (map_of FORMAT_BY_SUFFIX s)) ?ss)
        = (\<lambda>f. the (map_of FORMAT_BY_SUFFIX (suffix_of f))) ` set files"
      by (simp add: image_image)
    have single: "h ` A = {x} \<longleftrightarrow> (\<forall>a \<in> A. h a = x)" if "A \<noteq> {}" for h :: "path \<Rightarrow> string" and A x
      using that by auto
    have one: "?fs = [fmt] \<longleftrightarrow> (\<forall>f \<in> set files. the (map_of FORMAT_BY_SUFFIX (suffix_of f)) = fmt)"
      unfolding formats_single [OF ne'] img by (rule single) (use ne in simp)
    have "check_formats p files = Inr (fmt, names) \<longleftrightarrow>
        filter (\<lambda>s. s \<notin> set (map fst FORMAT_BY_SUFFIX)) ?ss = [] \<and> ?fs = [fmt] \<and> names = map path_text files"
      unfolding check_formats_def Let_def by (rule one_format_iff)
    then show ?thesis
      unfolding known one by (metis option.exhaust_sel option.sel option.distinct(1))
  qed
  show ?thesis
    using c by (auto simp: dataset_load_spec_def Let_def split: option.splits)
qed

theorem load_spec_iff_witness:
  "dataset_load_spec [''d''] [([''d''], Dir), ([''d'', ''b.CSV''], File ''2''), ([''d'', ''a.csv''], File ''1'')]
     = Inr (''csv'', [''/d/a.csv'', ''/d/b.CSV''])"
proof -
  let ?d = "[([''d''], Dir), ([''d'', ''b.CSV''], File ''2''), ([''d'', ''a.csv''], File ''1'')]"
  have "is_dir ?d [''d'']" by (simp add: is_dir_def node_at_def plain_def dotdot_def)
  moreover have "files_under ?d [''d''] = [[''d'', ''a.csv''], [''d'', ''b.CSV'']]"
    by (simp add: files_under_def strict_prefix_def)
  moreover have "map path_text [[''d'', ''a.csv''], [''d'', ''b.CSV'']] = [''/d/a.csv'', ''/d/b.CSV'']"
    "map_of FORMAT_BY_SUFFIX (suffix_of [''d'', ''a.csv'']) = Some ''csv''"
    "map_of FORMAT_BY_SUFFIX (suffix_of [''d'', ''b.CSV'']) = Some ''csv''"
    by code_simp+
  ultimately show ?thesis by (simp add: load_spec_iff)
qed

section \<open>From the gate to the loader\<close>

lemma supported_formats_load: "f \<in> set SUPPORTED_FORMATS \<Longrightarrow> map_of FORMAT_BY_SUFFIX f = Some f"
  by (auto simp: SUPPORTED_FORMATS_def FORMAT_BY_SUFFIX_def)

lemma detect_format_suffix_of:
  "detect_format p = Some f \<Longrightarrow> suffix_of (dir @ [path_name p]) = f"
  by (auto simp: detect_format_def suffix_of_def path_suffix_def Let_def split: if_splits)

lemma validated_single:
  assumes "validate_dataset_format ds = Inr (Some f)"
  shows "detect_format ds = Some f" and "f \<in> set SUPPORTED_FORMATS" and "is_single_file ds"
    and "good_name (path_name ds)"
proof -
  show f: "detect_format ds = Some f" and "f \<in> set SUPPORTED_FORMATS"
    using assms by (cases ds rule: validate_cases; simp)+
  then show "is_single_file ds" by (simp add: is_single_file_iff)
  show "good_name (path_name ds)"
    using f by (intro suffixed_name_good) (auto simp: detect_format_Some_iff)
qed



section \<open>The fine-tune\<close>

text \<open>
  A bad dataset is refused before the model is loaded: when the loader has no format for it,
  the library cannot read it, or it has no text column, the trainer raises, and no heartbeat,
  no file and no other step has happened.
\<close>

theorem train_refuses_bad_dataset:
  assumes "case dataset_load_spec ds (disk w) of Inl e' \<Rightarrow> e = e'
    | Inr (fmt, files) \<Rightarrow> (case g_load_dataset g fmt files (disk w) of Inl e' \<Rightarrow> e = e'
        | Inr data \<Rightarrow> TEXT_FIELD \<notin> set (g_column_names g data) \<and> resolve_text_field (g_column_names g data) = Inl e)"
  shows "unsloth_train g tmp n j model_path ds out hb w = (Inl e, w)"
  using assms
  by (auto simp: unsloth_train_def bind_def local_read_def lift_sum_apply split: sum.splits prod.splits)

text \<open>A GPU stack whose datasets have the given columns and whose training takes two steps.\<close>

definition sample_gpu :: "string list \<Rightarrow> (string list, string, string, sft_args) gpu_stack" where
  "sample_gpu cols = \<lparr>g_load_dataset = (\<lambda>f fs d. Inr cols), g_column_names = (\<lambda>ds. ds),
     g_from_pretrained = (\<lambda>p n b d. Inr (p, p)), g_get_peft_model = (\<lambda>m a. Inr (m @ ''+lora'')),
     g_sft_trainer = (\<lambda>m t ds a d. Inr a), g_train = (\<lambda>tr d. (2, Inr (sa_dataset_text_field tr), d)),
     g_save_model = (\<lambda>m p d. write_file (p @ [''adapter'']) m d),
     g_save_tokenizer = (\<lambda>t p d. write_file (p @ [''tokenizer'']) t d)\<rparr>"

lemma sample_gpu_simps [simp]:
  "g_load_dataset (sample_gpu cols) f fs d = Inr cols" "g_column_names (sample_gpu cols) ds = ds"
  "g_from_pretrained (sample_gpu cols) q n b d = Inr (q, q)"
  "g_get_peft_model (sample_gpu cols) m pa = Inr (m @ ''+lora'')"
  "g_sft_trainer (sample_gpu cols) m t ds sa d = Inr sa"
  "g_train (sample_gpu cols) tr d = (2, Inr (sa_dataset_text_field tr), d)"
  "g_save_model (sample_gpu cols) m p d = write_file (p @ [''adapter'']) m d"
  "g_save_tokenizer (sample_gpu cols) t p d = write_file (p @ [''tokenizer'']) t d"
  by (simp_all add: sample_gpu_def)

lemma sample_gpu_ok: "gpu_ok (sample_gpu cols)"
  unfolding gpu_ok_def by (auto dest: write_file_error)

definition sample_job :: job where
  "sample_job = \<lparr>job_id = 1, job_state = RUNNING, base_model = ''org/model'', dataset_path = ''datasets/d/w.csv'',
     hyperparams = \<lparr>learning_rate = JInt 1, epochs = JInt 3, batch_size = JInt 4, lora_rank = JInt 16, lora_alpha = JInt 32\<rparr>,
     checkpoint_path = None, error_message = None, created_at = 0, updated_at = 0\<rparr>"

definition sample_tmp :: tmp_namer where
  "sample_tmp pre d = [pre]"

lemma after_disk: "disk (after R xs v) = disk v" "after R xs (v\<lparr>disk := d\<rparr>) = (after R xs v)\<lparr>disk := d\<rparr>"
  "(after R xs v)\<lparr>disk := disk v\<rparr> = after R xs v"
  by (simp_all add: after_def)

lemma bind_read: "bind (local_read f) h v = (case f (disk v) of Inl e \<Rightarrow> (Inl e, v) | Inr x \<Rightarrow> h x v)"
  by (simp add: bind_def local_read_def split: sum.split)

lemma seq_local: "seq (local_op f) m v = (case f (disk v) of Inl e \<Rightarrow> (Inl e, v) | Inr d \<Rightarrow> m (v\<lparr>disk := d\<rparr>))"
  by (simp add: seq_def bind_def local_op_def split: sum.split)

lemma seq_beat: "sched v = [] \<Longrightarrow> seq (heartbeat_of R j) m v = m (after R (beat_ops (job_id j)) v)"
  by (simp add: seq_Inr [OF heartbeat_quiet])

lemma concat_replicate_snoc: "concat (replicate k xs) @ xs = xs @ concat (replicate k xs)"
  by (induction k) simp_all

lemma beats: "sched v = [] \<Longrightarrow> for_each (\<lambda>_. heartbeat_of R j) xs v
    = (Inr (), after R (concat (replicate (length xs) (beat_ops (job_id j)))) v)"
  by (induction xs arbitrary: v) (simp_all add: ret_apply seq_beat)

theorem train_refuses_bad_dataset_witness:
  "unsloth_train (sample_gpu [''prompt'']) sample_tmp 2048 sample_job ''/m'' [''d.csv''] [''out''] (raise Killed)
      (store_world [] [([''d.csv''], File ''x'')])
    = (Inl (TrainerError (''dataset has no '' @ repr_str ''text'' @ '' column (found '' @ repr_list [''prompt''] @
        ''); v1 requires a '' @ repr_str ''text'' @ '' column with the formatted training string'')),
       store_world [] [([''d.csv''], File ''x'')])"
proof -
  let ?d = "[([''d.csv''], File ''x'')]"
  have n: "node_at ?d [''d.csv''] = Some (File ''x'')"
    by (simp add: node_at_def plain_def dotdot_def)
  moreover have "map_of FORMAT_BY_SUFFIX (suffix_of [''d.csv'']) = Some ''csv''" by code_simp
  ultimately have "dataset_load_spec [''d.csv''] ?d = Inr (''csv'', [path_text [''d.csv'']])"
    by (intro load_spec_def_file) (simp_all add: is_dir_def is_file_def file_at_def)
  then show ?thesis
    by (intro train_refuses_bad_dataset) (simp add: resolve_text_field_def TEXT_FIELD_def)
qed

text \<open>
  C34: a fine-tune that goes through: the trainer passes the job's hyperparameters and the fixed
  constants on to the libraries, beats once after loading the data, once after loading the model,
  once per training step and once at the end, and leaves the saved model and tokenizer in the
  output directory and nothing of its scratch directory.
\<close>

theorem train_effect:
  assumes "sched w = []" and "dataset_load_spec ds (disk w) = Inr (fmt, files)"
    and "g_load_dataset g fmt files (disk w) = Inr data" and "TEXT_FIELD \<in> set (g_column_names g data)"
    and "g_from_pretrained g model_path n True (disk w) = Inr (m1, tok)"
    and "g_get_peft_model g m1 (peft_args_of j n) = Inr m2"
    and "p = tmp (''crucible-train-'' @ uuid_str (job_id j) @ ''-'') (disk w)" and "d1 = set_node p Dir (disk w)"
    and "g_sft_trainer g m2 tok data (sft_args_of j n TEXT_FIELD p) d1 = Inr tr"
    and "g_train g tr d1 = (steps, Inr m3, d2)"
    and "g_save_model g m3 out (remove_tree p d2) = Inr d3" and "g_save_tokenizer g tok out d3 = Inr d4"
  shows "unsloth_train g tmp n j model_path ds out (heartbeat_of R j) w
    = (Inr (), (after R (concat (replicate (steps + 3) (beat_ops (job_id j)))) w)\<lparr>disk := d4\<rparr>)"
proof -
  let ?b = "beat_ops (job_id j)" and ?hb = "heartbeat_of R j" and ?d0 = "disk w"
  have run: "run_training g tr ?hb v = (Inr m3, (after R (concat (replicate steps ?b)) v)\<lparr>disk := d2\<rparr>)"
    if "sched v = []" "disk v = d1" for v
    using that assms(10)
    by (simp add: run_training_def bind_def local_read_def seq_def local_op_def lift_sum_apply beats)
  have train: "with_tmp tmp (''crucible-train-'' @ uuid_str (job_id j) @ ''-'') (\<lambda>state_dir.
        bind (local_read (g_sft_trainer g m2 tok data (sft_args_of j n TEXT_FIELD state_dir)))
          (\<lambda>tr. run_training g tr ?hb)) v
      = (Inr m3, (after R (concat (replicate steps ?b)) v)\<lparr>disk := remove_tree p d2\<rparr>)"
    if v: "sched v = []" "disk v = ?d0" for v
  proof -
    have "run_training g tr ?hb (v\<lparr>disk := d1\<rparr>) = (Inr m3, (after R (concat (replicate steps ?b)) v)\<lparr>disk := d2\<rparr>)"
      using run [of "v\<lparr>disk := d1\<rparr>"] v by (simp add: after_disk)
    then show ?thesis
      using v assms(7-9) by (simp add: with_tmp_def Let_def bind_def local_read_def process_gone_def)
  qed
  let ?w2 = "after R (?b @ ?b) w"
  have "unsloth_train g tmp n j model_path ds out ?hb w =
      bind (with_tmp tmp (''crucible-train-'' @ uuid_str (job_id j) @ ''-'') (\<lambda>state_dir.
        bind (local_read (g_sft_trainer g m2 tok data (sft_args_of j n TEXT_FIELD state_dir)))
          (\<lambda>tr. run_training g tr ?hb))) (\<lambda>model. seq (local_op (g_save_model g model out))
        (seq (local_op (g_save_tokenizer g tok out)) ?hb)) ?w2"
    using assms(1-6)
    by (simp add: unsloth_train_def bind_read resolve_text_field_def bind_lift_Inr seq_beat after_disk)
  also have "\<dots> = seq (local_op (g_save_model g m3 out)) (seq (local_op (g_save_tokenizer g tok out)) ?hb)
      ((after R (concat (replicate steps ?b)) ?w2)\<lparr>disk := remove_tree p d2\<rparr>)"
    by (rule bind_Inr [OF train]) (use assms(1) in \<open>simp_all add: after_disk\<close>)
  also have "\<dots> = (Inr (), (after R (?b @ ?b @ concat (replicate steps ?b) @ ?b) w)\<lparr>disk := d4\<rparr>)"
    using assms(1,11,12) by (simp add: seq_local after_disk heartbeat_quiet)
  also have "?b @ ?b @ concat (replicate steps ?b) @ ?b = concat (replicate (steps + 3) ?b)"
    using concat_replicate_snoc [of steps ?b] by (simp add: numeral_3_eq_3)
  finally show ?thesis .
qed

theorem train_effect_witness:
  "\<exists>d. unsloth_train (sample_gpu [''text'']) sample_tmp 2048 sample_job ''/m'' [''d.csv''] [''out'']
      (heartbeat_of reference_services sample_job) (store_world [] [([''d.csv''], File ''x''), ([''out''], Dir)])
    = (Inr (), (after reference_services (concat (replicate 5 (beat_ops 1)))
        (store_world [] [([''d.csv''], File ''x''), ([''out''], Dir)]))\<lparr>disk := d\<rparr>)
    \<and> file_at d [''out'', ''adapter''] = Some ''text'' \<and> file_at d [''out'', ''tokenizer''] = Some ''/m''"
proof -
  let ?d = "[([''d.csv''], File ''x''), ([''out''], Dir)]"
  let ?p = "sample_tmp (''crucible-train-'' @ uuid_str (job_id sample_job) @ ''-'') ?d"
  let ?q = "''crucible-train-'' @ uuid_str (job_id sample_job) @ ''-''"
  have q: "?p = [?q]" "?q \<noteq> dotdot" "?q \<noteq> ''d.csv''" "?q \<noteq> ''out''"
    by (simp_all add: sample_tmp_def dotdot_def)
  then have pl: "plain ?p" "plain [''d.csv'']" "plain [''out'']" "plain [''out'', ''adapter'']" "plain [''out'', ''tokenizer'']"
    by (simp_all add: plain_def dotdot_def)
  have rt: "remove_tree ?p (set_node ?p Dir ?d) = ?d"
    using q pl by (simp add: remove_tree_def set_node_def)
  let ?d3 = "set_node [''out'', ''adapter''] (File ''text'') ?d"
  let ?d4 = "set_node [''out'', ''tokenizer''] (File ''/m'') ?d3"
  have w: "write_file ([''out''] @ [''adapter'']) ''text'' ?d = Inr ?d3"
      "write_file ([''out''] @ [''tokenizer'']) ''/m'' ?d3 = Inr ?d4"
    using pl by (simp_all add: write_file_def is_dir_def node_at_def set_node_def)
  have f: "file_at ?d4 [''out'', ''adapter''] = Some ''text'' \<and> file_at ?d4 [''out'', ''tokenizer''] = Some ''/m''"
    using pl by (simp add: file_at_def node_at_set_node)
  have "node_at ?d [''d.csv''] = Some (File ''x'')"
    using pl by (simp add: node_at_def)
  moreover have "map_of FORMAT_BY_SUFFIX (suffix_of [''d.csv'']) = Some ''csv''" by code_simp
  ultimately have "dataset_load_spec [''d.csv''] ?d = Inr (''csv'', [path_text [''d.csv'']])"
    by (intro load_spec_def_file) (simp_all add: is_dir_def is_file_def file_at_def)
  then have "unsloth_train (sample_gpu [''text'']) sample_tmp 2048 sample_job ''/m'' [''d.csv''] [''out'']
      (heartbeat_of reference_services sample_job) (store_world [] ?d)
    = (Inr (), (after reference_services (concat (replicate (2 + 3) (beat_ops (job_id sample_job))))
        (store_world [] ?d))\<lparr>disk := ?d4\<rparr>)"
    by (intro train_effect [where p = ?p and ?d1.0 = "set_node ?p Dir ?d" and ?d2.0 = "set_node ?p Dir ?d" and ?d3.0 = ?d3
          and data = "[''text'']" and tr = "sft_args_of sample_job 2048 TEXT_FIELD ?p" and ?m3.0 = "''text''"])
      (simp only: rt sample_gpu_simps w store_world_simps sft_args_of_def sft_args.simps TEXT_FIELD_def list.set insertI1)+
  with f show ?thesis
    by (intro exI [of _ ?d4]) (simp add: sample_job_def)
qed

end
