(* ===== verification/Disk_Wf.thy ===== *)
theory Disk_Wf imports Checkpoint_Store begin

text \<open>
  Well-formed disks stay well-formed: every operation of the stores keeps one entry per path and
  every parent a directory, and never removes a directory. So what is below a directory can be
  read off the disk.
\<close>

section \<open>Operations keep disks well-formed\<close>

lemma resolve_onto_snoc: "resolve_onto acc (p @ [x]) = (let r = resolve_onto acc p in if x = dotdot then butlast r else r @ [x])"
  by (induction p arbitrary: acc) (simp_all add: Let_def)

lemma resolve_snoc: "resolve (p @ [x]) = (if x = dotdot then butlast (resolve p) else resolve p @ [x])"
  by (simp add: resolve_def resolve_onto_snoc Let_def)

lemma node_at_resolve: "node_at d (resolve p) = node_at d p"
  by (simp add: node_at_def)

lemma disk_wf_entry:
  assumes "disk_wf d" and "map_of d p = Some n"
  shows "plain p \<and> p \<noteq> [] \<and> (butlast p = [] \<or> map_of d (butlast p) = Some Dir)"
  using assms by (force simp: disk_wf_def dest: map_of_SomeD)

lemma wf_parent:
  assumes "disk_wf d" and "node_at d p \<noteq> None"
  shows "is_dir d (butlast (resolve p))"
proof (cases "resolve p = []")
  case False
  then obtain n where "map_of d (resolve p) = Some n" using assms(2) by (auto simp: node_at_def)
  from disk_wf_entry [OF assms(1) this] show ?thesis
    using plain_butlast [OF plain_resolved, of p] by (auto simp: is_dir_def node_at_def)
qed simp

lemma wf_ancestors: "disk_wf d \<Longrightarrow> plain p \<Longrightarrow> node_at d p \<noteq> None \<Longrightarrow> strict_prefix y p \<Longrightarrow> is_dir d y"
proof (induction p rule: rev_induct)
  case (snoc x p)
  have p: "is_dir d p" using wf_parent [OF snoc.prems(1,3)] snoc.prems(2) by simp
  have "prefix y p" using strict_prefix_prefix_butlast [OF snoc.prems(4)] by simp
  then have "y = p \<or> strict_prefix y p" by (auto simp: strict_prefix_def)
  with p snoc show ?case by (auto simp: is_dir_def)
qed simp

lemma disk_wf_set_node:
  assumes "disk_wf d" and "resolve p \<noteq> []" and "is_dir d (butlast (resolve p))" and "n = Dir \<or> \<not> is_dir d p"
  shows "disk_wf (set_node p n d)"
proof -
  let ?r = "resolve p"
  have look: "map_of (set_node p n d) q = (if q = ?r then Some n else map_of d q)" for q
    using map_of_filter_fst [of "\<lambda>k. k \<noteq> ?r" d q] by (simp add: set_node_def)
  have parent: "butlast (fst e) = [] \<or> map_of (set_node p n d) (butlast (fst e)) = Some Dir" if "e \<in> set (set_node p n d)" for e
  proof (cases "fst e = ?r")
    case True
    have "butlast ?r \<noteq> ?r" using assms(2) by (metis append_butlast_last_id not_Cons_self2 append_self_conv)
    with True assms(3) show ?thesis
      using plain_butlast [OF plain_resolved, of p] by (auto simp: look is_dir_def node_at_def split: if_splits)
  next
    case False
    then have e: "e \<in> set d" using that by (auto simp: set_node_def)
    then have "butlast (fst e) = [] \<or> map_of d (butlast (fst e)) = Some Dir" using assms(1) by (auto simp: disk_wf_def)
    moreover have "n = Dir" if "map_of d (butlast (fst e)) = Some Dir" "butlast (fst e) = ?r"
      using assms(2,4) that by (auto simp: is_dir_def node_at_def)
    ultimately show ?thesis by (auto simp: look)
  qed
  have "distinct (map fst (set_node p n d))"
    using assms(1) by (auto simp: set_node_def disk_wf_def distinct_map inj_on_def)
  moreover have "plain (fst e) \<and> fst e \<noteq> []" if "e \<in> set (set_node p n d)" for e
    using that assms(1,2) by (auto simp: set_node_def disk_wf_def)
  ultimately show ?thesis using parent by (auto simp: disk_wf_def)
qed

lemma write_file_wf:
  assumes "disk_wf d" and "write_file p s d = Inr d'"
  shows "disk_wf d'"
proof -
  have w: "is_dir d (butlast p)" "\<not> is_dir d p" "d' = set_node p (File s) d" "resolve p \<noteq> []"
    using assms(2) write_file_InrD [OF assms(2)] by (auto simp: write_file_def split: if_splits)
  have "p \<noteq> []" using w(4) by (auto simp: resolve_def)
  then have p: "resolve p = (if last p = dotdot then butlast (resolve (butlast p)) else resolve (butlast p) @ [last p])"
    using resolve_snoc [of "butlast p" "last p"] by simp
  have "last p \<noteq> dotdot"
  proof
    assume "last p = dotdot"
    then have "is_dir d (resolve p)" using wf_parent [OF assms(1), of "butlast p"] w(1) p by (simp add: is_dir_def)
    with w(2) show False by (simp add: is_dir_def node_at_resolve)
  qed
  then have "is_dir d (butlast (resolve p))" using p w(1) by (simp add: is_dir_def node_at_resolve)
  then show ?thesis using disk_wf_set_node [OF assms(1) w(4)] w by simp
qed

lemma mkdir_onto_wf: "disk_wf d \<Longrightarrow> is_dir d p \<Longrightarrow> mkdir_onto full p xs d = Inr d' \<Longrightarrow> disk_wf d'"
proof (induction xs arbitrary: p d)
  case (Cons x xs)
  from Cons.prems(3) show ?case
  proof (cases rule: mkdir_onto_cases)
    case new
    have x: "x \<noteq> dotdot"
    proof
      assume "x = dotdot"
      then have "is_dir d (resolve (p @ [x]))"
        using wf_parent [OF Cons.prems(1), of p] Cons.prems(2) by (simp add: resolve_snoc is_dir_def)
      with new(1) show False by (simp add: is_dir_def node_at_resolve)
    qed
    have "disk_wf (set_node (p @ [x]) Dir d)"
      using disk_wf_set_node [OF Cons.prems(1) new(2)] Cons.prems(2) x
      by (simp add: resolve_snoc is_dir_def node_at_resolve)
    moreover have "is_dir (set_node (p @ [x]) Dir d) (p @ [x])" using new(2) by (simp add: is_dir_def node_at_set_node)
    ultimately show ?thesis using Cons.IH new(3) by blast
  next
    case old
    then show ?thesis using Cons.IH [OF Cons.prems(1)] by (simp add: is_dir_def)
  qed
qed simp

lemma mkdirs_wf: "disk_wf d \<Longrightarrow> mkdirs p d = Inr d' \<Longrightarrow> disk_wf d'"
  unfolding mkdirs_def by (rule mkdir_onto_wf) simp_all

section \<open>Programs keep disks well-formed\<close>

definition disk_grows :: "world \<Rightarrow> world \<Rightarrow> bool" where
  "disk_grows v w \<longleftrightarrow> (disk_wf (disk v) \<longrightarrow> disk_wf (disk w)) \<and> (\<forall>q. is_dir (disk v) q \<longrightarrow> is_dir (disk w) q)"

interpretation disk_grows: state_preorder disk_grows
  by unfold_locales (auto simp: disk_grows_def)

lemma write_file_keeps_dirs: "write_file p s d = Inr d' \<Longrightarrow> is_dir d q \<Longrightarrow> is_dir d' q"
  using node_at_cong [of q p d] write_file_node_at [of p s d d' q]
  by (simp add: is_dir_def write_file_def split: if_splits)

lemma grows_local_op:
  assumes "\<And>d d'. f d = Inr d' \<Longrightarrow> (disk_wf d \<longrightarrow> disk_wf d') \<and> (\<forall>q. is_dir d q \<longrightarrow> is_dir d' q)"
  shows "keeps disk_grows (local_op f)"
proof (rule keepsI)
  fix w
  show "disk_grows w (snd (local_op f w))"
    using assms [of "disk w"] by (cases "f (disk w)") (simp_all add: local_op_def disk_grows_def)
qed

lemma mkdirs_keeps_dirs: "mkdirs p d = Inr d' \<Longrightarrow> is_dir d q \<Longrightarrow> is_dir d' q"
  using mkdirs_keeps [of p d d' q] by (simp add: is_dir_def)

lemma grows_local: "keeps disk_grows (local_op (mkdirs p))" "keeps disk_grows (local_op (write_file p s))"
  by (intro grows_local_op, metis mkdirs_wf mkdirs_keeps_dirs) (intro grows_local_op, metis write_file_wf write_file_keeps_dirs)

lemma grows_call: "keeps disk_grows (call R mk f)"
  by (simp add: keeps_def call_def Let_def interfere_def disk_grows_def split: fault.splits)

lemma grows_download: "keeps disk_grows (ds_download R bucket ds dir)"
  unfolding ds_defs s3_download_def s3_fetch_def s3_list_def
  by (intro disk_grows.resp_rules grows_local grows_call)

section \<open>Files of a directory\<close>

lemma rel_files_wf: "disk_wf d \<Longrightarrow> plain dir \<Longrightarrow> q \<in> rel_files d dir \<longleftrightarrow> q \<noteq> [] \<and> plain q \<and> is_file d (dir @ q)"
  by (auto simp: rel_files_def files_under_iff strict_prefix_def)

lemma ready_dir_wf:
  assumes "disk_wf d" and "plain dir" and "is_dir d dir" and "\<And>q. strict_prefix dir q \<Longrightarrow> map_of d q = None"
  shows "ready_dir d dir"
proof -
  have "is_dir d y" if "prefix y dir" for y
  proof (cases "y = dir")
    case False
    with that have "strict_prefix y dir" by (simp add: strict_prefix_def)
    then show ?thesis using wf_ancestors [OF assms(1,2)] assms(3) by (simp add: is_dir_def)
  qed (simp add: assms(3))
  moreover have "node_at d (dir @ z) = None" if "plain z" "z \<noteq> []" for z
    using assms(4) [of "dir @ z"] assms(2) that by (simp add: node_at_def strict_prefix_def)
  ultimately show ?thesis using assms(2) by (simp add: ready_dir_def)
qed

lemma file_at_remove_tree:
  "p \<noteq> [] \<Longrightarrow> plain z \<Longrightarrow> file_at (remove_tree p d) z = (if prefix p z then None else file_at d z)"
  using map_of_filter_fst [of "\<lambda>k. \<not> prefix p k" d z]
  by (auto simp: file_at_def node_at_def remove_tree_def)

text \<open>A new temporary directory.\<close>

lemma fresh_tmp_dir:
  assumes "fresh_tmp root tmp" and "disk_wf d" and "plain root" and "is_dir d root"
  obtains x where "tmp pre d = root @ [x]" and "plain (root @ [x])" and "disk_wf (set_node (root @ [x]) Dir d)"
    and "\<forall>q. prefix (root @ [x]) q \<longrightarrow> map_of d q = None"
    and "\<forall>q. is_dir d q \<longrightarrow> is_dir (set_node (root @ [x]) Dir d) q"
    and "\<forall>q. plain q \<longrightarrow> file_at (set_node (root @ [x]) Dir d) q = file_at d q"
    and "\<forall>q. q \<noteq> root @ [x] \<longrightarrow> map_of (set_node (root @ [x]) Dir d) q = map_of d q"
proof -
  obtain x where x: "tmp pre d = root @ [x]" "x \<noteq> dotdot" "\<And>q. prefix (root @ [x]) q \<Longrightarrow> map_of d q = None"
    using assms(1) unfolding fresh_tmp_def by metis
  have pl: "plain (root @ [x])" using assms(3) x(2) by (simp add: plain_def)
  have wf: "disk_wf (set_node (root @ [x]) Dir d)"
    using disk_wf_set_node [OF assms(2), of "root @ [x]" Dir] pl assms(4) by simp
  have none: "map_of d (root @ [x]) = None" using x(3) by simp
  have "is_dir (set_node (root @ [x]) Dir d) q" if "is_dir d q" for q
    using that pl by (simp add: is_dir_def node_at_set_node)
  moreover have "file_at (set_node (root @ [x]) Dir d) q = file_at d q" if "plain q" for q
    using that pl none by (auto simp: file_at_def node_at_set_node) (simp add: node_at_def)
  moreover have "map_of (set_node (root @ [x]) Dir d) q = map_of d q" if "q \<noteq> root @ [x]" for q
    using that pl map_of_filter_fst [of "\<lambda>k. k \<noteq> root @ [x]" d q] by (simp add: set_node_def)
  ultimately show thesis using that [OF x(1) pl wf] x(3) by blast
qed

end
