(* ===== verification/Executor_Chain.thy ===== *)
theory Executor_Chain imports Executor_Props Disk_Wf begin

text \<open>
  The caching executor from end to end: cache, download, training, upload, and the removal of
  its temporary directories.
\<close>

section \<open>On every outcome\<close>

text \<open>
  Whenever the caching executor returns, under any interleaving and with any trainer, the
  path it returns is the checkpoint prefix of its job.
\<close>

theorem caching_returns_prefix:
  "case fst (caching_executor R bucket hub dir tmp train j m hb w) of
     Inl _ \<Rightarrow> True | Inr path \<Rightarrow> path = checkpoint_prefix j"
proof -
  let ?Q = "\<lambda>path (_ :: world). path = checkpoint_prefix j"
  have u: "post (ck_upload R bucket (job_id j) out) ?Q" for out
    unfolding ck_upload_def Let_def
    by (intro post_rules) (simp add: post_def ret_apply upload_prefix_def checkpoint_prefix_def)
  have t: "post (with_tmp tmp pre body) ?Q" if "\<And>p. post (body p) ?Q" for pre body
    using that by (auto simp: post_def with_tmp_def Let_def split: prod.splits)
  have "post (caching_executor R bucket hub dir tmp train j m hb) ?Q"
    unfolding caching_executor_code by (intro post_bind post_seq t u)
  then show ?thesis
    by (cases "caching_executor R bucket hub dir tmp train j m hb w") (auto simp: post_def split: sum.split)
qed

section \<open>When nothing interferes\<close>

text \<open>
  A trainer that, given an empty output directory, beats \<open>k\<close> times and leaves the files \<open>Q\<close>
  with their \<open>content\<close> in it, and no other file changed.
\<close>

definition trainer_writes :: "trainer \<Rightarrow> services \<Rightarrow> job \<Rightarrow> nat \<Rightarrow> path set \<Rightarrow> (path \<Rightarrow> string) \<Rightarrow> bool" where
  "trainer_writes train R j k Q content \<longleftrightarrow> (\<forall>v mp ds out.
     sched v = [] \<and> disk_wf (disk v) \<and> plain out \<and> is_dir (disk v) out \<and> (\<forall>q. strict_prefix out q \<longrightarrow> map_of (disk v) q = None) \<longrightarrow>
     (\<exists>d. train j mp ds out (heartbeat_of R j) v
           = (Inr (), (after R (concat (replicate k (beat_ops (job_id j)))) v)\<lparr>disk := d\<rparr>)
        \<and> disk_wf d \<and> rel_files d out = Q \<and> (\<forall>q \<in> Q. file_at d (out @ q) = Some (content q))
        \<and> (\<forall>x. plain x \<and> \<not> strict_prefix out x \<longrightarrow> file_at d x = file_at (disk v) x)))"

lemma write_only_file:
  assumes "disk_wf d" and "plain out" and "is_dir d out" and "\<forall>q. strict_prefix out q \<longrightarrow> map_of d q = None"
    and "plain [n]"
  obtains d' where "write_file (out @ [n]) bytes d = Inr d'" and "disk_wf d'" and "rel_files d' out = {[n]}"
    and "\<forall>x. plain x \<longrightarrow> file_at d' x = (if x = out @ [n] then Some bytes else file_at d x)"
proof -
  let ?p = "out @ [n]" and ?d = "set_node (out @ [n]) (File bytes) d"
  have pl: "plain ?p" using assms(2,5) by simp
  have none: "node_at d (out @ z) = None" if "z \<noteq> []" "plain z" for z
    using assms(2,4) that by (simp add: node_at_def strict_prefix_def)
  then have nof: "file_at d (out @ z) = None" if "z \<noteq> []" "plain z" for z
    using that by (simp add: file_at_def)
  have wr: "write_file ?p bytes d = Inr ?d"
    using assms(3) none [of "[n]"] assms(5) by (simp add: write_file_def is_dir_def)
  have f: "file_at ?d x = (if x = ?p then Some bytes else file_at d x)" if "plain x" for x
    using that pl by (simp add: file_at_set_node)
  have wf: "disk_wf ?d" by (rule write_file_wf [OF assms(1) wr])
  have "q \<in> rel_files ?d out \<longleftrightarrow> q = [n]" for q
  proof (cases "q = [n]")
    case True
    then show ?thesis using f [OF pl] pl by (simp add: rel_files_wf [OF wf assms(2)] is_file_def)
  next
    case False
    then have "file_at ?d (out @ q) = None" if "q \<noteq> []" "plain q"
      using f [of "out @ q"] nof [OF that] that assms(2) by simp
    then show ?thesis using False by (metis rel_files_wf [OF wf assms(2)] is_file_def)
  qed
  then have "rel_files ?d out = {[n]}" by blast
  with f show thesis by (intro that [OF wr wf]) blast+
qed

lemma stub_train_writes:
  "trainer_writes stub_train R j 1 {[''STUB_ADAPTER.txt'']}
     (\<lambda>_. ''stub adapter for job '' @ uuid_str (job_id j) @ ''; replaced by the Phase 5C trainer'' @ [CHR 0x0A])"
  (is "trainer_writes _ _ _ _ {[?n]} (\<lambda>_. ?txt)")
  unfolding trainer_writes_def
proof (intro allI impI, elim conjE)
  fix v :: world and mp ds out
  assume v: "sched v = []" "disk_wf (disk v)" "plain out" "is_dir (disk v) out"
    "\<forall>q. strict_prefix out q \<longrightarrow> map_of (disk v) q = None"
  have n: "plain [?n]" by (simp add: plain_def dotdot_def)
  obtain d where d: "write_file (out @ [?n]) ?txt (disk v) = Inr d" "disk_wf d" "rel_files d out = {[?n]}"
      "\<forall>x. plain x \<longrightarrow> file_at d x = (if x = out @ [?n] then Some ?txt else file_at (disk v) x)"
    by (rule write_only_file [OF v(2-5) n, where bytes = ?txt])
  have "stub_train j mp ds out (heartbeat_of R j) v = (Inr (), (after R (beat_ops (job_id j)) v)\<lparr>disk := d\<rparr>)"
    unfolding stub_train_def seq_beat [OF v(1)] by (rule local_op_apply) (simp only: after_disk d(1))
  with d v(3) n show "\<exists>d. stub_train j mp ds out (heartbeat_of R j) v
           = (Inr (), (after R (concat (replicate 1 (beat_ops (job_id j)))) v)\<lparr>disk := d\<rparr>)
        \<and> disk_wf d \<and> rel_files d out = {[?n]} \<and> (\<forall>q \<in> {[?n]}. file_at d (out @ q) = Some ?txt)
        \<and> (\<forall>x. plain x \<and> \<not> strict_prefix out x \<longrightarrow> file_at d x = file_at (disk v) x)"
    by (intro exI [of _ d]) (auto simp: strict_prefix_def)
qed

text \<open>From the download to the upload, in the two temporary directories.\<close>

lemma chain_inner:
  assumes "sched v = []" and "disk_wf (disk v)" and "plain dout" and "is_dir (disk v) dout"
    and "\<forall>q. strict_prefix dout q \<longrightarrow> map_of (disk v) q = None"
    and "ready_dir (disk v) dir" and "\<not> prefix dout dir" and "\<not> prefix dir dout"
    and "validate_dataset_format ds = Inr (Some f)" and "s3_get (s3 R) bucket ds (objects (sh v)) = Some bytes"
    and "trainer_writes train R j k Q content" and "Q \<noteq> {}"
  shows "\<exists>d. bind (ds_download R bucket ds dir) (\<lambda>p. seq (heartbeat_of R j)
        (seq (train j mp p dout (heartbeat_of R j)) (ck_upload R bucket (job_id j) dout))) v
      = (Inr (upload_prefix (job_id j)),
         (after R (concat (replicate (Suc k) (beat_ops (job_id j))) @ map (upload_op bucket (upload_prefix (job_id j)) dout d) (files_under d dout)) v)\<lparr>disk := d\<rparr>)
    \<and> disk_wf d \<and> rel_files d dout = Q \<and> (\<forall>q \<in> Q. file_at d (dout @ q) = Some (content q))
    \<and> (\<forall>x. plain x \<and> \<not> strict_prefix dout x \<and> \<not> strict_prefix dir x \<longrightarrow> file_at d x = file_at (disk v) x)"
proof -
  let ?b = "beat_ops (job_id j)" and ?hb = "heartbeat_of R j"
  note g = validated_single [OF assms(9)]
  let ?p = "dir @ [path_name ds]" and ?d3 = "set_node (dir @ [path_name ds]) (File bytes) (disk v)"
  have pd: "plain dir" "plain ?p"
    using assms(6) good_rel_plain [OF good_name_rel [OF g(4)]] by (simp_all add: ready_dir_def)
  have dl: "ds_download R bucket ds dir v = (Inr ?p, v\<lparr>disk := ?d3\<rparr>)"
    by (rule download_file_quiet [OF assms(1,6) g(3,4) assms(10)])
  have gr: "disk_grows v (v\<lparr>disk := ?d3\<rparr>)"
    using keepsD [OF grows_download, of v R bucket ds dir] dl by simp
  have look: "map_of ?d3 q = (if q = ?p then Some (File bytes) else map_of (disk v) q)" for q
    using map_of_filter_fst [of "\<lambda>q. q \<noteq> ?p" "disk v" q] pd by (simp add: set_node_def)
  have below: "map_of ?d3 q = None" if "strict_prefix dout q" for q
  proof -
    have "q \<noteq> ?p" using that assms(7,8) by (auto simp: strict_prefix_def)
    then show ?thesis using look assms(5) that by simp
  qed
  let ?v = "after R ?b (v\<lparr>disk := ?d3\<rparr>)"
  have "sched ?v = [] \<and> disk_wf (disk ?v) \<and> plain dout \<and> is_dir (disk ?v) dout
      \<and> (\<forall>q. strict_prefix dout q \<longrightarrow> map_of (disk ?v) q = None)"
    using gr below assms(1-4) by (simp add: after_disk disk_grows_def)
  then obtain d where d: "train j mp ?p dout ?hb ?v = (Inr (), (after R (concat (replicate k ?b)) ?v)\<lparr>disk := d\<rparr>)"
      "disk_wf d" "rel_files d dout = Q" "\<forall>q \<in> Q. file_at d (dout @ q) = Some (content q)"
      "\<forall>x. plain x \<and> \<not> strict_prefix dout x \<longrightarrow> file_at d x = file_at (disk ?v) x"
    using assms(11) unfolding trainer_writes_def by metis
  let ?w = "(after R (concat (replicate k ?b)) ?v)\<lparr>disk := d\<rparr>"
  have u: "ck_upload R bucket (job_id j) dout ?w = (Inr (upload_prefix (job_id j)),
      after R (map (upload_op bucket (upload_prefix (job_id j)) dout d) (files_under d dout)) ?w)"
  proof -
    have "files_under d dout \<noteq> []" using assms(12) d(3) by (auto simp: rel_files_def)
    then show ?thesis using ck_upload_quiet [of ?w dout R bucket "job_id j"] assms(1) d(2) by simp
  qed
  have "bind (ds_download R bucket ds dir) (\<lambda>p. seq ?hb (seq (train j mp p dout ?hb) (ck_upload R bucket (job_id j) dout))) v
    = seq (train j mp ?p dout ?hb) (ck_upload R bucket (job_id j) dout) ?v"
    using assms(1) by (simp add: bind_Inr [where m = "ds_download R bucket ds dir" and s = v, OF dl] seq_beat)
  also have "\<dots> = (Inr (upload_prefix (job_id j)),
      after R (map (upload_op bucket (upload_prefix (job_id j)) dout d) (files_under d dout)) ?w)"
    unfolding seq_Inr [where m = "train j mp ?p dout ?hb" and s = ?v, OF d(1)] by (rule u)
  also have "after R (map (upload_op bucket (upload_prefix (job_id j)) dout d) (files_under d dout)) ?w
      = (after R (concat (replicate (Suc k) ?b) @ map (upload_op bucket (upload_prefix (job_id j)) dout d) (files_under d dout)) v)\<lparr>disk := d\<rparr>"
    by (simp add: after_disk)
  finally show ?thesis
    using d pd assms(6,7) by (intro exI [of _ d]) (auto simp: after_disk file_at_set_node strict_prefix_def)
qed

lemma upload_prefix_is: "upload_prefix (job_id j) = checkpoint_prefix j"
  by (simp add: upload_prefix_def checkpoint_prefix_def)

lemma objects_beat: "objects (do_ops R (beat_ops i) s) = objects s"
  by (simp add: beat_ops_def)

lemma objects_beats: "objects (do_ops R (concat (replicate k (beat_ops i))) s) = objects s"
  by (induction k arbitrary: s) (simp_all add: do_ops_append objects_beat)

text \<open>The two temporary directories of the executor: new, disjoint, and without effect on the files.\<close>

lemma two_tmp_dirs:
  assumes "fresh_tmp root tmp" and "disk_wf d0" and "plain root" and "is_dir d0 root"
  obtains P Od d1 d2 where "tmp a d0 = P" and "d1 = set_node P Dir d0" and "tmp b d1 = Od" and "d2 = set_node Od Dir d1"
    and "disk_wf d2" and "plain Od" and "is_dir d2 Od" and "ready_dir d2 P" and "\<not> prefix Od P" and "\<not> prefix P Od"
    and "P \<noteq> []" and "Od \<noteq> []" and "\<forall>q. strict_prefix Od q \<longrightarrow> map_of d2 q = None"
    and "\<forall>z. plain z \<longrightarrow> file_at d2 z = file_at d0 z"
    and "\<forall>z. plain z \<and> (prefix P z \<or> prefix Od z) \<longrightarrow> file_at d0 z = None"
proof -
  obtain x where x: "tmp a d0 = root @ [x]" "plain (root @ [x])" "disk_wf (set_node (root @ [x]) Dir d0)"
      "\<forall>q. prefix (root @ [x]) q \<longrightarrow> map_of d0 q = None"
      "\<forall>q. is_dir d0 q \<longrightarrow> is_dir (set_node (root @ [x]) Dir d0) q"
      "\<forall>q. plain q \<longrightarrow> file_at (set_node (root @ [x]) Dir d0) q = file_at d0 q"
      "\<forall>q. q \<noteq> root @ [x] \<longrightarrow> map_of (set_node (root @ [x]) Dir d0) q = map_of d0 q"
    by (rule fresh_tmp_dir [OF assms, where pre = a])
  let ?P = "root @ [x]" and ?d1 = "set_node (root @ [x]) Dir d0"
  obtain y where y: "tmp b ?d1 = root @ [y]" "plain (root @ [y])" "disk_wf (set_node (root @ [y]) Dir ?d1)"
      "\<forall>q. prefix (root @ [y]) q \<longrightarrow> map_of ?d1 q = None"
      "\<forall>q. is_dir ?d1 q \<longrightarrow> is_dir (set_node (root @ [y]) Dir ?d1) q"
      "\<forall>q. plain q \<longrightarrow> file_at (set_node (root @ [y]) Dir ?d1) q = file_at ?d1 q"
      "\<forall>q. q \<noteq> root @ [y] \<longrightarrow> map_of (set_node (root @ [y]) Dir ?d1) q = map_of ?d1 q"
    by (rule fresh_tmp_dir [OF assms(1) x(3) assms(3) x(5) [rule_format, OF assms(4)], where pre = b])
  let ?O = "root @ [y]" and ?d2 = "set_node (root @ [y]) Dir ?d1"
  have dirs: "is_dir ?d1 ?P" "is_dir ?d2 ?O" using x(2) y(2) by (simp_all add: is_dir_def node_at_set_node)
  have xy: "x \<noteq> y" using y(4) [rule_format, of "root @ [x]"] x(2) by (auto simp: set_node_def)
  have below: "map_of ?d2 q = None" if "strict_prefix ?P q \<or> strict_prefix ?O q" for q
  proof -
    have "q \<noteq> ?O" "q \<noteq> ?P" "prefix ?P q \<or> prefix ?O q" using that xy by (auto simp: strict_prefix_def prefix_def)
    then show ?thesis using x(4,7) y(4,7) by metis
  qed
  have rd: "ready_dir ?d2 ?P"
    using ready_dir_wf [OF y(3) x(2) y(5) [rule_format, OF dirs(1)]] below by simp
  have files: "file_at ?d2 z = file_at d0 z" if "plain z" for z
    using that x(6) y(6) by simp
  have "file_at d0 z = None" if "plain z" "prefix ?P z \<or> prefix ?O z" for z
  proof -
    have "z = ?P \<or> z = ?O \<or> map_of ?d2 z = None" using that(2) below [of z] unfolding strict_prefix_def by metis
    then have "file_at ?d2 z = None"
      using file_at_plain [OF y(5) [rule_format, OF dirs(1)]] file_at_plain [OF dirs(2)] that(1)
      by (auto simp: file_at_def node_at_def split: option.splits)
    then show ?thesis using files [OF that(1)] by simp
  qed
  then show thesis
    using that [OF x(1) refl y(1) refl y(3,2) dirs(2) rd] below xy files by simp
qed

lemma two_tmp_blocks:
  assumes "tmp a d0 = P" and "d1 = set_node P Dir d0" and "tmp b d1 = Od"
    and "body P Od (w\<lparr>disk := set_node Od Dir d1\<rparr>) = (Inr r, w'\<lparr>disk := d\<rparr>)"
  shows "with_tmp tmp a (\<lambda>p. with_tmp tmp b (body p)) (w\<lparr>disk := d0\<rparr>)
    = (Inr r, w'\<lparr>disk := remove_tree P (remove_tree Od d)\<rparr>)"
  using assms by (simp add: with_tmp_def Let_def process_gone_def)

definition is_put :: "op \<Rightarrow> bool" where
  "is_put x = (case x of PutObject _ _ _ \<Rightarrow> True | _ \<Rightarrow> False)"

text \<open>The chain as steps on the shared state: heartbeats, then the uploads.\<close>

lemma caching_chain:
  assumes "s3_server (s3 R)" and "sched w = []"
    and "mc_ensure hub cache m w = (Inr mp, w\<lparr>disk := d0\<rparr>)"
    and "disk_wf d0" and "fresh_tmp root tmp" and "plain root" and "is_dir d0 root"
    and "validate_dataset_format (dataset_path j) = Inr (Some f)"
    and "s3_get (s3 R) bucket (dataset_path j) (objects (sh w)) = Some bytes"
    and "trainer_writes train R j k Q content" and "Q \<noteq> {}" and "\<forall>q \<in> Q. good_rel q"
  shows "\<exists>d ups. caching_executor R bucket hub cache tmp train j m (heartbeat_of R j) w
        = (Inr (checkpoint_prefix j), (after R (concat (replicate (Suc (Suc k)) (beat_ops (job_id j))) @ ups) w)\<lparr>disk := d\<rparr>)
    \<and> (\<forall>x \<in> set ups. is_put x)
    \<and> (\<forall>b key. s3_get (s3 R) b key (objects (do_ops R (concat (replicate (Suc (Suc k)) (beat_ops (job_id j))) @ ups) (sh w))) =
         (if b = bucket \<and> key \<in> (\<lambda>q. checkpoint_prefix j @ posix_text q) ` Q
          then Some (content (path_parts (drop (length (checkpoint_prefix j)) key)))
          else s3_get (s3 R) b key (objects (sh w))))
    \<and> (\<forall>x. plain x \<longrightarrow> file_at d x = file_at d0 x)"
proof -
  let ?b = "beat_ops (job_id j)" and ?hb = "heartbeat_of R j" and ?pre = "upload_prefix (job_id j)"
  let ?data = "''crucible-data-'' @ uuid_str (job_id j) @ ''-''" and ?out = "''crucible-out-'' @ uuid_str (job_id j) @ ''-''"
  obtain P Od d1 d2 where t: "tmp ?data d0 = P" "d1 = set_node P Dir d0" "tmp ?out d1 = Od" "d2 = set_node Od Dir d1"
      and dirs: "disk_wf d2" "plain Od" "is_dir d2 Od" "ready_dir d2 P" "\<not> prefix Od P" "\<not> prefix P Od" "P \<noteq> []" "Od \<noteq> []"
      and below: "\<forall>q. strict_prefix Od q \<longrightarrow> map_of d2 q = None"
      and files: "\<forall>z. plain z \<longrightarrow> file_at d2 z = file_at d0 z"
      and new: "\<forall>z. plain z \<and> (prefix P z \<or> prefix Od z) \<longrightarrow> file_at d0 z = None"
    by (rule two_tmp_dirs [OF assms(5,4,6,7), where a = ?data and b = ?out])
  let ?v = "(after R ?b w)\<lparr>disk := d2\<rparr>"
  let ?ops = "\<lambda>d. concat (replicate (Suc k) ?b) @ map (upload_op bucket ?pre Od d) (files_under d Od)"
  let ?body = "\<lambda>P Od. bind (ds_download R bucket (dataset_path j) P) (\<lambda>p. seq ?hb
        (seq (train j mp p Od ?hb) (ck_upload R bucket (job_id j) Od)))"
  have "\<exists>d. ?body P Od ?v = (Inr ?pre, (after R (?ops d) ?v)\<lparr>disk := d\<rparr>)
    \<and> disk_wf d \<and> rel_files d Od = Q \<and> (\<forall>q \<in> Q. file_at d (Od @ q) = Some (content q))
    \<and> (\<forall>z. plain z \<and> \<not> strict_prefix Od z \<and> \<not> strict_prefix P z \<longrightarrow> file_at d z = file_at (disk ?v) z)"
    by (rule chain_inner [OF _ _ dirs(2) _ _ _ dirs(5,6) assms(8) _ assms(10,11)])
      (use assms(2,9) dirs below in \<open>simp_all add: objects_beat\<close>)
  then obtain d where d: "?body P Od ?v = (Inr ?pre, (after R (?ops d) ?v)\<lparr>disk := d\<rparr>)"
      "rel_files d Od = Q" "\<forall>q \<in> Q. file_at d (Od @ q) = Some (content q)"
      "\<forall>z. plain z \<and> \<not> strict_prefix Od z \<and> \<not> strict_prefix P z \<longrightarrow> file_at d z = file_at d2 z"
    by auto
  let ?ups = "map (upload_op bucket ?pre Od d) (files_under d Od)" and ?d' = "remove_tree P (remove_tree Od d)"
  let ?w' = "(after R (concat (replicate (Suc (Suc k)) ?b) @ ?ups) w)\<lparr>disk := ?d'\<rparr>"
  have run: "caching_executor R bucket hub cache tmp train j m ?hb w = (Inr ?pre, ?w')"
    unfolding caching_executor_code bind_Inr [where m = "mc_ensure hub cache m" and s = w, OF assms(3)]
    using two_tmp_blocks [where tmp = tmp and a = ?data and b = ?out and P = P and Od = Od and body = ?body
        and w = "after R ?b w" and r = ?pre and w' = "after R (?ops d) (after R ?b w)" and d = d, OF t(1-3)]
      t d(1) assms(2) by (simp add: seq_beat after_disk)
  have obj: "s3_get (s3 R) b key (objects (sh ?w')) = (if b = bucket \<and> (\<exists>q \<in> Q. key = ?pre @ posix_text q)
        then Some (the (file_at d (Od @ path_parts (drop (length ?pre) key)))) else s3_get (s3 R) b key (objects (sh w)))" for b key
    using uploaded_get [OF assms(1), of d Od b key bucket ?pre] assms(12) d(2)
    by (simp add: do_ops_append objects_beat objects_beats uploads_objects)
  have "file_at (disk ?w') z = file_at d0 z" if "plain z" for z
    using that new files d(4) dirs(7,8) by (auto simp: file_at_remove_tree strict_prefix_def)
  moreover have "the (file_at d (Od @ path_parts (drop (length ?pre) key))) = content (path_parts (drop (length ?pre) key))"
    if "\<exists>q \<in> Q. key = ?pre @ posix_text q" for key
    using that d(3) assms(12) by (auto simp: path_parts_posix)
  moreover have "\<forall>x \<in> set ?ups. is_put x" by (simp add: upload_op_def is_put_def)
  ultimately show ?thesis
    using run obj by (intro exI [of _ ?d'] exI [of _ ?ups]) (auto simp: upload_prefix_is [symmetric])
qed

text \<open>
  C16: a job whose data set passes the gate goes through the whole chain: the executor returns its
  checkpoint prefix, the object store has exactly the files the trainer wrote as new objects below
  that prefix, and the local disk has the files it had once the model was cached: the downloaded
  data set and the trainer's output are gone.
\<close>

theorem executor_chain:
  assumes "s3_server (s3 R)" and "sched w = []"
    and "mc_ensure hub cache m w = (Inr mp, w\<lparr>disk := d0\<rparr>)"
    and "disk_wf d0" and "fresh_tmp root tmp" and "plain root" and "is_dir d0 root"
    and "validate_dataset_format (dataset_path j) = Inr (Some f)"
    and "s3_get (s3 R) bucket (dataset_path j) (objects (sh w)) = Some bytes"
    and "trainer_writes train R j k Q content" and "Q \<noteq> {}" and "\<forall>q \<in> Q. good_rel q"
  shows "\<exists>w'. caching_executor R bucket hub cache tmp train j m (heartbeat_of R j) w = (Inr (checkpoint_prefix j), w')
    \<and> (\<forall>b key. s3_get (s3 R) b key (objects (sh w')) =
         (if b = bucket \<and> key \<in> (\<lambda>q. checkpoint_prefix j @ posix_text q) ` Q
          then Some (content (path_parts (drop (length (checkpoint_prefix j)) key)))
          else s3_get (s3 R) b key (objects (sh w))))
    \<and> (\<forall>x. plain x \<longrightarrow> file_at (disk w') x = file_at d0 x)"
proof -
  obtain d ups where "caching_executor R bucket hub cache tmp train j m (heartbeat_of R j) w
        = (Inr (checkpoint_prefix j), (after R (concat (replicate (Suc (Suc k)) (beat_ops (job_id j))) @ ups) w)\<lparr>disk := d\<rparr>)"
      "\<forall>b key. s3_get (s3 R) b key (objects (do_ops R (concat (replicate (Suc (Suc k)) (beat_ops (job_id j))) @ ups) (sh w))) =
         (if b = bucket \<and> key \<in> (\<lambda>q. checkpoint_prefix j @ posix_text q) ` Q
          then Some (content (path_parts (drop (length (checkpoint_prefix j)) key)))
          else s3_get (s3 R) b key (objects (sh w)))"
      "\<forall>x. plain x \<longrightarrow> file_at d x = file_at d0 x"
    using caching_chain [OF assms] by blast
  then show ?thesis
    by (intro exI [of _ "(after R (concat (replicate (Suc (Suc k)) (beat_ops (job_id j))) @ ups) w)\<lparr>disk := d\<rparr>"]) simp
qed

section \<open>A concrete run\<close>

text \<open>Temporary names longer than every name on the disk.\<close>

definition long_tmp :: "path \<Rightarrow> tmp_namer" where
  "long_tmp root pre d = root @ [pre @ replicate (Suc (sum_list (map (\<lambda>e. sum_list (map length (fst e))) d))) (CHR ''x'')]"

lemma long_tmp_fresh: "fresh_tmp root (long_tmp root)"
  unfolding fresh_tmp_def
proof (intro allI)
  fix pre and d :: disk
  let ?n = "sum_list (map (\<lambda>e. sum_list (map length (fst e))) d)"
  let ?x = "pre @ replicate (Suc ?n) (CHR ''x'')"
  have "CHR ''x'' \<in> set ?x" "CHR ''x'' \<notin> set dotdot" by (simp_all add: dotdot_def)
  then have "?x \<noteq> dotdot" by metis
  moreover have "map_of d q = None" if q: "prefix (root @ [?x]) q" for q
  proof (rule ccontr)
    assume "map_of d q \<noteq> None"
    then obtain n where "(q, n) \<in> set d" by (auto dest: map_of_SomeD)
    moreover have "?x \<in> set q" using q by (auto simp: prefix_def)
    then have "length ?x \<le> sum_list (map length q)"
      by (intro member_le_sum_list) (simp_all only: set_map imageI le0)
    ultimately have "length ?x \<le> ?n"
      using member_le_sum_list [of "sum_list (map length q)" "map (\<lambda>e. sum_list (map length (fst e))) d"] by force
    then show False by simp
  qed
  ultimately show "\<exists>x. long_tmp root pre d = root @ [x] \<and> x \<noteq> dotdot \<and> (\<forall>q. prefix (root @ [x]) q \<longrightarrow> map_of d q = None)"
    by (intro exI [of _ ?x]) (simp add: long_tmp_def)
qed

definition local_hub :: hub where
  "local_hub repo r dir = ret (dir @ ''/models--'' @ repo @ ''/snapshots/'' @ r)"

lemma local_hub_ok: "hub_ok local_hub"
  by (simp add: hub_ok_def local_program_def local_hub_def ret_apply)

definition sample_meta :: model_meta where
  "sample_meta = \<lparr>hf_repo_id = ''org/model'', revision = ''abc'', param_count = Some 7000000000, vram_hint = Some ''comfortable''\<rparr>"

theorem executor_chain_witness:
  "\<exists>w'. caching_executor reference_services ''crucible'' local_hub ''/cache'' (long_tmp [''tmp'']) stub_train sample_job
      sample_meta (heartbeat_of reference_services sample_job) (store_world sample_store sample_disk) = (Inr (checkpoint_prefix sample_job), w')
    \<and> s3_get (s3 reference_services) ''crucible'' (checkpoint_prefix sample_job @ ''STUB_ADAPTER.txt'') (objects (sh w'))
      = Some (''stub adapter for job '' @ uuid_str 1 @ ''; replaced by the Phase 5C trainer'' @ [CHR 0x0A])
    \<and> file_at (disk w') [''tmp'', ''STUB_ADAPTER.txt''] = None"
proof -
  let ?w = "store_world sample_store sample_disk" and ?n = "''STUB_ADAPTER.txt''"
  have hub: "mc_ensure local_hub ''/cache'' sample_meta ?w = (Inr (str_path (''/cache'' @ ''/models--'' @ hf_repo_id sample_meta @ ''/snapshots/'' @ revision sample_meta)), ?w\<lparr>disk := sample_disk\<rparr>)"
    by (simp add: mc_ensure_def local_hub_def try_except_def bind_def ret_apply store_world_def)
  have wf: "disk_wf sample_disk" "plain [''tmp'']" "is_dir sample_disk [''tmp'']"
    using sample_ready by (simp_all add: disk_wf_def sample_disk_def plain_def dotdot_def ready_dir_def)
  have v: "validate_dataset_format (dataset_path sample_job) = Inr (Some ''csv'')" by code_simp
  have o: "s3_get (s3 reference_services) ''crucible'' (dataset_path sample_job) (objects (sh ?w)) = Some ''3''"
    by (simp add: reference_get sample_store_def sample_job_def)
  have q: "{[?n]} \<noteq> {}" "\<forall>q \<in> {[?n]}. good_rel q"
    by (simp_all add: good_rel_def good_name_def dot_def dotdot_def slash_def)
  have n: "file_at sample_disk [''tmp'', ?n] = None"
    by (simp add: file_at_def node_at_def sample_disk_def plain_def dotdot_def)
  have "plain [''tmp'', ?n]" by (simp add: plain_def dotdot_def)
  moreover have "posix_text [?n] = ?n" by (simp add: posix_text_def)
  ultimately show ?thesis
    using executor_chain [OF reference_services_s3 _ hub wf(1) long_tmp_fresh wf(2,3) v o stub_train_writes q] n
    by (fastforce simp: sample_job_def)
qed

end
