(* ===== verification/Register_Dataset.thy ===== *)
theory Register_Dataset imports Executor_Chain begin

text \<open>
  \<open>scripts/register_dataset.py\<close>: the content hash, the upload, and the script's main routine. The
  hash \<open>sha\<close> (\<open>hashlib.sha256\<close>, from the bytes fed to it to the hex digest) is a parameter. File
  names are encoded as their own bytes. The keys in the message of a failed verification are printed
  in sorted order; Python prints the set in an order of its own.
\<close>

definition dataset_REQUIRED_ENV :: "string list" where
  "dataset_REQUIRED_ENV = [''GARAGE_ENDPOINT'', ''GARAGE_ACCESS_KEY'', ''GARAGE_SECRET_KEY'', ''GARAGE_BUCKET'', ''DATABASE_URL'']"

definition dataset_check_env :: "environ \<Rightarrow> exn + unit" where
  "dataset_check_env env = (if filter (\<lambda>k. \<not> env_present env k) dataset_REQUIRED_ENV \<noteq> [] then Inl (SystemExit 1) else Inr ())"

section \<open>The checksum\<close>

text \<open>The state of a hash object is what it was fed; a file is read in chunks of 8 MB.\<close>

definition hash_file_into :: "string \<Rightarrow> string \<Rightarrow> string" where
  "hash_file_into h bytes = foldl (@) h (pages_of (8 * 1024 * 1024 - 1) bytes)"

definition bytes_of :: "disk \<Rightarrow> path \<Rightarrow> string" where
  "bytes_of d p = (case file_at d p of None \<Rightarrow> [] | Some bytes \<Rightarrow> bytes)"

definition checksum_file :: "(string \<Rightarrow> string) \<Rightarrow> disk \<Rightarrow> path \<Rightarrow> string" where
  "checksum_file sha d p = sha (hash_file_into [] (bytes_of d p))"

definition checksum_directory :: "(string \<Rightarrow> string) \<Rightarrow> disk \<Rightarrow> path \<Rightarrow> string" where
  "checksum_directory sha d dir = sha (fold
     (\<lambda>p h. hash_file_into (h @ posix_text (drop (length dir) p)) (bytes_of d p)) (files_under d dir) [])"

definition total_size :: "disk \<Rightarrow> path \<Rightarrow> int" where
  "total_size d p =
     (if is_file d p then int (length (bytes_of d p))
      else sum_list (map (\<lambda>f. int (length (bytes_of d f))) (files_under d p)))"

section \<open>The upload\<close>

definition object_key :: "string \<Rightarrow> string \<Rightarrow> path \<Rightarrow> string" where
  "object_key name version p = ''datasets/'' @ name @ ''/'' @ version @ name_suffix (last p)"

definition prefix_key :: "string \<Rightarrow> string \<Rightarrow> string" where
  "prefix_key name version = ''datasets/'' @ name @ ''/'' @ version @ ''/''"

definition s3_head :: "services \<Rightarrow> string \<Rightarrow> string \<Rightarrow> (world, exn, unit) prog" where
  "s3_head R bucket key = bind (call R S3Error (\<lambda>s. (s3_get (s3 R) bucket key (objects s), s)))
     (\<lambda>r. case r of None \<Rightarrow> raise not_found | Some _ \<Rightarrow> ret ())"

definition upload_file :: "services \<Rightarrow> string \<Rightarrow> path \<Rightarrow> string \<Rightarrow> (world, exn, unit) prog" where
  "upload_file R bucket p key = seq (s3_upload R p bucket key) (s3_head R bucket key)"

definition verify_upload :: "services \<Rightarrow> string \<Rightarrow> string \<Rightarrow> string list \<Rightarrow> (world, exn, unit) prog" where
  "verify_upload R bucket pre uploaded =
     bind (s3_list R bucket pre) (\<lambda>pages.
       let missing = filter (\<lambda>k. k \<notin> set (concat pages)) uploaded in
       if missing \<noteq> [] then raise (RuntimeError (''Upload verification failed '' @
           [CHR 0xE2, CHR 0x80, CHR 0x94] @ '' missing keys: {'' @
           join '', '' (map repr_str (sort (remdups missing))) @ ''}''))
       else ret ())"

definition upload_directory :: "services \<Rightarrow> string \<Rightarrow> path \<Rightarrow> string \<Rightarrow> (world, exn, unit) prog" where
  "upload_directory R bucket dir pre =
     bind (local_read (\<lambda>d. Inr (files_under d dir))) (\<lambda>files.
       let key = (\<lambda>p. pre @ posix_text (drop (length dir) p)) in
       seq (for_each (\<lambda>p. s3_upload R p bucket (key p)) files)
           (verify_upload R bucket pre (map key files)))"

definition upload_dataset :: "services \<Rightarrow> string \<Rightarrow> path \<Rightarrow> string \<Rightarrow> string \<Rightarrow> (world, exn, string \<times> bool) prog" where
  "upload_dataset R bucket p name version =
     bind (local_read (\<lambda>d. Inr (is_file d p))) (\<lambda>single.
       if single then seq (upload_file R bucket p (object_key name version p)) (ret (object_key name version p, True))
       else seq (upload_directory R bucket p (prefix_key name version)) (ret (prefix_key name version, False)))"

section \<open>The script\<close>

definition describe :: "(string \<Rightarrow> string) \<Rightarrow> path \<Rightarrow> disk \<Rightarrow> exn + bool \<times> string \<times> int" where
  "describe sha p d =
     (if node_at d p = None then Inl (SystemExit 1)
      else Inr (is_file d p, if is_file d p then checksum_file sha d p else checksum_directory sha d p, total_size d p))"

definition storage_path :: "string \<Rightarrow> string \<Rightarrow> path \<Rightarrow> bool \<Rightarrow> string" where
  "storage_path name version p single = (if single then object_key name version p else prefix_key name version)"

text \<open>What a successful run knows when it prints its report.\<close>

record registered =
  rg_id :: int
  rg_already :: bool
  rg_single :: bool
  rg_version :: string
  rg_size :: int

definition dataset_main ::
  "services \<Rightarrow> (string \<Rightarrow> string) \<Rightarrow> environ \<Rightarrow> string \<Rightarrow> path \<Rightarrow> string option \<Rightarrow> (world, exn, registered) prog" where
  "dataset_main R sha env name p description =
     seq (lift_sum (dataset_check_env env))
    (bind (local_read (describe sha p)) (\<lambda>(single, version, size).
     bind (call R DriverError (\<lambda>s. (fst (reg_reserve name version (storage_path name version p single) single size version description (reg s)),
        do_op R (RegReserve name version (storage_path name version p single) single size version description) s))) (\<lambda>reserved.
     bind (lift_sum reserved) (\<lambda>(i, already_registered).
       if already_registered then ret \<lparr>rg_id = i, rg_already = True, rg_single = single, rg_version = version, rg_size = size\<rparr>
       else seq (try_except (seq (upload_dataset R (env_get env ''GARAGE_BUCKET'' []) p name version) (ret ())) is_exception
                  (\<lambda>e. seq (perform R (RegDelete i)) (raise e)))
           (seq (perform R (RegActivate i))
             (ret \<lparr>rg_id = i, rg_already = False, rg_single = single, rg_version = version, rg_size = size\<rparr>))))))"

text \<open>The id alone, which is what the script prints on \<open>stdout\<close>.\<close>

definition register_dataset ::
  "services \<Rightarrow> (string \<Rightarrow> string) \<Rightarrow> environ \<Rightarrow> string \<Rightarrow> path \<Rightarrow> string option \<Rightarrow> (world, exn, int) prog" where
  "register_dataset R sha env name p description = bind (dataset_main R sha env name p description) (\<lambda>r. ret (rg_id r))"

lemma register_dataset_code:
  "register_dataset R sha env name p description =
     seq (lift_sum (dataset_check_env env))
    (bind (local_read (describe sha p)) (\<lambda>(single, version, size).
     bind (call R DriverError (\<lambda>s. (fst (reg_reserve name version (storage_path name version p single) single size version description (reg s)),
        do_op R (RegReserve name version (storage_path name version p single) single size version description) s))) (\<lambda>reserved.
     bind (lift_sum reserved) (\<lambda>(i, already_registered).
       if already_registered then ret i
       else seq (try_except (seq (upload_dataset R (env_get env ''GARAGE_BUCKET'' []) p name version) (ret ())) is_exception
                  (\<lambda>e. seq (perform R (RegDelete i)) (raise e)))
           (seq (perform R (RegActivate i)) (ret i))))))"
  by (simp add: register_dataset_def dataset_main_def seq_def bind_assoc split_def
      if_distrib [where f = "\<lambda>m. bind m f" for f] cong: if_cong)

section \<open>Hashing\<close>

lemma foldl_append: "foldl (@) h xss = h @ concat xss"
  by (induction xss arbitrary: h) simp_all

text \<open>Reading in chunks feeds the whole file.\<close>

lemma hash_file_into_eq: "hash_file_into h bytes = h @ bytes"
  by (simp add: hash_file_into_def foldl_append concat_pages_of)

lemma checksum_directory_eq:
  "checksum_directory sha d dir
     = sha (concat (map (\<lambda>p. posix_text (drop (length dir) p) @ bytes_of d p) (files_under d dir)))"
proof -
  have "fold (\<lambda>p h. hash_file_into (h @ posix_text (drop (length dir) p)) (bytes_of d p)) ps h
      = h @ concat (map (\<lambda>p. posix_text (drop (length dir) p) @ bytes_of d p) ps)" for ps h
    by (induction ps arbitrary: h) (simp_all add: hash_file_into_eq)
  then show ?thesis by (simp add: checksum_directory_def)
qed

section \<open>On every outcome\<close>

context guarantee begin

lemma resp_register_dataset: "keeps (\<lambda>v w. G (sh v) (sh w)) (register_dataset R sha env name p description)"
proof -
  have r: "keeps (\<lambda>v w. G (sh v) (sh w)) (local_read f)" for f :: "disk \<Rightarrow> exn + 'x"
    by (intro keeps_local_read G_refl)
  have c: "keeps (\<lambda>v w. G (sh v) (sh w)) (call R mk (\<lambda>s. (f s, do_op R x s)))" for mk f x
    by (rule resp_call) (simp add: G_op del: do_op.simps)
  have g: "keeps (\<lambda>v w. G (sh v) (sh w)) (call R mk (\<lambda>s. (f s, s)))" for mk f
    by (rule resp_call) (simp add: G_refl)
  show ?thesis
    unfolding register_dataset_code upload_dataset_def upload_file_def upload_directory_def verify_upload_def s3_head_def split_def Let_def
    by (intro prog_rules resp_s3 resp_perform r c g)
qed

end

end
