(* ===== verification/Register_Model.thy ===== *)
theory Register_Model imports Repository Config begin

text \<open>
  \<open>scripts/register_model.py\<close>: recording an allow-list entry. \<open>model_info\<close> of the Hugging Face
  client is a parameter. The lemmas connect the script with the worker: the hint it stores and the
  gate that reads it agree, and the revision it makes the default is the one the worker fetches.
\<close>

definition model_REQUIRED_ENV :: "string list" where
  "model_REQUIRED_ENV = [''DATABASE_URL'']"

definition model_check_env :: "environ \<Rightarrow> exn + unit" where
  "model_check_env env = (if filter (\<lambda>k. \<not> env_present env k) model_REQUIRED_ENV \<noteq> [] then Inl (SystemExit 1) else Inr ())"

text \<open>What the script reads of \<open>ModelInfo\<close>: the commit, and \<open>total\<close> of \<open>safetensors\<close>.\<close>

record hf_info =
  hi_sha :: "string option"
  hi_safetensors :: "int option option"

type_synonym model_info = "string \<Rightarrow> string option \<Rightarrow> exn + hf_info"

definition fetch_hf_metadata :: "model_info \<Rightarrow> string \<Rightarrow> string option \<Rightarrow> exn + string \<times> int option" where
  "fetch_hf_metadata mi repo rv = (case mi repo rv of
     Inl e \<Rightarrow> Inl e
   | Inr info \<Rightarrow>
       if hi_sha info = None \<or> hi_sha info = Some [] then
         Inl (RuntimeError (''Hugging Face Hub did not return a commit SHA for '' @ repo))
       else Inr (the (hi_sha info), case hi_safetensors info of
           Some (Some n) \<Rightarrow> if n \<noteq> 0 then Some n else None
         | _ \<Rightarrow> None))"

definition display_name_of :: "string \<Rightarrow> string option \<Rightarrow> string" where
  "display_name_of repo given = (case given of
     Some d \<Rightarrow> if d \<noteq> [] then d else last (split_on slash repo)
   | None \<Rightarrow> last (split_on slash repo))"

definition register_model_main ::
  "services \<Rightarrow> model_info \<Rightarrow> environ \<Rightarrow> string \<Rightarrow> string option \<Rightarrow> string option \<Rightarrow> bool \<Rightarrow> (world, exn, int) prog" where
  "register_model_main R mi env repo rv display set_default =
     seq (lift_sum (model_check_env env))
    (bind (lift_sum (fetch_hf_metadata mi repo rv)) (\<lambda>(commit, n).
     bind (call R DriverError (\<lambda>s. (fst (reg_model repo commit (display_name_of repo display) n set_default (reg s)),
         do_op R (RegModel repo commit (display_name_of repo display) n set_default) s)))
       lift_sum))"

section \<open>The hint and the gate\<close>


section \<open>The default revision\<close>

lemma sort_key_hd_le:
  fixes k :: "'x \<Rightarrow> 'k :: linorder"
  assumes "sort_key k rows = x # xs" and "m \<in> set rows"
  shows "k x \<le> k m"
proof -
  have "sorted (k x # map k xs)" using sorted_sort_key [of k rows] assms(1) by simp
  then have "\<forall>y \<in> set xs. k x \<le> k y" by simp
  moreover have "m \<in> set (x # xs)" using assms by (metis set_sort)
  ultimately show ?thesis by auto
qed

lemma sort_key_default:
  assumes "m \<in> set rows" and "m_is_default m" and "\<forall>k \<in> set rows. m_is_default k \<longrightarrow> k = m"
  shows "\<exists>ms. sort_key (\<lambda>m. if m_is_default m then 0 else 1 :: nat) rows = m # ms"
proof -
  let ?k = "\<lambda>m. if m_is_default m then 0 else 1 :: nat"
  obtain x xs where x: "sort_key ?k rows = x # xs"
    using assms(1) by (cases "sort_key ?k rows") (metis empty_iff list.set(1) set_sort, simp)
  have "m_is_default x" using sort_key_hd_le [OF x assms(1)] assms(2) by (simp split: if_splits)
  moreover have "x \<in> set rows" using x by (metis list.set_intros(1) set_sort)
  ultimately show ?thesis using assms(3) x by blast
qed

lemma registered_default:
  assumes "registry_ok g" and "model_of repo rv (models g) = None"
  shows "\<exists>i g'. reg_model repo rv display n True g = (Inr i, g')
    \<and> db_get_model_meta repo (models g') = Some \<lparr>hf_repo_id = repo, revision = rv, param_count = n, vram_hint = vram_hint_for n\<rparr>"
proof -
  let ?i = "next_model_id g"
  let ?new = "\<lparr>m_id = ?i, m_hf_repo_id = repo, m_revision = rv, m_display_name = display,
      m_param_count = n, m_vram_hint = vram_hint_for n, m_status = ''ready'', m_is_default = False\<rparr>"
  let ?rows = "map (defaulted repo ?i) (models g @ [?new])"
  let ?ready = "filter (\<lambda>m. m_hf_repo_id m = repo \<and> m_status m = ''ready'') ?rows"
  let ?m = "defaulted repo ?i ?new"
  have old: "m_id m < ?i" if "m \<in> set (models g)" for m
    using assms(1) that by (auto simp: registry_ok_def models_ok_def)
  have "?m \<in> set ?ready" "m_is_default ?m" by simp_all
  moreover have "\<forall>k \<in> set ?ready. m_is_default k \<longrightarrow> k = ?m" using old by fastforce
  ultimately obtain ms where "sort_key (\<lambda>m. if m_is_default m then 0 else 1 :: nat) ?ready = ?m # ms"
    using sort_key_default by blast
  then have "db_get_model_meta repo ?rows = Some \<lparr>hf_repo_id = repo, revision = rv, param_count = n, vram_hint = vram_hint_for n\<rparr>"
    unfolding db_get_model_meta_def by (simp del: set_append map_append)
  then show ?thesis
    using assms(2) by (simp add: reg_model_def register_model_def Let_def set_default_map)
qed

text \<open>
  C32: registering a new revision as the default makes it the one the worker uses: the script
  returns its id, and from then on the worker's look-up of the repository gives that revision with
  the parameter count of the Hub and the hint computed from it.
\<close>

theorem register_default_used:
  assumes "sched w = []" and "registry_ok (reg (sh w))" and "model_check_env env = Inr ()"
    and "fetch_hf_metadata mi repo rv = Inr (commit, n)" and "model_of repo commit (models (reg (sh w))) = None"
  shows "\<exists>i w'. register_model_main R mi env repo rv display True w = (Inr i, w')
    \<and> repo_get_model_meta R repo w'
       = (Inr (Some \<lparr>hf_repo_id = repo, revision = commit, param_count = n, vram_hint = vram_hint_for n\<rparr>), w')"
proof -
  obtain i g' where g: "reg_model repo commit (display_name_of repo display) n True (reg (sh w)) = (Inr i, g')"
    "db_get_model_meta repo (models g') = Some \<lparr>hf_repo_id = repo, revision = commit, param_count = n, vram_hint = vram_hint_for n\<rparr>"
    using registered_default [OF assms(2,5)] by blast
  let ?w' = "w\<lparr>sh := do_op R (RegModel repo commit (display_name_of repo display) n True) (sh w)\<rparr>"
  have "register_model_main R mi env repo rv display True w = (Inr i, ?w')"
    using assms(1,3,4) g(1) by (simp add: register_model_main_def seq_def bind_def lift_sum_apply call_quiet)
  moreover have "repo_get_model_meta R repo ?w' = (Inr (db_get_model_meta repo (models g')), ?w')"
    using assms(1) g(1) by (simp add: repo_get_model_meta_def query_quiet)
  ultimately show ?thesis using g(2) by auto
qed

definition sample_hub_info :: model_info where
  "sample_hub_info repo rv = Inr \<lparr>hi_sha = Some ''abc'', hi_safetensors = Some (Some 7000000000)\<rparr>"

theorem register_default_used_witness:
  "\<exists>i w'. register_model_main reference_services sample_hub_info (\<lambda>_. Some ''x'') ''org/model'' None None True
      \<lparr>sh = \<lparr>jobs = [], reg = \<lparr>datasets = [], next_dataset_id = 1, models = [], next_model_id = 1\<rparr>,
         rd = \<lparr>rlists = (\<lambda>_. []), rhashes = (\<lambda>_. None)\<rparr>, objects = [], clock = 0\<rparr>, sched = [], disk = [], stop = False\<rparr> = (Inr i, w')
    \<and> repo_get_model_meta reference_services ''org/model'' w'
      = (Inr (Some \<lparr>hf_repo_id = ''org/model'', revision = ''abc'', param_count = Some 7000000000, vram_hint = Some ''comfortable''\<rparr>), w')"
  (is "\<exists>i w'. register_model_main _ _ _ _ _ _ _ ?w = _ \<and> _")
proof -
  have "registry_ok (reg (sh ?w))" by (simp add: registry_ok_def datasets_ok_def models_ok_def one_default_def)
  moreover have "model_check_env (\<lambda>_. Some ''x'') = Inr ()"
    by (simp add: model_check_env_def env_present_def env_get_def)
  moreover have "fetch_hf_metadata sample_hub_info ''org/model'' None = Inr (''abc'', Some 7000000000)"
    by (simp add: fetch_hf_metadata_def sample_hub_info_def)
  moreover have "vram_hint_for (Some 7000000000) = Some ''comfortable''"
    by (simp add: vram_hint_for_def register_COMFORTABLE_MAX_PARAMS_def)
  ultimately show ?thesis
    using register_default_used [of ?w "\<lambda>_. Some ''x''" sample_hub_info "''org/model''" None "''abc''" "Some 7000000000" reference_services None]
    by (simp add: model_of_def)
qed

end
