(* ===== verification/Reconciler.thy ===== *)
theory Reconciler imports Repository begin

text \<open>
  \<open>crucible_worker/reconciler.py\<close>: the sweep that puts back jobs whose worker is gone and
  jobs whose enqueue was lost. The class is a record of its injected collaborators and its two settings.
  The lemmas compute the sweep in a world without interference: which steps it makes, in which order,
  and the two counts it reports.
\<close>

record reconcile_stats =
  abandoned_running :: nat
  orphaned_queued :: nat

record 's reconciler =
  rc_repo :: "'s job_repository"
  rc_queue :: "'s work_queue"
  rc_status :: "'s status_publisher"
  rc_visibility_timeout_seconds :: int
  rc_orphan_grace_seconds :: int

definition reconciler_recover :: "'s reconciler \<Rightarrow> uuid \<Rightarrow> ('s, exn, unit) prog" where
  "reconciler_recover c i =
     seq (jr_reset_to_queued (rc_repo c) i)
    (seq (rc_status c (uuid_str i) (status_value QUEUED) False)
         (wq_requeue (rc_queue c) (uuid_str i)))"

definition reconciler_abandoned :: "'s reconciler \<Rightarrow> ('s, exn, nat) prog" where
  "reconciler_abandoned c =
     bind (jr_find_stale_running (rc_repo c) (rc_visibility_timeout_seconds c)) (\<lambda>stale.
       seq (for_each (reconciler_recover c) stale) (ret (length stale)))"

text \<open>The loop over the candidates, with its counter \<open>recovered\<close>.\<close>

fun requeue_missing :: "'s work_queue \<Rightarrow> string set \<Rightarrow> nat \<Rightarrow> uuid list \<Rightarrow> ('s, exn, nat) prog" where
  "requeue_missing queue live recovered [] = ret recovered"
| "requeue_missing queue live recovered (i # is) =
     (if uuid_str i \<notin> live then seq (wq_requeue queue (uuid_str i)) (requeue_missing queue live (Suc recovered) is)
      else requeue_missing queue live recovered is)"

definition reconciler_orphaned :: "'s reconciler \<Rightarrow> ('s, exn, nat) prog" where
  "reconciler_orphaned c =
     bind (jr_find_orphan_queued (rc_repo c) (rc_orphan_grace_seconds c)) (\<lambda>candidates.
       if candidates = [] then ret 0
       else bind (wq_queued_ids (rc_queue c)) (\<lambda>queued. bind (wq_in_flight_ids (rc_queue c)) (\<lambda>in_flight.
         requeue_missing (rc_queue c) (queued \<union> in_flight) 0 candidates)))"

definition reconciler_reconcile :: "'s reconciler \<Rightarrow> ('s, exn, reconcile_stats) prog" where
  "reconciler_reconcile c =
     bind (reconciler_abandoned c) (\<lambda>abandoned.
     bind (reconciler_orphaned c) (\<lambda>orphaned.
       ret \<lparr>abandoned_running = abandoned, orphaned_queued = orphaned\<rparr>))"

section \<open>The reconciler of a worker\<close>

text \<open>As \<open>main.run\<close> builds it; as in the processor, the block time of the queue plays no part.\<close>

definition new_reconciler :: "services \<Rightarrow> int \<Rightarrow> int \<Rightarrow> int \<Rightarrow> world reconciler" where
  "new_reconciler R block_seconds visibility_timeout_seconds orphan_grace_seconds =
     \<lparr>rc_repo = postgres_repository R, rc_queue = redis_queue R block_seconds, rc_status = publish R,
      rc_visibility_timeout_seconds = visibility_timeout_seconds, rc_orphan_grace_seconds = orphan_grace_seconds\<rparr>"

definition recover_one :: "services \<Rightarrow> uuid \<Rightarrow> (world, exn, unit) prog" where
  "recover_one R = reconciler_recover (new_reconciler R 0 0 0)"

definition recover_abandoned_running :: "services \<Rightarrow> int \<Rightarrow> (world, exn, nat) prog" where
  "recover_abandoned_running R visibility_timeout_seconds = reconciler_abandoned (new_reconciler R 0 visibility_timeout_seconds 0)"

definition recover_orphaned_queued :: "services \<Rightarrow> int \<Rightarrow> (world, exn, nat) prog" where
  "recover_orphaned_queued R orphan_grace_seconds = reconciler_orphaned (new_reconciler R 0 0 orphan_grace_seconds)"

definition reconcile :: "services \<Rightarrow> int \<Rightarrow> int \<Rightarrow> (world, exn, reconcile_stats) prog" where
  "reconcile R visibility_timeout_seconds orphan_grace_seconds =
     reconciler_reconcile (new_reconciler R 0 visibility_timeout_seconds orphan_grace_seconds)"

lemma reconciler_fields:
  "rc_repo (new_reconciler R n v g) = postgres_repository R" "rc_queue (new_reconciler R n v g) = redis_queue R n"
  "rc_status (new_reconciler R n v g) = publish R" "rc_visibility_timeout_seconds (new_reconciler R n v g) = v"
  "rc_orphan_grace_seconds (new_reconciler R n v g) = g"
  by (simp_all add: new_reconciler_def)

lemmas reconciler_methods = reconciler_fields postgres_methods redis_methods

lemma requeue_missing_block: "requeue_missing (redis_queue R n) live k xs = requeue_missing (redis_queue R 0) live k xs"
  by (induction xs arbitrary: k) (simp_all add: redis_methods)

lemma recover_one_code:
  "recover_one R i =
     seq (repo_reset_to_queued R i)
    (seq (publish R (uuid_str i) (status_value QUEUED) False) (rq_requeue R (uuid_str i)))"
  unfolding recover_one_def by (simp only: reconciler_recover_def reconciler_methods)

lemma recover_abandoned_running_code:
  "recover_abandoned_running R v =
     bind (repo_find_stale_running R v) (\<lambda>stale. seq (for_each (recover_one R) stale) (ret (length stale)))"
proof -
  have "reconciler_recover (new_reconciler R 0 v 0) = recover_one R"
    by (rule ext) (simp only: reconciler_recover_def reconciler_methods recover_one_code)
  then show ?thesis
    unfolding recover_abandoned_running_def by (simp only: reconciler_abandoned_def reconciler_methods)
qed

lemma recover_orphaned_queued_code:
  "recover_orphaned_queued R g =
     bind (repo_find_orphan_queued R g) (\<lambda>candidates.
       if candidates = [] then ret 0
       else bind (rq_queued_ids R) (\<lambda>queued. bind (rq_in_flight_ids R) (\<lambda>in_flight.
         requeue_missing (redis_queue R 0) (queued \<union> in_flight) 0 candidates)))"
  unfolding recover_orphaned_queued_def by (simp only: reconciler_orphaned_def reconciler_methods)

lemma reconciler_code: "reconciler_reconcile (new_reconciler R n v g) = reconcile R v g"
proof -
  have a: "reconciler_abandoned (new_reconciler R n v g) = reconciler_abandoned (new_reconciler R 0 v g)" for n
  proof -
    have "reconciler_recover (new_reconciler R n v g) = reconciler_recover (new_reconciler R 0 v g)"
      by (rule ext) (simp only: reconciler_recover_def reconciler_methods)
    then show ?thesis by (simp only: reconciler_abandoned_def reconciler_methods)
  qed
  have o: "reconciler_orphaned (new_reconciler R n v g) = reconciler_orphaned (new_reconciler R 0 v g)"
    by (simp only: reconciler_orphaned_def reconciler_methods requeue_missing_block [of R n])
  show ?thesis
    unfolding reconcile_def reconciler_reconcile_def a [of n] o ..
qed

lemma reconcile_code:
  "reconcile R v g =
     bind (recover_abandoned_running R v) (\<lambda>abandoned.
     bind (recover_orphaned_queued R g) (\<lambda>orphaned.
       ret \<lparr>abandoned_running = abandoned, orphaned_queued = orphaned\<rparr>))"
proof -
  have "reconciler_recover (new_reconciler R 0 v g) = recover_one R"
    by (rule ext) (simp only: reconciler_recover_def reconciler_methods recover_one_code)
  then have a: "reconciler_abandoned (new_reconciler R 0 v g) = recover_abandoned_running R v"
    by (simp only: reconciler_abandoned_def reconciler_methods recover_abandoned_running_code)
  have o: "reconciler_orphaned (new_reconciler R 0 v g) = recover_orphaned_queued R g"
    by (simp only: reconciler_orphaned_def reconciler_methods recover_orphaned_queued_code)
  show ?thesis unfolding reconcile_def reconciler_reconcile_def a o ..
qed

section \<open>On every outcome\<close>

context guarantee begin

lemma resp_requeue_missing: "keeps (\<lambda>v w. G (sh v) (sh w)) (requeue_missing (redis_queue R k) live n xs)"
  by (induction xs arbitrary: n) (simp_all add: redis_methods resp_ret resp_seq resp_repo)

lemma resp_reconcile: "keeps (\<lambda>v w. G (sh v) (sh w)) (reconcile R v g)"
  unfolding reconcile_code recover_abandoned_running_code recover_orphaned_queued_code recover_one_code
  by (intro prog_rules resp_repo resp_requeue_missing)

end

lemma ro_requeue_missing: "raises_only P (requeue_missing (redis_queue R k) live n xs)"
  by (induction xs arbitrary: n) (simp_all add: redis_methods ro_ret ro_seq ro_repo)

lemma ro_reconcile: "raises_only P (reconcile R v g)"
  unfolding reconcile_code recover_abandoned_running_code recover_orphaned_queued_code recover_one_code
  by (intro ro_rules ro_repo ro_requeue_missing)

lemma progress_requeue_missing: "keeps progress (requeue_missing (redis_queue R k) live n xs)"
  by (induction xs arbitrary: n) (simp_all add: redis_methods progress_repo progress.resp_ret progress.resp_seq)

lemma progress_reconcile: "keeps progress (reconcile R v g)"
  unfolding reconcile_code recover_abandoned_running_code recover_orphaned_queued_code recover_one_code
  by (intro progress_rules progress_repo progress_requeue_missing)

section \<open>Without interference\<close>

definition recover_ops :: "uuid \<Rightarrow> op list" where
  "recover_ops i = [ResetToQueued i, Publish (uuid_str i) (status_value QUEUED) False, Requeue (uuid_str i)]"

definition missing :: "services \<Rightarrow> shared \<Rightarrow> uuid \<Rightarrow> bool" where
  "missing R s i \<longleftrightarrow> uuid_str i \<notin> queued_ids R (rd s) \<union> in_flight_ids R (rd s)"

definition abandoned_ids :: "int \<Rightarrow> shared \<Rightarrow> uuid list" where
  "abandoned_ids v s = db_find_stale_running (clock s) v (jobs s)"

definition orphan_ids :: "services \<Rightarrow> int \<Rightarrow> shared \<Rightarrow> uuid list" where
  "orphan_ids R g s = filter (missing R s) (db_find_orphan_queued (clock s) g (jobs s))"

lemma recover_all_quiet:
  "sched w = [] \<Longrightarrow> for_each (recover_one R) xs w = (Inr (), after R (concat (map recover_ops xs)) w)"
proof (induction xs arbitrary: w)
  case (Cons i xs)
  then show ?case
    by (simp add: recover_one_code repo_defs recover_ops_def seq_def bind_assoc bind_Inr [OF quiet_perform])
qed (simp add: ret_apply)

lemma requeue_missing_quiet:
  "sched w = [] \<Longrightarrow> requeue_missing (redis_queue R k) live n xs w =
     (Inr (n + length (filter (\<lambda>i. uuid_str i \<notin> live) xs)),
      after R (map (\<lambda>i. Requeue (uuid_str i)) (filter (\<lambda>i. uuid_str i \<notin> live) xs)) w)"
  by (induction xs arbitrary: n w) (simp_all add: redis_methods ret_apply rq_requeue_def quiet_seq)

lemma reconcile_quiet:
  assumes "sched w = []"
  shows "reconcile R v g w =
    (let w1 = after R (concat (map recover_ops (abandoned_ids v (sh w)))) w;
         orphans = orphan_ids R g (sh w1)
     in (Inr \<lparr>abandoned_running = length (abandoned_ids v (sh w)), orphaned_queued = length orphans\<rparr>,
         after R (map (\<lambda>i. Requeue (uuid_str i)) orphans) w1))"
proof -
  let ?w1 = "after R (concat (map recover_ops (abandoned_ids v (sh w)))) w"
  have a: "recover_abandoned_running R v w = (Inr (length (abandoned_ids v (sh w))), ?w1)"
    using assms recover_all_quiet [OF assms, of R "abandoned_ids v (sh w)"]
    by (simp add: recover_abandoned_running_code repo_find_stale_running_def quiet_query
        abandoned_ids_def seq_Inr ret_apply)
  have o: "recover_orphaned_queued R g w1 = (Inr (length (orphan_ids R g (sh w1))),
      after R (map (\<lambda>i. Requeue (uuid_str i)) (orphan_ids R g (sh w1))) w1)" if "sched w1 = []" for w1
  proof -
    have f: "missing R (sh w1) = (\<lambda>i. uuid_str i \<notin> queued_ids R (rd (sh w1)) \<and> uuid_str i \<notin> in_flight_ids R (rd (sh w1)))"
      by (simp add: missing_def fun_eq_iff)
    show ?thesis
      using that requeue_missing_quiet [OF that, of R 0 "queued_ids R (rd (sh w1)) \<union> in_flight_ids R (rd (sh w1))" 0]
      by (auto simp: recover_orphaned_queued_code repo_find_orphan_queued_def rq_queued_ids_def
          rq_in_flight_ids_def quiet_query orphan_ids_def ret_apply f)
  qed
  show ?thesis
    using assms by (simp add: reconcile_code bind_def a o ret_apply Let_def)
qed

section \<open>What the sweep does to the tables and lists\<close>

definition reset_row :: "int \<Rightarrow> job_row \<Rightarrow> job_row" where
  "reset_row now r = r\<lparr>r_status := QUEUED, r_updated_at := now\<rparr>"

lemma jobs_recover_all:
  "jobs (do_ops R (concat (map recover_ops xs)) s) =
     sql_update (\<lambda>r. r_id r \<in> set xs \<and> r_status r = RUNNING) (reset_row (clock s)) (jobs s)
   \<and> clock (do_ops R (concat (map recover_ops xs)) s) = clock s"
proof (induction xs arbitrary: s)
  case Nil
  then show ?case by (simp add: sql_update_def)
next
  case (Cons i xs)
  have h: "jobs (do_ops R (recover_ops i) s) = sql_update (\<lambda>r. r_id r = i \<and> r_status r = RUNNING) (reset_row (clock s)) (jobs s)
      \<and> clock (do_ops R (recover_ops i) s) = clock s"
    by (simp add: recover_ops_def db_reset_to_queued_def reset_row_def sql_update_def)
  show ?case
    by (simp add: do_ops_append Cons.IH h) (auto simp: sql_update_def reset_row_def)
qed

lemma jobs_requeue_all:
  "jobs (do_ops R (map (\<lambda>i. Requeue (uuid_str i)) xs) s) = jobs s
   \<and> clock (do_ops R (map (\<lambda>i. Requeue (uuid_str i)) xs) s) = clock s"
  by (induction xs arbitrary: s) simp_all

context redis_server begin

lemma queue_recover_all:
  "rlists (rd (do_ops R (concat (map recover_ops xs)) s)) QUEUE_KEY
     = rev (map uuid_str xs) @ rlists (rd s) QUEUE_KEY
   \<and> rlists (rd (do_ops R (concat (map recover_ops xs)) s)) PROCESSING_KEY
     = filter (\<lambda>x. x \<notin> uuid_str ` set xs) (rlists (rd s) PROCESSING_KEY)"
  by (induction xs arbitrary: s) (simp_all add: recover_ops_def requeue_lists publish_lists conj_commute)

lemma queue_requeue_all:
  "rlists (rd (do_ops R (map (\<lambda>i. Requeue (uuid_str i)) xs) s)) QUEUE_KEY
     = rev (map uuid_str xs) @ rlists (rd s) QUEUE_KEY
   \<and> rlists (rd (do_ops R (map (\<lambda>i. Requeue (uuid_str i)) xs) s)) PROCESSING_KEY
     = filter (\<lambda>x. x \<notin> uuid_str ` set xs) (rlists (rd s) PROCESSING_KEY)"
  by (induction xs arbitrary: s) (simp_all add: requeue_lists conj_commute)

lemma missing_iff:
  "missing R s i \<longleftrightarrow> uuid_str i \<notin> set (rlists (rd s) QUEUE_KEY) \<and> uuid_str i \<notin> set (rlists (rd s) PROCESSING_KEY)"
  by (simp add: missing_def queue_id_sets)

end

end
