(* ===== verification/Processor_Props.thy ===== *)
theory Processor_Props imports Processor_Spec Executor begin

text \<open>
  What one call of \<open>process\<close> guarantees. The first theorems hold in every world: whatever
  other workers, the reconciler and the backend do between its calls, and whichever calls
  fail. The later ones compute the outcome of each branch when nothing interferes.
\<close>

section \<open>Sample worlds\<close>

text \<open>A small table of jobs and an allow-list, on which the witnesses evaluate.\<close>

definition sample_hp :: json where
  "sample_hp = JObj [(''learning_rate'', JFloat 3 (- 12)), (''epochs'', JInt 3), (''batch_size'', JInt 2),
     (''lora_rank'', JInt 16), (''lora_alpha'', JInt 32)]"

definition sample_row :: "uuid \<Rightarrow> job_status \<Rightarrow> string \<Rightarrow> job_row" where
  "sample_row i st path = \<lparr>r_id = i, r_status = st, r_base_model = ''org/model'',
     r_dataset_path = path, r_hyperparameters = sample_hp,
     r_checkpoint_path = (if st = COMPLETED then Some ''checkpoints/'' else None),
     r_error_message = (if st = FAILED then Some ''boom'' else None),
     r_created_at = 1, r_updated_at = 2\<rparr>"

definition sample_models :: "model_row list" where
  "sample_models = [\<lparr>m_id = 1, m_hf_repo_id = ''org/model'', m_revision = ''main'',
     m_display_name = ''Model'', m_param_count = Some 7000000000, m_vram_hint = Some ''comfortable'',
     m_status = ''ready'', m_is_default = True\<rparr>]"

definition sample_redis :: redis where
  "sample_redis = \<lparr>rlists = (\<lambda>_. []), rhashes = (\<lambda>_. None)\<rparr>"

definition sample_world :: "job_row list \<Rightarrow> slot list \<Rightarrow> world" where
  "sample_world rows slots = \<lparr>sh = \<lparr>jobs = rows, reg = \<lparr>datasets = [], next_dataset_id = 1, models = sample_models, next_model_id = 2\<rparr>, rd = sample_redis,
     objects = [], clock = 100\<rparr>, sched = slots, disk = [], stop = False\<rparr>"

lemma sample_world_simps [simp]:
  "jobs (sh (sample_world rows slots)) = rows" "models (reg (sh (sample_world rows slots))) = sample_models"
  "clock (sh (sample_world rows slots)) = 100" "sched (sample_world rows slots) = slots"
  "rd (sh (sample_world rows slots)) = sample_redis" "stop (sample_world rows slots) = False"
  by (simp_all add: sample_world_def)

definition sample_job :: "uuid \<Rightarrow> job_status \<Rightarrow> string \<Rightarrow> job" where
  "sample_job i st path = \<lparr>job_id = i, job_state = st, base_model = ''org/model'', dataset_path = path,
     hyperparams = \<lparr>learning_rate = JFloat 3 (- 12), epochs = JInt 3, batch_size = JInt 2,
       lora_rank = JInt 16, lora_alpha = JInt 32\<rparr>,
     checkpoint_path = (if st = COMPLETED then Some ''checkpoints/'' else None),
     error_message = (if st = FAILED then Some ''boom'' else None), created_at = 1, updated_at = 2\<rparr>"

lemma sample_row_simps [simp]: "r_id (sample_row i st p) = i" "r_status (sample_row i st p) = st"
  by (simp_all add: sample_row_def)

lemma sample_job_at [simp]: "job_at i (sample_row i st p # rows) = Some (sample_row i st p)"
  by (simp add: job_at_def)

lemma sample_get_job: "db_get_job i (sample_row i st p # rows) = Inr (Some (sample_job i st p))"
  unfolding db_get_job_def sample_job_at
  by (simp add: row_to_job_def sample_row_def sample_hp_def sample_job_def)

section \<open>In every world\<close>

text \<open>
  C1: processing takes every job of the table along its life cycle and nowhere else, under any
  interleaving with other workers, reconcilers and the backend, and under any failures.
\<close>

theorem process_refines_life:
  assumes "executor_contract R exec"
  shows "table_life (jobs (sh w)) (jobs (sh (snd (process R exec raw w))))"
  using process_advances [OF assms, of w raw] by (simp add: jobs_advance_def)

theorem process_refines_life_witness:
  "table_life (jobs (sh (sample_world [sample_row 1 QUEUED ''ds/a.csv''] [quiet_slot])))
     (jobs (sh (snd (process reference_services stub_executor (uuid_str 1)
        (sample_world [sample_row 1 QUEUED ''ds/a.csv''] [quiet_slot])))))"
  by (rule process_refines_life [OF stub.executor_contract_axioms])

text \<open>
  C5: a finished job is never touched again: the row of a completed, failed or cancelled job is
  the same after processing any id, whatever happens meanwhile.
\<close>

theorem process_terminal_frozen:
  assumes "executor_contract R exec" and "job_at i (jobs (sh w)) = Some r"
    and "r_status r \<in> {COMPLETED, FAILED, CANCELLED}"
  shows "job_at i (jobs (sh (snd (process R exec raw w)))) = Some r"
  using table_lifeD [OF _ assms(2)] process_advances [OF assms(1), of w raw] assms(3) life_star_terminal
  by (metis jobs_advance_def terminal_status_def)

theorem process_terminal_frozen_witness:
  "job_at 1 (jobs (sh (snd (process reference_services stub_executor (uuid_str 1)
     (sample_world [sample_row 1 CANCELLED ''ds/a.csv''] [\<lparr>others = [BackendCancel 1, Claim], signalled = True, fault = Fails ''down''\<rparr>])))))
   = Some (sample_row 1 CANCELLED ''ds/a.csv'')"
  by (rule process_terminal_frozen [OF stub.executor_contract_axioms]) simp_all

text \<open>
  The table stays well-formed: ids are unique, a checkpoint path is recorded exactly for
  completed jobs and an error exactly for failed ones, and no row is younger than the clock.
\<close>

theorem process_keeps_jobs_wf:
  assumes "executor_contract R exec" and "jobs_wf (sh w)"
  shows "jobs_wf (sh (snd (process R exec raw w)))"
  by (rule process_keeps_wf [OF assms])

theorem process_keeps_jobs_wf_witness:
  "jobs_wf (sh (snd (process reference_services stub_executor (uuid_str 1)
     (sample_world [sample_row 1 QUEUED ''ds/a.csv''] [quiet_slot]))))"
  by (rule process_keeps_jobs_wf [OF stub.executor_contract_axioms])
    (simp add: jobs_wf_def rows_wf_def row_wf_def sample_row_def)

text \<open>
  C6: if processing returns, the claimed id is no longer in flight: every path that does not
  raise has acknowledged it.
\<close>

theorem process_returns_acked:
  assumes "redis_server R" and "process R exec raw w = (Inr (), w')"
  shows "raw \<notin> set (rlists (rd (sh w')) PROCESSING_KEY)"
  using postD [OF redis_server.post_process [OF assms(1)] assms(2)] by (simp add: not_in_flight_def)

lemma sample_process_unknown:
  "process reference_services stub_executor (uuid_str 1) (sample_world [] [])
    = (Inr (), after reference_services [Ack (uuid_str 1)] (sample_world [] []))"
  by (rule process_missing) (simp_all add: job_at_def)

theorem process_returns_acked_witness:
  "uuid_str 1 \<notin> set (rlists (rd (sh (after reference_services [Ack (uuid_str 1)] (sample_world [] [])))) PROCESSING_KEY)"
  by (rule process_returns_acked [OF redis_server_reference sample_process_unknown])



section \<open>When nothing interferes\<close>

text \<open>
  The job \<open>i\<close>, delivered as \<open>raw\<close>, is closed with the row \<open>r\<close>: its row is \<open>r\<close>, no other row
  changed, the pending queue is the same, the id is out of the processing list, and the live
  status reads as the row's for 24 hours and is gone afterwards.
\<close>

definition closed_as :: "shared \<Rightarrow> shared \<Rightarrow> string \<Rightarrow> uuid \<Rightarrow> job_row \<Rightarrow> bool" where
  "closed_as s t raw i r \<longleftrightarrow>
     job_at i (jobs t) = Some r
     \<and> (\<forall>k. k \<noteq> i \<longrightarrow> job_at k (jobs t) = job_at k (jobs s))
     \<and> rlists (rd t) QUEUE_KEY = rlists (rd s) QUEUE_KEY
     \<and> rlists (rd t) PROCESSING_KEY = filter (\<lambda>x. x \<noteq> raw) (rlists (rd s) PROCESSING_KEY)
     \<and> (\<forall>u. published_status u (uuid_str i) (rd t) =
          (if u < r_updated_at r + TERMINAL_TTL_SECONDS * 1000000 then Some (status_value (r_status r)) else None))"

lemma job_at_other: "k \<noteq> i \<Longrightarrow> map_option (\<lambda>r. if r_id r = i \<and> P r then f r else r) (job_at k rows) = job_at k rows"
  by (cases "job_at k rows") (auto dest: job_at_id)

lemma closed_by_fail:
  assumes "redis_server R" and "job_at i (jobs s) = Some r" and "r_status r = RUNNING"
  shows "closed_as s (do_ops R (fail_ops raw i m) s) raw i
    (r\<lparr>r_status := FAILED, r_error_message := Some m, r_updated_at := clock s\<rparr>)"
  using assms job_at_id [OF assms(2)]
  by (simp add: closed_as_def fail_ops_jobs redis_server.fail_ops_lists redis_server.fail_ops_published job_at_other)

lemma closed_by_complete:
  assumes "redis_server R" and "job_at i (jobs s) = Some r" and "r_status r = RUNNING"
  shows "closed_as s (do_ops R (complete_ops raw i p) s) raw i
    (r\<lparr>r_status := COMPLETED, r_checkpoint_path := Some p, r_updated_at := clock s\<rparr>)"
  using assms job_at_id [OF assms(2)]
  by (simp add: closed_as_def complete_ops_jobs redis_server.complete_ops_lists
      redis_server.complete_ops_published job_at_other)

text \<open>Starting an active job makes its row a running one and touches nothing else but the status.\<close>

lemma started:
  assumes "redis_server R" and "job_at i (jobs s) = Some r" and "r_status r \<in> {QUEUED, RUNNING}"
  obtains r1 where "job_at i (jobs (do_ops R (start_ops i) s)) = Some r1" and "r_status r1 = RUNNING"
    and "r1\<lparr>r_status := st, r_error_message := m, r_updated_at := u\<rparr>
       = r\<lparr>r_status := st, r_error_message := m, r_updated_at := u\<rparr>"
    and "\<forall>t r'. closed_as (do_ops R (start_ops i) s) t raw i r' \<longrightarrow> closed_as s t raw i r'"
proof -
  define r1 where "r1 = (if r_status r = QUEUED then r\<lparr>r_status := RUNNING, r_updated_at := clock s\<rparr> else r)"
  show thesis
  proof (rule that [of r1])
    show "job_at i (jobs (do_ops R (start_ops i) s)) = Some r1"
      using assms(2) job_at_id [OF assms(2)] by (simp add: start_ops_jobs r1_def)
    show "r_status r1 = RUNNING"
      using assms(3) by (auto simp: r1_def)
    show "r1\<lparr>r_status := st, r_error_message := m, r_updated_at := u\<rparr>
       = r\<lparr>r_status := st, r_error_message := m, r_updated_at := u\<rparr>"
      by (simp add: r1_def)
    show "\<forall>t r'. closed_as (do_ops R (start_ops i) s) t raw i r' \<longrightarrow> closed_as s t raw i r'"
      using assms(1) by (simp add: closed_as_def redis_server.start_ops_lists start_ops_jobs job_at_other)
  qed
qed

text \<open>
  An id that is not a UUID, that has no job, or whose job is already finished is
  acknowledged, and nothing else happens.
\<close>

theorem process_discards:
  assumes "sched w = []"
    and "case uuid_of_text raw of None \<Rightarrow> True
       | Some i \<Rightarrow> (case db_get_job i (jobs (sh w)) of Inr None \<Rightarrow> True
           | Inr (Some j) \<Rightarrow> job_state j \<in> {COMPLETED, FAILED, CANCELLED} | Inl _ \<Rightarrow> False)"
  shows "process R exec raw w = (Inr (), w\<lparr>sh := do_op R (Ack raw) (sh w)\<rparr>)"
proof (cases "uuid_of_text raw")
  case None
  then show ?thesis
    using assms(1) by (simp add: process_malformed perform_quiet)
next
  case (Some i)
  with assms(2) consider "db_get_job i (jobs (sh w)) = Inr None"
    | j where "db_get_job i (jobs (sh w)) = Inr (Some j)" "job_state j \<in> TERMINAL_STATUSES"
    by (auto simp: TERMINAL_STATUSES_def split: sum.splits option.splits)
  then show ?thesis
  proof cases
    case 1
    then have "job_at i (jobs (sh w)) = None"
      by (auto simp: db_get_job_def split: option.splits sum.splits)
    with Some assms(1) show ?thesis
      by (simp add: process_missing after_def)
  next
    case 2
    with Some assms(1) show ?thesis
      by (simp add: process_terminal after_def)
  qed
qed

theorem process_discards_witness:
  "process reference_services stub_executor (uuid_str 1) (sample_world [sample_row 1 CANCELLED ''ds/a.csv''] [])
     = (Inr (), (sample_world [sample_row 1 CANCELLED ''ds/a.csv''] [])\<lparr>sh := do_op reference_services (Ack (uuid_str 1))
         (sh (sample_world [sample_row 1 CANCELLED ''ds/a.csv''] []))\<rparr>)"
  by (rule process_discards) (simp_all add: sample_get_job, simp add: sample_job_def)

text \<open>
  C7: an active job that fails a gate (format of the dataset, allow-list, model size) is closed
  as failed, with the gate's message; the executor is not called.
\<close>

theorem process_rejects:
  assumes "redis_server R" and "sched w = []" and "uuid_of_text raw = Some i"
    and "db_get_job i (jobs (sh w)) = Inr (Some j)" and "job_state j \<in> {QUEUED, RUNNING}"
    and "job_at i (jobs (sh w)) = Some r" and "preflight (sh w) j = Inl e"
  shows "fst (process R exec raw w) = Inr () \<and>
    closed_as (sh w) (sh (snd (process R exec raw w))) raw i
      (r\<lparr>r_status := FAILED, r_error_message := Some (exn_str e), r_updated_at := clock (sh w)\<rparr>)"
proof -
  have "job_state j \<notin> TERMINAL_STATUSES"
    using assms(5) by (auto simp: active_status)
  then have p: "process R exec raw w = (Inr (), after R (start_ops i @ fail_ops raw i (exn_str e)) w)"
    using assms by (intro process_rejected) simp_all
  have st: "r_status r \<in> {QUEUED, RUNNING}"
    using assms(4,5,6) by (auto elim!: db_get_job_SomeE)
  let ?s1 = "do_ops R (start_ops i) (sh w)"
  obtain r1 where r1: "job_at i (jobs ?s1) = Some r1" "r_status r1 = RUNNING"
    and eq: "r1\<lparr>r_status := FAILED, r_error_message := Some (exn_str e), r_updated_at := clock (sh w)\<rparr>
      = r\<lparr>r_status := FAILED, r_error_message := Some (exn_str e), r_updated_at := clock (sh w)\<rparr>"
    and whole: "\<forall>t r'. closed_as ?s1 t raw i r' \<longrightarrow> closed_as (sh w) t raw i r'"
    by (rule started [OF assms(1,6) st, where st = FAILED and m = "Some (exn_str e)"
          and u = "clock (sh w)" and raw = raw])
  have "closed_as (sh w) (do_ops R (fail_ops raw i (exn_str e)) ?s1) raw i
      (r\<lparr>r_status := FAILED, r_error_message := Some (exn_str e), r_updated_at := clock (sh w)\<rparr>)"
    using whole closed_by_fail [OF assms(1) r1, of raw "exn_str e"] by (simp add: start_ops_jobs eq)
  then show ?thesis
    by (simp add: p do_ops_append)
qed

lemma sample_preflight_xlsx:
  "preflight (sh (sample_world rows [])) (sample_job i st ''ds/a.xlsx'')
    = Inl (unsupported_format_error ''xlsx'' ''ds/a.xlsx'')"
proof -
  have "detect_format ''ds/a.xlsx'' = Some ''xlsx''" by code_simp
  then show ?thesis
    by (simp add: preflight_def gate_def sample_job_def validate_dataset_format_def SUPPORTED_FORMATS_def)
qed

theorem process_rejects_witness:
  "closed_as (sh (sample_world [sample_row 1 QUEUED ''ds/a.xlsx''] []))
     (sh (snd (process reference_services stub_executor (uuid_str 1) (sample_world [sample_row 1 QUEUED ''ds/a.xlsx''] []))))
     (uuid_str 1) 1 ((sample_row 1 QUEUED ''ds/a.xlsx'')\<lparr>r_status := FAILED, r_error_message := Some
       (exn_str (unsupported_format_error ''xlsx'' ''ds/a.xlsx'')), r_updated_at := 100\<rparr>)"
  using process_rejects [OF redis_server_reference, of "sample_world [sample_row 1 QUEUED ''ds/a.xlsx''] []"
      "uuid_str 1" 1 "sample_job 1 QUEUED ''ds/a.xlsx''" "sample_row 1 QUEUED ''ds/a.xlsx''" _ stub_executor]
  by (simp add: sample_get_job sample_preflight_xlsx) (simp add: sample_job_def)

text \<open>
  C9: when the executor raises, the job is closed as failed with \<open>'worker error: '\<close> and the
  text of the exception (the bare text if the executor raised one of the two rejections),
  provided the job was still running then.
\<close>

theorem process_executor_error:
  assumes "redis_server R" and "sched w = []" and "uuid_of_text raw = Some i"
    and "db_get_job i (jobs (sh w)) = Inr (Some j)" and "job_state j \<in> {QUEUED, RUNNING}"
    and "preflight (sh w) j = Inr m"
    and "exec j m (heartbeat_of R j) (after R (start_ops i) w) = (Inl e, w')" and "sched w' = []"
    and "is_exception e" and "job_at i (jobs (sh w')) = Some r" and "r_status r = RUNNING"
  shows "fst (process R exec raw w) = Inr () \<and>
    closed_as (sh w') (sh (snd (process R exec raw w))) raw i
      (r\<lparr>r_status := FAILED, r_error_message := Some (failure_message e), r_updated_at := clock (sh w')\<rparr>)"
proof -
  have "job_state j \<notin> TERMINAL_STATUSES"
    using assms(5) by (auto simp: active_status)
  then have "process R exec raw w = (Inr (), after R (fail_ops raw i (failure_message e)) w')"
    using assms by (intro process_executor_fails) simp_all
  then show ?thesis
    using closed_by_fail [OF assms(1,10,11)] by simp
qed

definition failing_executor :: executor where
  "failing_executor j m hb = seq hb (raise (GpuError ''out of memory''))"

lemma sample_preflight_csv:
  "preflight (sh (sample_world rows [])) (sample_job i st ''ds/a.csv'') = Inr
     \<lparr>hf_repo_id = ''org/model'', revision = ''main'', param_count = Some 7000000000, vram_hint = Some ''comfortable''\<rparr>"
proof -
  have "detect_format ''ds/a.csv'' = Some ''csv''" by code_simp
  then show ?thesis
    by (simp add: preflight_def gate_def sample_job_def validate_dataset_format_def SUPPORTED_FORMATS_def
        sample_models_def db_get_model_meta_def check_model_fits_def TIGHT_MAX_PARAMS_def)
qed

lemma sample_job_simps [simp]: "job_id (sample_job i st p) = i" "job_state (sample_job i st p) = st"
  by (simp_all add: sample_job_def)

lemma sample_running:
  "job_at i (jobs (do_ops R (start_ops i @ beat_ops i) (sh (sample_world [sample_row i QUEUED p] []))))
    = Some (sample_row i RUNNING p\<lparr>r_updated_at := 100\<rparr>)"
  by (simp add: do_ops_append beat_ops_jobs start_ops_jobs del: do_ops_simps) (simp add: sample_row_def)

lemma sample_running_clock:
  "clock (do_ops R (start_ops i @ beat_ops i) (sh (sample_world rows []))) = 100"
  by (simp add: do_ops_append beat_ops_jobs start_ops_jobs del: do_ops_simps)

theorem process_executor_error_witness:
  "closed_as (sh (after reference_services (start_ops 1 @ beat_ops 1) (sample_world [sample_row 1 QUEUED ''ds/a.csv''] [])))
     (sh (snd (process reference_services failing_executor (uuid_str 1) (sample_world [sample_row 1 QUEUED ''ds/a.csv''] []))))
     (uuid_str 1) 1 (sample_row 1 RUNNING ''ds/a.csv''\<lparr>r_status := FAILED,
       r_error_message := Some ''worker error: out of memory'', r_updated_at := 100\<rparr>)"
  using process_executor_error [OF redis_server_reference, of "sample_world [sample_row 1 QUEUED ''ds/a.csv''] []"
      "uuid_str 1" 1 "sample_job 1 QUEUED ''ds/a.csv''" _ failing_executor "GpuError ''out of memory''"
      "after reference_services (start_ops 1 @ beat_ops 1) (sample_world [sample_row 1 QUEUED ''ds/a.csv''] [])"
      "sample_row 1 RUNNING ''ds/a.csv''\<lparr>r_updated_at := 100\<rparr>"]
  by (simp add: sample_get_job sample_preflight_csv sample_running sample_running_clock failing_executor_def
      seq_Inr [OF heartbeat_quiet] raise_apply failure_message_def)

text \<open>
  C8: when the executor returns a checkpoint path and the job is still running, the job is
  closed as completed with that path.
\<close>

theorem process_completion:
  assumes "redis_server R" and "sched w = []" and "uuid_of_text raw = Some i"
    and "db_get_job i (jobs (sh w)) = Inr (Some j)" and "job_state j \<in> {QUEUED, RUNNING}"
    and "preflight (sh w) j = Inr m"
    and "exec j m (heartbeat_of R j) (after R (start_ops i) w) = (Inr ckpt, w')" and "sched w' = []"
    and "job_at i (jobs (sh w')) = Some r" and "r_status r = RUNNING"
  shows "fst (process R exec raw w) = Inr () \<and>
    closed_as (sh w') (sh (snd (process R exec raw w))) raw i
      (r\<lparr>r_status := COMPLETED, r_checkpoint_path := Some ckpt, r_updated_at := clock (sh w')\<rparr>)"
proof -
  have "job_state j \<notin> TERMINAL_STATUSES"
    using assms(5) by (auto simp: active_status)
  then have "process R exec raw w = (Inr (), after R (complete_ops raw i ckpt) w')"
    using assms by (intro process_completes) simp_all
  then show ?thesis
    using closed_by_complete [OF assms(1,9,10)] by simp
qed

theorem process_completion_witness:
  "closed_as (sh (after reference_services (start_ops 1 @ beat_ops 1) (sample_world [sample_row 1 QUEUED ''ds/a.csv''] [])))
     (sh (snd (process reference_services stub_executor (uuid_str 1) (sample_world [sample_row 1 QUEUED ''ds/a.csv''] []))))
     (uuid_str 1) 1 (sample_row 1 RUNNING ''ds/a.csv''\<lparr>r_status := COMPLETED,
       r_checkpoint_path := Some (checkpoint_prefix (sample_job 1 QUEUED ''ds/a.csv'')), r_updated_at := 100\<rparr>)"
  using process_completion [OF redis_server_reference, of "sample_world [sample_row 1 QUEUED ''ds/a.csv''] []"
      "uuid_str 1" 1 "sample_job 1 QUEUED ''ds/a.csv''" _ stub_executor "checkpoint_prefix (sample_job 1 QUEUED ''ds/a.csv'')"
      "after reference_services (start_ops 1 @ beat_ops 1) (sample_world [sample_row 1 QUEUED ''ds/a.csv''] [])"
      "sample_row 1 RUNNING ''ds/a.csv''\<lparr>r_updated_at := 100\<rparr>"]
  by (simp add: sample_get_job sample_preflight_csv sample_running sample_running_clock stub_executor_def
      seq_Inr [OF heartbeat_quiet] ret_apply)

end
