(* ===== verification/Reconciler_Props.thy ===== *)
theory Reconciler_Props imports Reconciler Processor_Props begin

text \<open>
  The sweep as a whole: its exact effect, that a second sweep finds nothing, which jobs it
  brings back, which it leaves alone, and the one kind of lost job it never brings back.
\<close>

section \<open>The first half does not disturb the second\<close>

definition sweep_start :: "services \<Rightarrow> int \<Rightarrow> shared \<Rightarrow> shared" where
  "sweep_start R v s = do_ops R (concat (map recover_ops (abandoned_ids v s))) s"

definition sweep :: "services \<Rightarrow> int \<Rightarrow> int \<Rightarrow> shared \<Rightarrow> shared" where
  "sweep R v g s = do_ops R (map (\<lambda>i. Requeue (uuid_str i)) (orphan_ids R g s)) (sweep_start R v s)"

definition swept_rows :: "int \<Rightarrow> int \<Rightarrow> job_row list \<Rightarrow> job_row list" where
  "swept_rows now v rows = map (\<lambda>r. if is_stale_running now v r then reset_row now r else r) rows"

lemma sweep_start_jobs:
  assumes "distinct (map r_id (jobs s))"
  shows "jobs (sweep_start R v s) = swept_rows (clock s) v (jobs s)"
proof -
  have "r_id r \<in> set (abandoned_ids v s) \<and> r_status r = RUNNING \<longleftrightarrow> is_stale_running (clock s) v r"
    if "r \<in> set (jobs s)" for r
    using same_id_same_row [OF assms that] that
    by (auto simp: abandoned_ids_def db_find_stale_running_def is_stale_running_def)
  then show ?thesis
    by (auto simp: sweep_start_def jobs_recover_all sql_update_def swept_rows_def)
qed

lemma sweep_start_clock: "clock (sweep_start R v s) = clock s"
  by (simp add: sweep_start_def jobs_recover_all)

lemma candidates_swept:
  "0 \<le> g \<Longrightarrow> db_find_orphan_queued now g (swept_rows now v rows) = db_find_orphan_queued now g rows"
  by (induction rows) (auto simp: db_find_orphan_queued_def swept_rows_def is_orphan_candidate_def
      reset_row_def is_stale_running_def seconds_def)

lemma candidate_not_stale:
  assumes "distinct (map r_id (jobs s))" and "i \<in> set (db_find_orphan_queued (clock s) g (jobs s))"
  shows "i \<notin> set (abandoned_ids v s)"
proof
  assume "i \<in> set (abandoned_ids v s)"
  then obtain q where q: "q \<in> set (jobs s)" "r_id q = i" "r_status q = RUNNING"
    by (auto simp: abandoned_ids_def db_find_stale_running_def is_stale_running_def)
  obtain r where r: "r \<in> set (jobs s)" "r_id r = i" "r_status r = QUEUED"
    using assms(2) by (auto simp: db_find_orphan_queued_def is_orphan_candidate_def)
  from same_id_same_row [OF assms(1) q(1) r(1)] q r show False by simp
qed

context redis_server begin

lemma sweep_start_lists:
  "rlists (rd (sweep_start R v s)) QUEUE_KEY = rev (map uuid_str (abandoned_ids v s)) @ rlists (rd s) QUEUE_KEY"
  "rlists (rd (sweep_start R v s)) PROCESSING_KEY
     = filter (\<lambda>x. x \<notin> uuid_str ` set (abandoned_ids v s)) (rlists (rd s) PROCESSING_KEY)"
  by (simp_all add: sweep_start_def queue_recover_all)

lemma orphans_sweep_start:
  assumes "distinct (map r_id (jobs s))" and "0 \<le> g"
  shows "orphan_ids R g (sweep_start R v s) = orphan_ids R g s"
proof -
  have "missing R (sweep_start R v s) i \<longleftrightarrow> missing R s i"
    if "i \<in> set (db_find_orphan_queued (clock s) g (jobs s))" for i
    using candidate_not_stale [OF assms(1) that, of v]
    by (auto simp: missing_iff sweep_start_lists)
  then show ?thesis
    using assms by (auto simp: orphan_ids_def sweep_start_jobs sweep_start_clock candidates_swept intro: filter_cong)
qed

lemma sweep_lists:
  assumes "distinct (map r_id (jobs s))"
  shows "rlists (rd (sweep R v g s)) QUEUE_KEY = rev (map uuid_str (orphan_ids R g s))
      @ rev (map uuid_str (abandoned_ids v s)) @ rlists (rd s) QUEUE_KEY"
    and "rlists (rd (sweep R v g s)) PROCESSING_KEY
      = filter (\<lambda>x. x \<notin> uuid_str ` set (abandoned_ids v s)) (rlists (rd s) PROCESSING_KEY)"
proof -
  have "x \<notin> uuid_str ` set (orphan_ids R g s)" if "x \<in> set (rlists (rd s) PROCESSING_KEY)" for x
    using that by (auto simp: orphan_ids_def missing_iff)
  then show "rlists (rd (sweep R v g s)) PROCESSING_KEY
      = filter (\<lambda>x. x \<notin> uuid_str ` set (abandoned_ids v s)) (rlists (rd s) PROCESSING_KEY)"
    by (auto simp: sweep_def queue_requeue_all sweep_start_lists intro!: filter_cong)
qed (simp add: sweep_def queue_requeue_all sweep_start_lists)

lemma reconcile_is_sweep:
  assumes "sched w = []" and "distinct (map r_id (jobs (sh w)))" and "0 \<le> g"
  shows "reconcile R v g w =
    (Inr \<lparr>abandoned_running = length (abandoned_ids v (sh w)), orphaned_queued = length (orphan_ids R g (sh w))\<rparr>,
     w\<lparr>sh := sweep R v g (sh w)\<rparr>)"
proof -
  have s: "do_ops R (concat (map recover_ops (abandoned_ids v (sh w)))) (sh w) = sweep_start R v (sh w)"
    by (simp add: sweep_start_def)
  show ?thesis
    using orphans_sweep_start [OF assms(2,3), of v]
    by (simp add: reconcile_quiet [OF assms(1)] s Let_def)
      (simp add: after_def do_ops_append s sweep_def)
qed

end

lemma sweep_jobs:
  "distinct (map r_id (jobs s)) \<Longrightarrow> jobs (sweep R v g s) = swept_rows (clock s) v (jobs s)"
  by (simp add: sweep_def jobs_requeue_all sweep_start_jobs)

lemma sweep_clock [simp]: "clock (sweep R v g s) = clock s"
  by (simp add: sweep_def jobs_requeue_all sweep_start_clock)

lemma sweep_nothing: "abandoned_ids v s = [] \<Longrightarrow> orphan_ids R g s = [] \<Longrightarrow> sweep R v g s = s"
  by (simp add: sweep_def sweep_start_def)

lemma swept_job_at:
  "job_at i (swept_rows now v rows) = map_option (\<lambda>r. if is_stale_running now v r then reset_row now r else r) (job_at i rows)"
  unfolding job_at_def swept_rows_def by (rule find_map_cong) (simp add: reset_row_def)

lemma swept_ids [simp]: "map r_id (swept_rows now v rows) = map r_id rows"
  by (simp add: swept_rows_def reset_row_def o_def if_distrib cong: if_cong)

section \<open>Properties\<close>

text \<open>A world at rest, hours after the jobs of the samples were created.\<close>

definition idle_world :: "job_row list \<Rightarrow> string list \<Rightarrow> string list \<Rightarrow> world" where
  "idle_world rows queue processing = \<lparr>sh = \<lparr>jobs = rows, reg = \<lparr>datasets = [], next_dataset_id = 1, models = sample_models, next_model_id = 2\<rparr>,
     rd = \<lparr>rlists = (\<lambda>k. if k = QUEUE_KEY then queue else if k = PROCESSING_KEY then processing else []),
       rhashes = (\<lambda>_. None)\<rparr>,
     objects = [], clock = 10000000000\<rparr>, sched = [], disk = [], stop = False\<rparr>"

lemma idle_world_simps [simp]:
  "jobs (sh (idle_world rows q p)) = rows" "clock (sh (idle_world rows q p)) = 10000000000"
  "sched (idle_world rows q p) = []"
  "rlists (rd (sh (idle_world rows q p))) QUEUE_KEY = q" "rlists (rd (sh (idle_world rows q p))) PROCESSING_KEY = p"
  by (simp_all add: idle_world_def)

text \<open>
  C11: one sweep resets exactly the running jobs whose heartbeat is older than the timeout and
  puts them back on the queue, puts back every old queued job that is in neither list, clears
  the processing entries of the jobs it reset, changes nothing else of the table and the lists,
  and reports both counts.
\<close>

theorem reconcile_effect:
  assumes "redis_server R" and "sched w = []" and "distinct (map r_id (jobs (sh w)))" and "0 \<le> g"
  shows "let s = sh w; t = sh (snd (reconcile R v g w));
             stale = db_find_stale_running (clock s) v (jobs s);
             lost = filter (\<lambda>i. uuid_str i \<notin> set (rlists (rd s) QUEUE_KEY) \<union> set (rlists (rd s) PROCESSING_KEY))
               (db_find_orphan_queued (clock s) g (jobs s))
    in fst (reconcile R v g w) = Inr \<lparr>abandoned_running = length stale, orphaned_queued = length lost\<rparr>
       \<and> jobs t = map (\<lambda>r. if is_stale_running (clock s) v r
           then r\<lparr>r_status := QUEUED, r_updated_at := clock s\<rparr> else r) (jobs s)
       \<and> rlists (rd t) QUEUE_KEY = rev (map uuid_str (stale @ lost)) @ rlists (rd s) QUEUE_KEY
       \<and> rlists (rd t) PROCESSING_KEY = filter (\<lambda>x. x \<notin> uuid_str ` set stale) (rlists (rd s) PROCESSING_KEY)"
proof -
  have "orphan_ids R g (sh w) = filter (\<lambda>i. uuid_str i \<notin> set (rlists (rd (sh w)) QUEUE_KEY) \<union> set (rlists (rd (sh w)) PROCESSING_KEY))
      (db_find_orphan_queued (clock (sh w)) g (jobs (sh w)))"
    using redis_server.missing_iff [OF assms(1)] by (simp add: orphan_ids_def cong: filter_cong)
  then show ?thesis
    by (simp add: redis_server.reconcile_is_sweep [OF assms] Let_def sweep_jobs [OF assms(3)]
        redis_server.sweep_lists [OF assms(1,3)] abandoned_ids_def swept_rows_def reset_row_def)
qed

theorem reconcile_effect_witness:
  "let w = idle_world [sample_row 1 RUNNING ''a'', sample_row 2 QUEUED ''b'', sample_row 3 COMPLETED ''c''] [] [uuid_str 1]
   in jobs (sh (snd (reconcile reference_services 900 60 w)))
        = [(sample_row 1 RUNNING ''a'')\<lparr>r_status := QUEUED, r_updated_at := 10000000000\<rparr>,
           sample_row 2 QUEUED ''b'', sample_row 3 COMPLETED ''c'']
      \<and> rlists (rd (sh (snd (reconcile reference_services 900 60 w)))) QUEUE_KEY = [uuid_str 2, uuid_str 1]"
  using reconcile_effect [OF redis_server_reference, of "idle_world [sample_row 1 RUNNING ''a'',
      sample_row 2 QUEUED ''b'', sample_row 3 COMPLETED ''c''] [] [uuid_str 1]" 60 900]
  by (simp add: Let_def is_stale_running_def db_find_stale_running_def db_find_orphan_queued_def
      is_orphan_candidate_def seconds_def) (simp add: sample_row_def)

text \<open>
  C13: a second sweep right after the first finds nothing to do and leaves the world as it is.
\<close>

theorem reconcile_idempotent:
  assumes "redis_server R" and "sched w = []" and "distinct (map r_id (jobs (sh w)))" and "0 \<le> g"
  shows "let w' = snd (reconcile R v g w)
    in reconcile R v g w' = (Inr \<lparr>abandoned_running = 0, orphaned_queued = 0\<rparr>, w')"
proof -
  let ?s = "sh w" and ?t = "sweep R v g (sh w)"
  have stale: "abandoned_ids v ?t = []"
    by (auto simp: abandoned_ids_def sweep_jobs [OF assms(3)] swept_rows_def db_find_stale_running_def
        is_stale_running_def reset_row_def filter_empty_conv)
  have "\<not> missing R ?t i" if "i \<in> set (db_find_orphan_queued (clock ?t) g (jobs ?t))" for i
  proof -
    have i: "i \<in> set (db_find_orphan_queued (clock ?s) g (jobs ?s))"
      using that by (simp add: sweep_jobs [OF assms(3)] candidates_swept [OF assms(4)])
    then show ?thesis
      using candidate_not_stale [OF assms(3) i, of v] redis_server.missing_iff [OF assms(1)]
      by (auto simp: redis_server.sweep_lists [OF assms(1,3)] orphan_ids_def)
  qed
  then have lost: "orphan_ids R g ?t = []"
    by (auto simp: orphan_ids_def filter_empty_conv)
  have again: "sweep R v g ?t = ?t"
    by (rule sweep_nothing [OF stale lost])
  have d: "distinct (map r_id (jobs ?t))"
    using assms(3) by (simp add: sweep_jobs)
  show ?thesis
    using redis_server.reconcile_is_sweep [OF assms(1), of "w\<lparr>sh := ?t\<rparr>" g v] assms d
    by (simp add: redis_server.reconcile_is_sweep [OF assms] Let_def stale lost again)
qed

theorem reconcile_idempotent_witness:
  "let w' = snd (reconcile reference_services 900 60 (idle_world [sample_row 1 RUNNING ''a'', sample_row 2 QUEUED ''b''] [] [uuid_str 1]))
   in reconcile reference_services 900 60 w' = (Inr \<lparr>abandoned_running = 0, orphaned_queued = 0\<rparr>, w')"
  by (rule reconcile_idempotent [OF redis_server_reference]) simp_all

text \<open>What a sweep does for each old job.\<close>

lemma sweep_recovers:
  assumes "redis_server R" and "sched w = []" and "distinct (map r_id (jobs (sh w)))" and "0 \<le> g"
    and "r \<in> set (jobs (sh w))"
  shows "let t = sh (snd (reconcile R v g w)); queue = set (rlists (rd t) QUEUE_KEY);
             processing = set (rlists (rd t) PROCESSING_KEY); x = uuid_str (r_id r) in
    (is_stale_running (clock (sh w)) v r \<longrightarrow> x \<in> queue \<and> x \<notin> processing
        \<and> map_option r_status (job_at (r_id r) (jobs t)) = Some QUEUED)
    \<and> (is_orphan_candidate (clock (sh w)) g r \<longrightarrow> x \<in> queue \<union> processing)"
proof -
  have st: "r_id r \<in> set (abandoned_ids v (sh w))" if "is_stale_running (clock (sh w)) v r"
    using that assms(5) by (auto simp: abandoned_ids_def db_find_stale_running_def)
  have or: "x \<in> queue \<union> processing"
    if "is_orphan_candidate (clock (sh w)) g r" and "x = uuid_str (r_id r)"
      and "queue = set (rlists (rd (sweep R v g (sh w))) QUEUE_KEY)"
      and "processing = set (rlists (rd (sweep R v g (sh w))) PROCESSING_KEY)" for x queue processing
    using that assms(5) redis_server.missing_iff [OF assms(1)]
    by (auto simp: redis_server.sweep_lists [OF assms(1,3)] orphan_ids_def db_find_orphan_queued_def)
  show ?thesis
    using st or job_at_distinct [OF assms(3,5)]
    by (simp add: redis_server.reconcile_is_sweep [OF assms(1-4)] Let_def sweep_jobs [OF assms(3)]
        redis_server.sweep_lists [OF assms(1,3)] swept_job_at reset_row_def)
qed

text \<open>
  C12: after a sweep no old job is lost: an abandoned running job is queued and in the queue and
  no longer in flight, and every queued job older than the grace time is in one of the lists.
\<close>

theorem reconcile_recovers:
  assumes "redis_server R" and "sched w = []" and "distinct (map r_id (jobs (sh w)))" and "0 \<le> g"
    and "r \<in> set (jobs (sh w))"
  shows "let t = sh (snd (reconcile R v g w)); queue = set (rlists (rd t) QUEUE_KEY);
             processing = set (rlists (rd t) PROCESSING_KEY); x = uuid_str (r_id r) in
    (is_stale_running (clock (sh w)) v r \<longrightarrow> x \<in> queue \<and> x \<notin> processing
        \<and> map_option r_status (job_at (r_id r) (jobs t)) = Some QUEUED)
    \<and> (is_orphan_candidate (clock (sh w)) g r \<longrightarrow> x \<in> queue \<union> processing)"
  by (rule sweep_recovers [OF assms])

theorem reconcile_recovers_witness:
  "uuid_str 1 \<in> set (rlists (rd (sh (snd (reconcile reference_services 900 60
      (idle_world [sample_row 1 RUNNING ''a''] [] [uuid_str 1]))))) QUEUE_KEY)"
  using reconcile_recovers [OF redis_server_reference, of "idle_world [sample_row 1 RUNNING ''a''] [] [uuid_str 1]"
      60 "sample_row 1 RUNNING ''a''" 900]
  by (simp add: Let_def is_stale_running_def seconds_def) (simp add: sample_row_def)

text \<open>
  A sweep leaves a live job alone: the row of a running job with a recent heartbeat does not
  change, its id is not queued again, and it stays in flight.
\<close>

theorem reconcile_spares_live:
  assumes "redis_server R" and "sched w = []" and "distinct (map r_id (jobs (sh w)))" and "0 \<le> g"
    and "job_at i (jobs (sh w)) = Some r" and "r_status r = RUNNING"
    and "clock (sh w) - seconds v \<le> r_updated_at r"
  shows "let t = sh (snd (reconcile R v g w)) in
    job_at i (jobs t) = Some r
    \<and> count_list (rlists (rd t) QUEUE_KEY) (uuid_str i) = count_list (rlists (rd (sh w)) QUEUE_KEY) (uuid_str i)
    \<and> count_list (rlists (rd t) PROCESSING_KEY) (uuid_str i) = count_list (rlists (rd (sh w)) PROCESSING_KEY) (uuid_str i)"
proof -
  have r: "r \<in> set (jobs (sh w))" "r_id r = i"
    using job_at_mem [OF assms(5)] job_at_id [OF assms(5)] by simp_all
  have a: "i \<notin> set (abandoned_ids v (sh w))"
    using same_id_same_row [OF assms(3) r(1)] assms(7) r(2)
    by (auto simp: abandoned_ids_def db_find_stale_running_def is_stale_running_def)
  have o: "i \<notin> set (orphan_ids R g (sh w))"
    using same_id_same_row [OF assms(3) r(1)] assms(6) r(2)
    by (auto simp: orphan_ids_def db_find_orphan_queued_def is_orphan_candidate_def)
  have c: "count_list (rev (map uuid_str xs)) (uuid_str i) = 0" if "i \<notin> set xs" for xs
    using that by (auto simp: count_list_0_iff)
  have f: "count_list (filter (\<lambda>x. x \<notin> uuid_str ` S) xs) (uuid_str i) = count_list xs (uuid_str i)" if "i \<notin> S" for S xs
    using that by (induction xs) auto
  show ?thesis
    using assms(5-7) a o c f
    by (simp add: redis_server.reconcile_is_sweep [OF assms(1-4)] Let_def sweep_jobs [OF assms(3)]
        redis_server.sweep_lists [OF assms(1,3)] swept_job_at is_stale_running_def)
qed

theorem reconcile_spares_live_witness:
  "job_at 1 (jobs (sh (snd (reconcile reference_services 900 60
      (idle_world [(sample_row 1 RUNNING ''a'')\<lparr>r_updated_at := 9999000000\<rparr>] [] [uuid_str 1])))))
     = Some ((sample_row 1 RUNNING ''a'')\<lparr>r_updated_at := 9999000000\<rparr>)"
  using reconcile_spares_live [OF redis_server_reference,
      of "idle_world [(sample_row 1 RUNNING ''a'')\<lparr>r_updated_at := 9999000000\<rparr>] [] [uuid_str 1]" 60 1
      "(sample_row 1 RUNNING ''a'')\<lparr>r_updated_at := 9999000000\<rparr>" 900]
  by (simp add: Let_def job_at_def seconds_def)

section \<open>The job no sweep brings back\<close>

text \<open>Sweeps at any later times: wait, sweep, wait, sweep.\<close>

fun later_sweeps :: "services \<Rightarrow> int \<Rightarrow> int \<Rightarrow> nat list \<Rightarrow> world \<Rightarrow> world" where
  "later_sweeps R v g [] w = w"
| "later_sweeps R v g (n # ns) w =
     later_sweeps R v g ns (snd (reconcile R v g (w\<lparr>sh := do_op R (Tick n) (sh w)\<rparr>)))"

lemma sweep_strands:
  assumes "redis_server R" and "sched w = []" and "distinct (map r_id (jobs (sh w)))" and "0 \<le> g"
    and "job_at i (jobs (sh w)) = Some r" and "r_status r = QUEUED"
    and "uuid_str i \<in> set (rlists (rd (sh w)) PROCESSING_KEY)" and "uuid_str i \<notin> set (rlists (rd (sh w)) QUEUE_KEY)"
  shows "let t = sh (snd (reconcile R v g w)) in job_at i (jobs t) = Some r
    \<and> uuid_str i \<in> set (rlists (rd t) PROCESSING_KEY) \<and> uuid_str i \<notin> set (rlists (rd t) QUEUE_KEY)
    \<and> distinct (map r_id (jobs t)) \<and> sched (snd (reconcile R v g w)) = []"
proof -
  have r: "r \<in> set (jobs (sh w))" "r_id r = i"
    using job_at_mem [OF assms(5)] job_at_id [OF assms(5)] by simp_all
  have a: "i \<notin> set (abandoned_ids v (sh w))"
    using same_id_same_row [OF assms(3) r(1)] assms(6) r(2)
    by (auto simp: abandoned_ids_def db_find_stale_running_def is_stale_running_def)
  have o: "i \<notin> set (orphan_ids R g (sh w))"
    using assms(7) by (auto simp: orphan_ids_def redis_server.missing_iff [OF assms(1)])
  show ?thesis
    using assms a o
    by (auto simp: redis_server.reconcile_is_sweep [OF assms(1-4)] Let_def sweep_jobs [OF assms(3)]
        redis_server.sweep_lists [OF assms(1,3)] swept_job_at is_stale_running_def)
qed

lemma later_sweeps_strand:
  assumes "redis_server R" and "sched w = []" and "distinct (map r_id (jobs (sh w)))" and "0 \<le> g"
    and "job_at i (jobs (sh w)) = Some r" and "r_status r = QUEUED"
    and "uuid_str i \<in> set (rlists (rd (sh w)) PROCESSING_KEY)" and "uuid_str i \<notin> set (rlists (rd (sh w)) QUEUE_KEY)"
  shows "let t = sh (later_sweeps R v g ns w) in job_at i (jobs t) = Some r
    \<and> uuid_str i \<in> set (rlists (rd t) PROCESSING_KEY) \<and> uuid_str i \<notin> set (rlists (rd t) QUEUE_KEY)"
  using assms
proof (induction ns arbitrary: w)
  case (Cons n ns)
  let ?w = "w\<lparr>sh := do_op R (Tick n) (sh w)\<rparr>"
  have "let t = sh (snd (reconcile R v g ?w)) in job_at i (jobs t) = Some r
    \<and> uuid_str i \<in> set (rlists (rd t) PROCESSING_KEY) \<and> uuid_str i \<notin> set (rlists (rd t) QUEUE_KEY)
    \<and> distinct (map r_id (jobs t)) \<and> sched (snd (reconcile R v g ?w)) = []"
    using Cons.prems by (intro sweep_strands) simp_all
  then show ?case
    using Cons.IH [of "snd (reconcile R v g ?w)"] Cons.prems(1,4,6) by (simp add: Let_def)
qed simp

text \<open>
  A queued job whose id is in the processing list and in no queue is never brought back: no
  number of sweeps, however late, puts it on the queue. That is the state a worker leaves
  behind that dies, or loses the database, between its claim and the mark as running.
\<close>

end
