(* ===== verification/Worker_Main.thy ===== *)
theory Worker_Main imports Executor Reconciler_Props Config "HOL-Library.While_Combinator" begin

text \<open>
  \<open>crucible_worker/main.py\<close>: the loop of one worker process. \<open>worker_run\<close> is \<open>None\<close> when the
  loop never ends. The clients are built by the configuration (their constructors do not
  contact the services), the executor is a parameter, and \<open>time.monotonic()\<close> reads the clock.
  Closing the Redis client at the end has no effect on the shared state.
\<close>

definition monotonic :: "(world, exn, int) prog" where
  "monotonic w = (Inr (clock (sh w)), w)"

text \<open>The objects of the setup: the queue, the processor and the reconciler of this process.\<close>

definition worker_queue :: "services \<Rightarrow> config \<Rightarrow> world work_queue" where
  "worker_queue R cfg = redis_queue R (queue_block_seconds cfg)"

definition worker_processor :: "services \<Rightarrow> config \<Rightarrow> executor \<Rightarrow> world job_processor" where
  "worker_processor R cfg exec = new_job_processor R (queue_block_seconds cfg) exec"

definition worker_reconciler :: "services \<Rightarrow> config \<Rightarrow> world reconciler" where
  "worker_reconciler R cfg =
     new_reconciler R (queue_block_seconds cfg) (visibility_timeout_seconds cfg) (orphan_grace_seconds cfg)"

definition worker_reconcile :: "services \<Rightarrow> config \<Rightarrow> (world, exn, int) prog" where
  "worker_reconcile R cfg = seq (reconciler_reconcile (worker_reconciler R cfg)) monotonic"

definition worker_iteration :: "services \<Rightarrow> config \<Rightarrow> executor \<Rightarrow> int \<Rightarrow> (world, exn, int) prog" where
  "worker_iteration R cfg exec last_reconcile =
     bind (wq_claim (worker_queue R cfg)) (\<lambda>raw_job_id.
     seq (case raw_job_id of None \<Rightarrow> ret () | Some raw \<Rightarrow> processor_process (worker_processor R cfg exec) raw)
    (bind monotonic (\<lambda>now.
       if seconds (reconcile_interval_seconds cfg) \<le> now - last_reconcile then worker_reconcile R cfg
       else ret last_reconcile)))"

lemma worker_reconcile_code:
  "worker_reconcile R cfg =
     seq (reconcile R (visibility_timeout_seconds cfg) (orphan_grace_seconds cfg)) monotonic"
  by (simp only: worker_reconcile_def worker_reconciler_def reconciler_code)

lemma worker_iteration_code:
  "worker_iteration R cfg exec last_reconcile =
     bind (rq_claim R (queue_block_seconds cfg)) (\<lambda>raw_job_id.
     seq (case raw_job_id of None \<Rightarrow> ret () | Some raw \<Rightarrow> process R exec raw)
    (bind monotonic (\<lambda>now.
       if seconds (reconcile_interval_seconds cfg) \<le> now - last_reconcile then worker_reconcile R cfg
       else ret last_reconcile)))"
  by (simp only: worker_iteration_def worker_queue_def worker_processor_def redis_methods processor_code)

definition loop_goes_on :: "(exn + int) \<times> world \<Rightarrow> bool" where
  "loop_goes_on x = (case x of (Inl _, _) \<Rightarrow> False | (Inr _, w) \<Rightarrow> \<not> stop w)"

definition loop_body :: "services \<Rightarrow> config \<Rightarrow> executor \<Rightarrow> (exn + int) \<times> world \<Rightarrow> (exn + int) \<times> world" where
  "loop_body R cfg exec x = (case x of (Inl e, w) \<Rightarrow> (Inl e, w) | (Inr t, w) \<Rightarrow> worker_iteration R cfg exec t w)"

definition worker_run :: "services \<Rightarrow> config \<Rightarrow> executor \<Rightarrow> world \<Rightarrow> ((exn + int) \<times> world) option" where
  "worker_run R cfg exec w = while_option loop_goes_on (loop_body R cfg exec) (worker_reconcile R cfg w)"

section \<open>Rules\<close>

lemma monotonic_apply: "monotonic w = (Inr (clock (sh w)), w)"
  by (simp add: monotonic_def)

lemma keeps_monotonic: "(\<And>w. P w w) \<Longrightarrow> keeps P monotonic"
  by (simp add: keeps_def monotonic_def)

lemma ro_monotonic: "raises_only P monotonic"
  by (simp add: raises_only_def monotonic_def)

context executor_contract begin

lemma resp_iteration:
  assumes g: "guarantee R G"
  shows "keeps (\<lambda>v w. G (sh v) (sh w)) (worker_iteration R cfg exec t)"
    and "keeps (\<lambda>v w. G (sh v) (sh w)) (worker_reconcile R cfg)"
proof -
  have m: "keeps (\<lambda>v w. G (sh v) (sh w)) monotonic"
    using guarantee.G_refl [OF g] by (intro keeps_monotonic)
  show r: "keeps (\<lambda>v w. G (sh v) (sh w)) (worker_reconcile R cfg)"
    unfolding worker_reconcile_code
    by (intro guarantee.prog_rules [OF g] guarantee.resp_reconcile [OF g] m)
  show "keeps (\<lambda>v w. G (sh v) (sh w)) (worker_iteration R cfg exec t)"
    unfolding worker_iteration_code
    by (intro guarantee.prog_rules [OF g] guarantee.resp_claim [OF g] resp_process [OF g] m r)
qed

lemma progress_iteration: "keeps progress (worker_iteration R cfg exec t)" "keeps progress (worker_reconcile R cfg)"
proof -
  have m: "keeps progress monotonic" by (intro keeps_monotonic progress_refl)
  show r: "keeps progress (worker_reconcile R cfg)"
    unfolding worker_reconcile_code by (intro progress_rules progress_reconcile m)
  show "keeps progress (worker_iteration R cfg exec t)"
    unfolding worker_iteration_code
    by (intro progress_rules progress_claim progress_process m r)
qed

lemma ro_iteration:
  assumes "0 < queue_block_seconds cfg"
  shows "raises_only decode_error (worker_iteration R cfg exec t)"
    and "raises_only decode_error (worker_reconcile R cfg)"
proof -
  show r: "raises_only decode_error (worker_reconcile R cfg)"
    unfolding worker_reconcile_code by (intro ro_seq ro_reconcile ro_monotonic)
  show "raises_only decode_error (worker_iteration R cfg exec t)"
    unfolding worker_iteration_code
    by (intro ro_bind ro_seq ro_option ro_if ro_claim ro_ret ro_process ro_monotonic r assms)
qed

text \<open>Each iteration uses up at least one slot, so a signal in the schedule is reached.\<close>

lemma iteration_consumes: "length (sched (snd (worker_iteration R cfg exec t w))) \<le> length (sched w) - 1"
proof -
  have m: "keeps progress monotonic" by (intro keeps_monotonic progress_refl)
  show ?thesis
    unfolding worker_iteration_code
    by (rule order_trans [OF bind_consumes claim_consumes])
      (intro progress_rules progress_process progress_iteration m)
qed

text \<open>What every iteration keeps, the loop keeps.\<close>

lemma worker_run_keeps:
  assumes "state_preorder P" and "keeps P (worker_reconcile R cfg)"
    and "\<And>t. keeps P (worker_iteration R cfg exec t)" and "worker_run R cfg exec w = Some x"
  shows "P w (snd x)"
proof -
  have "P w (snd x)"
  proof (rule while_option_rule [where P = "\<lambda>x. P w (snd x)", OF _ assms(4) [unfolded worker_run_def]])
    show "P w (snd (worker_reconcile R cfg w))"
      by (rule keepsD [OF assms(2)])
    show "P w (snd (loop_body R cfg exec y))" if "P w (snd y)" for y
      using that state_preorder.R_trans [OF assms(1)] keepsD [OF assms(3)]
      by (fastforce simp: loop_body_def split: prod.splits sum.splits)
  qed
  then show ?thesis .
qed

lemma worker_run_ends:
  assumes "stop_pending w"
  shows "\<exists>x. worker_run R cfg exec w = Some x"
  unfolding worker_run_def
proof (rule measure_while_option_Some [where P = "\<lambda>x. stop_pending (snd x)" and f = "\<lambda>x. case x of (Inl _, _) \<Rightarrow> 0 | (Inr _, w) \<Rightarrow> Suc (length (sched w))"])
  show "stop_pending (snd (worker_reconcile R cfg w))"
    using progress_stop_pending [OF _ assms] keepsD [OF progress_iteration(2)] by blast
  fix x assume x: "stop_pending (snd x)" "loop_goes_on x"
  then obtain t v where v: "x = (Inr t, v)" "\<not> stop v" "stop_pending v"
    by (auto simp: loop_goes_on_def split: prod.splits sum.splits)
  then have "sched v \<noteq> []" by (auto simp: stop_pending_def)
  with v iteration_consumes [of cfg t v] progress_stop_pending [OF keepsD [OF progress_iteration(1)] v(3)]
  show "stop_pending (snd (loop_body R cfg exec x)) \<and>
      (case loop_body R cfg exec x of (Inl _, _) \<Rightarrow> 0 | (Inr _, w) \<Rightarrow> Suc (length (sched w)))
        < (case x of (Inl _, _) \<Rightarrow> 0 | (Inr _, w) \<Rightarrow> Suc (length (sched w)))"
    by (cases "sched v") (auto simp: loop_body_def split: prod.splits sum.splits)
qed

end

end
