(* ===== verification/Worker_Props.thy ===== *)
theory Worker_Props imports Worker_Main begin

text \<open>
  The worker process as a whole: what its loop does to the job table in every world, that it
  stops when it is told to, and two scenarios in which it does not do what it promises.
\<close>

section \<open>Whole runs\<close>

lemma run_is_safe:
  assumes "executor_contract R exec" and "worker_run R cfg exec w = Some (r, w')"
  shows "table_life (jobs (sh w)) (jobs (sh w')) \<and> (jobs_wf (sh w) \<longrightarrow> jobs_wf (sh w'))"
proof -
  have "jobs_advance (sh w) (sh w')"
    using executor_contract.worker_run_keeps [OF assms(1) advance.state_preorder_axioms
        executor_contract.resp_iteration(2) [OF assms(1) advance.guarantee_axioms]
        executor_contract.resp_iteration(1) [OF assms(1) advance.guarantee_axioms] assms(2)] by simp
  moreover have "keeps_wf (sh w) (sh w')"
    using executor_contract.worker_run_keeps [OF assms(1) wf.state_preorder_axioms
        executor_contract.resp_iteration(2) [OF assms(1) wf.guarantee_axioms]
        executor_contract.resp_iteration(1) [OF assms(1) wf.guarantee_axioms] assms(2)] by simp
  ultimately show ?thesis
    by (simp add: jobs_advance_def keeps_wf_def)
qed

lemma run_stops:
  assumes "executor_contract R exec" and "0 < queue_block_seconds cfg" and "calm w"
    and "\<exists>sl \<in> set (sched w). signalled sl"
  shows "\<exists>r w'. worker_run R cfg exec w = Some (r, w')
    \<and> (case r of Inl e \<Rightarrow> decode_error e | Inr _ \<Rightarrow> stop w')"
proof -
  obtain r w' where run: "worker_run R cfg exec w = Some (r, w')"
    using executor_contract.worker_run_ends [OF assms(1), of w cfg] assms(4)
    by (auto simp: stop_pending_def)
  have ro: "raises_only decode_error (worker_reconcile R cfg)"
      "\<And>t. raises_only decode_error (worker_iteration R cfg exec t)"
    by (rule executor_contract.ro_iteration [OF assms(1,2)])+
  have "calm w' \<and> (\<forall>e. r = Inl e \<longrightarrow> decode_error e)"
  proof -
    have "calm (snd (r, w')) \<and> (\<forall>e. fst (r, w') = Inl e \<longrightarrow> decode_error e)"
    proof (rule while_option_rule [OF _ run [unfolded worker_run_def]])
      show "calm (snd (worker_reconcile R cfg w)) \<and> (\<forall>e. fst (worker_reconcile R cfg w) = Inl e \<longrightarrow> decode_error e)"
        using ro(1) assms(3) by (simp add: raises_only_def)
      show "calm (snd (loop_body R cfg exec x)) \<and> (\<forall>e. fst (loop_body R cfg exec x) = Inl e \<longrightarrow> decode_error e)"
        if "calm (snd x) \<and> (\<forall>e. fst x = Inl e \<longrightarrow> decode_error e)" for x
        using that ro(2) by (auto simp: loop_body_def raises_only_def split: prod.splits sum.splits)
    qed
    then show ?thesis by simp
  qed
  moreover have "\<not> loop_goes_on (r, w')"
    using while_option_stop run unfolding worker_run_def by fastforce
  ultimately show ?thesis
    using run by (auto simp: loop_goes_on_def split: sum.splits)
qed

text \<open>
  However long a worker runs, and whatever everybody else does meanwhile, each job of the
  table has only moved along its life cycle, and a well-formed table is still well-formed.
\<close>

theorem worker_run_safe:
  assumes "executor_contract R exec" and "worker_run R cfg exec w = Some (r, w')"
  shows "table_life (jobs (sh w)) (jobs (sh w')) \<and> (jobs_wf (sh w) \<longrightarrow> jobs_wf (sh w'))"
  using assms by (rule run_is_safe)

definition signal_slot :: slot where
  "signal_slot = \<lparr>others = [], signalled = True, fault = NoFault\<rparr>"

lemma signal_slot_simps [simp]:
  "others signal_slot = []" "signalled signal_slot = True" "fault signal_slot = NoFault"
  by (simp_all add: signal_slot_def)

lemma sample_run_ends: "\<exists>x. worker_run reference_services sample_config stub_executor (sample_world rows [signal_slot]) = Some x"
  by (rule stub.worker_run_ends) (simp add: stop_pending_def)

theorem worker_run_safe_witness:
  "\<exists>r w'. worker_run reference_services sample_config stub_executor
       (sample_world [sample_row 1 CANCELLED ''ds/a.csv''] [signal_slot]) = Some (r, w')
     \<and> table_life [sample_row 1 CANCELLED ''ds/a.csv''] (jobs (sh w'))"
proof -
  obtain r w' where "worker_run reference_services sample_config stub_executor
       (sample_world [sample_row 1 CANCELLED ''ds/a.csv''] [signal_slot]) = Some (r, w')"
    using sample_run_ends by (metis surj_pair)
  with worker_run_safe [OF stub.executor_contract_axioms this] show ?thesis by auto
qed

text \<open>
  A worker that is signalled terminates: as soon as a termination signal is anywhere in the
  schedule of the calls to come, the loop ends, and (with a positive claim timeout and no
  failing call) it ends with the stop event set, or with the error of a row that does not decode.
\<close>

theorem worker_stops:
  assumes "executor_contract R exec" and "0 < queue_block_seconds cfg" and "calm w"
    and "\<exists>sl \<in> set (sched w). signalled sl"
  shows "\<exists>r w'. worker_run R cfg exec w = Some (r, w')
    \<and> (case r of Inl e \<Rightarrow> decode_error e | Inr _ \<Rightarrow> stop w')"
  using assms by (rule run_stops)

theorem worker_stops_witness:
  "\<exists>r w'. worker_run reference_services sample_config stub_executor
      (sample_world [sample_row 1 QUEUED ''ds/a.csv''] [quiet_slot, quiet_slot, signal_slot]) = Some (r, w')
    \<and> (case r of Inl e \<Rightarrow> decode_error e | Inr _ \<Rightarrow> stop w')"
  by (rule worker_stops [OF stub.executor_contract_axioms])
    (simp_all add: sample_config_def calm_def)

section \<open>A crash between the claim and the start\<close>

lemma claim_in_quiet_slot:
  assumes "redis_server R" and "sched w = quiet_slot # sls" and "0 < n"
    and "rlists (rd (sh w)) QUEUE_KEY = xs @ [x]"
  shows "rq_claim R n w = (Inr (Some x), w\<lparr>sched := sls, sh := do_op R Claim (sh w)\<rparr>)"
  using assms by (simp add: rq_claim_def claim_once_def call_def interfere_def next_slot_def
      redis_server.claim_list)

lemma claim_op_lists:
  assumes "redis_server R" and "rlists (rd s) QUEUE_KEY = xs @ [x]"
  shows "rlists (rd (do_op R Claim s)) QUEUE_KEY = xs"
    and "rlists (rd (do_op R Claim s)) PROCESSING_KEY = x # rlists (rd s) PROCESSING_KEY"
  using assms by (simp_all add: redis_server.claim_list)

lemma failing_get_job:
  assumes "sched w = [\<lparr>others = [], signalled = b, fault = f\<rparr>]" and "f = Dies \<or> f = Fails msg"
    and "uuid_of_text raw = Some i"
  shows "\<exists>e. process R exec raw w = (Inl e, w\<lparr>sched := [], stop := stop w \<or> b\<rparr>)"
  using assms by (auto simp: process_code repo_get_job_def query_def call_def interfere_def next_slot_def bind_def)

text \<open>
  C36: a worker that dies, or whose read of the job fails, right after its claim takes the job out
  of circulation for good: the row stays queued, its id is in no queue, and no later sweep of any
  reconciler puts it back.
\<close>

theorem crash_after_claim_strands:
  assumes "redis_server R" and "0 < queue_block_seconds cfg" and "0 \<le> g"
    and "sched w = [quiet_slot, \<lparr>others = [], signalled = False, fault = f\<rparr>]" and "f = Dies \<or> f = Fails msg"
    and "distinct (map r_id (jobs (sh w)))" and "job_at i (jobs (sh w)) = Some r" and "r_status r = QUEUED"
    and "rlists (rd (sh w)) QUEUE_KEY = xs @ [uuid_str i]" and "uuid_str i \<notin> set xs"
  shows "\<exists>e w'. worker_iteration R cfg exec t w = (Inl e, w')
    \<and> (let s = sh (later_sweeps R v g ns w') in
        job_at i (jobs s) = Some r \<and> uuid_str i \<notin> set (rlists (rd s) QUEUE_KEY))"
proof -
  let ?w1 = "w\<lparr>sched := [\<lparr>others = [], signalled = False, fault = f\<rparr>], sh := do_op R Claim (sh w)\<rparr>"
  have c: "rq_claim R (queue_block_seconds cfg) w = (Inr (Some (uuid_str i)), ?w1)"
    by (rule claim_in_quiet_slot [OF assms(1,4,2,9)])
  obtain e where p: "process R exec (uuid_str i) ?w1 = (Inl e, ?w1\<lparr>sched := [], stop := stop ?w1 \<or> False\<rparr>)"
    using failing_get_job [of ?w1 False f msg "uuid_str i" i R exec] assms(5) by auto
  let ?w2 = "?w1\<lparr>sched := [], stop := stop ?w1 \<or> False\<rparr>"
  have "worker_iteration R cfg exec t w = (Inl e, ?w2)"
    unfolding worker_iteration_code bind_Inr [where m = "rq_claim R (queue_block_seconds cfg)" and s = w, OF c]
    by (simp only: option.case seq_Inl [where m = "process R exec (uuid_str i)" and s = ?w1, OF p])
  moreover have "let s = sh (later_sweeps R v g ns ?w2) in job_at i (jobs s) = Some r
      \<and> uuid_str i \<in> set (rlists (rd s) PROCESSING_KEY) \<and> uuid_str i \<notin> set (rlists (rd s) QUEUE_KEY)"
    using assms(3,6-10) claim_op_lists [OF assms(1,9)]
    by (intro later_sweeps_strand [OF assms(1)]) (simp_all add: claim_op_lists)
  ultimately show ?thesis
    by (auto simp: Let_def)
qed

theorem crash_after_claim_strands_witness:
  "\<exists>e w'. worker_iteration reference_services sample_config stub_executor 0
      ((idle_world [sample_row 1 QUEUED ''a''] [uuid_str 1] [])\<lparr>sched := [quiet_slot, \<lparr>others = [], signalled = False, fault = Dies\<rparr>]\<rparr>)
        = (Inl e, w')
    \<and> uuid_str 1 \<notin> set (rlists (rd (sh (later_sweeps reference_services 900 60 [10 ^ 12, 10 ^ 12] w'))) QUEUE_KEY)"
  using crash_after_claim_strands [OF redis_server_reference, of sample_config 60
      "(idle_world [sample_row 1 QUEUED ''a''] [uuid_str 1] [])\<lparr>sched := [quiet_slot, \<lparr>others = [], signalled = False, fault = Dies\<rparr>]\<rparr>"
      Dies "[]" 1 "sample_row 1 QUEUED ''a''" "[]" stub_executor 0 900 "[10 ^ 12, 10 ^ 12]"]
  by (auto simp: Let_def sample_config_def)

section \<open>A claim that waits for ever\<close>

lemma empty_claim:
  assumes "redis_server R" and "list_all (\<lambda>sl. others sl = [] \<and> fault sl = NoFault) (sched w)"
    and "rlists (rd (sh w)) QUEUE_KEY = []"
  shows "claim_once R w = (Inr None, w\<lparr>sched := tl (sched w), stop := stop w \<or> signalled (next_slot w)\<rparr>)"
proof -
  have "do_op R Claim (sh w) = sh w"
    using assms(1,3) by (simp add: on_redis_def redis_server.claim_empty_list)
  moreover have "others (next_slot w) = []" "fault (next_slot w) = NoFault"
    using assms(2) by (cases "sched w"; simp add: next_slot_def)+
  ultimately show ?thesis
    using assms(1,3) by (simp add: claim_once_def call_def interfere_def redis_server.claim_empty_list del: do_op.simps)
qed

lemma empty_claims_block:
  assumes "redis_server R" and "list_all (\<lambda>sl. others sl = [] \<and> fault sl = NoFault) (sched w)"
    and "rlists (rd (sh w)) QUEUE_KEY = []"
  shows "fst (claim_forever R slots w) = Inl Blocked"
  using assms(2,3)
proof (induction slots arbitrary: w)
  case Nil
  then show ?case
    by (simp add: bind_def empty_claim [OF assms(1)] raise_def)
next
  case (Cons sl slots)
  have "list_all (\<lambda>sl. others sl = [] \<and> fault sl = NoFault) (tl (sched w))"
    using Cons.prems(1) by (cases "sched w") simp_all
  then show ?case
    using Cons.prems Cons.IH by (simp add: bind_def empty_claim [OF assms(1)])
qed

lemma no_work_reconcile:
  assumes "sched w = quiet_slot # quiet_slot # sls" and "jobs (sh w) = []"
  shows "worker_reconcile R cfg w = (Inr (clock (sh w)), w\<lparr>sched := sls\<rparr>)"
  using assms
  by (simp add: worker_reconcile_code reconcile_code recover_abandoned_running_code recover_orphaned_queued_code
      repo_find_stale_running_def repo_find_orphan_queued_def db_find_stale_running_def db_find_orphan_queued_def
      query_def call_def interfere_def next_slot_def seq_def bind_def ret_def monotonic_apply)

text \<open>
  C37: with the claim timeout configured as 0 the worker cannot be stopped while the queue is
  empty: its first claim waits for ever, whatever signals arrive meanwhile.
\<close>

theorem zero_block_ignores_stop:
  assumes "redis_server R" and "queue_block_seconds cfg = 0" and "jobs (sh w) = []" and "\<not> stop w"
    and "rlists (rd (sh w)) QUEUE_KEY = []" and "sched w = quiet_slot # quiet_slot # sls"
    and "list_all (\<lambda>sl. others sl = [] \<and> fault sl = NoFault) sls"
  shows "\<exists>w'. worker_run R cfg exec w = Some (Inl Blocked, w')"
proof -
  let ?w1 = "w\<lparr>sched := sls\<rparr>"
  have r: "worker_reconcile R cfg w = (Inr (clock (sh w)), ?w1)"
    by (rule no_work_reconcile [OF assms(6,3)])
  have "fst (rq_claim R (queue_block_seconds cfg) ?w1) = Inl Blocked"
    using assms(2,5,7) by (simp add: rq_claim_def empty_claims_block [OF assms(1)])
  then obtain w' where "rq_claim R (queue_block_seconds cfg) ?w1 = (Inl Blocked, w')"
    by (cases "rq_claim R (queue_block_seconds cfg) ?w1") auto
  then have "worker_iteration R cfg exec (clock (sh w)) ?w1 = (Inl Blocked, w')"
    by (simp add: worker_iteration_code bind_def)
  then have "worker_run R cfg exec w = Some (Inl Blocked, w')"
    using assms(4) by (simp add: worker_run_def r while_option_unfold [of loop_goes_on] loop_goes_on_def loop_body_def)
  then show ?thesis ..
qed

theorem zero_block_ignores_stop_witness:
  "\<exists>w'. worker_run reference_services (sample_config\<lparr>queue_block_seconds := 0\<rparr>) stub_executor
     (sample_world [] [quiet_slot, quiet_slot, signal_slot, signal_slot]) = Some (Inl Blocked, w')"
  by (rule zero_block_ignores_stop [OF redis_server_reference, where sls = "[signal_slot, signal_slot]"])
    (simp_all add: sample_redis_def)

end
