(* ===== verification/Launcher.thy ===== *)
theory Launcher imports Config "HOL-Library.While_Combinator" "HOL-Library.Sublist" begin

text \<open>
  \<open>crucible_worker/launcher.py\<close>: one process per GPU, and the supervisor that makes them stop
  as a unit. Operating-system processes are not part of the repository: what the supervisor
  sees of them is a list of events per \<open>join\<close>, the exits of children and the signals that
  arrive while it waits (at most a second each).
\<close>

section \<open>Signals\<close>

text \<open>
  What a process does on a signal: \<open>StopWorker\<close> sets the worker's stop event (the signals in the
  schedules of the other theories), \<open>StopChildren\<close> is the supervisor's; no entry stands for the
  interpreter's default. A platform may lack \<open>SIGTERM\<close>, which \<open>getattr\<close> asks for.
\<close>

datatype sig = SIGINT | SIGTERM

datatype handler = StopWorker | StopChildren

record process_state =
  environment :: environ
  handlers :: "sig \<Rightarrow> handler option"

definition handled_signals :: "bool \<Rightarrow> sig list" where
  "handled_signals has_sigterm = SIGINT # (if has_sigterm then [SIGTERM] else [])"

definition install_signal_handlers :: "bool \<Rightarrow> handler \<Rightarrow> (sig \<Rightarrow> handler option) \<Rightarrow> sig \<Rightarrow> handler option" where
  "install_signal_handlers has_sigterm h = fold (\<lambda>sig hs. hs(sig \<mapsto> h)) (handled_signals has_sigterm)"

lemma installed_handlers:
  "install_signal_handlers b h hs = (\<lambda>sig. if sig = SIGINT \<or> b then Some h else hs sig)"
proof
  show "install_signal_handlers b h hs sig = (if sig = SIGINT \<or> b then Some h else hs sig)" for sig
    by (cases sig) (simp_all add: install_signal_handlers_def handled_signals_def)
qed

section \<open>The launch plan\<close>

type_synonym 'w worker_fn = "config \<Rightarrow> process_state \<Rightarrow> 'w"

text \<open>\<open>_run_pinned\<close>: the worker runs with \<open>CUDA_VISIBLE_DEVICES\<close> set to its GPU and its handlers installed.\<close>

definition run_pinned :: "bool \<Rightarrow> config \<Rightarrow> string \<Rightarrow> 'w worker_fn \<Rightarrow> process_state \<Rightarrow> 'w" where
  "run_pinned has_sigterm cfg gpu_id worker p =
     (let p1 = p\<lparr>environment := (environment p)(''CUDA_VISIBLE_DEVICES'' \<mapsto> gpu_id)\<rparr> in
      worker cfg (p1\<lparr>handlers := install_signal_handlers has_sigterm StopWorker (handlers p1)\<rparr>))"

text \<open>A spawned child starts with the environment of its parent and the default handlers.\<close>

definition child_entry :: "bool \<Rightarrow> config \<Rightarrow> string \<Rightarrow> 'w worker_fn \<Rightarrow> process_state \<Rightarrow> 'w" where
  "child_entry has_sigterm cfg gpu_id worker p = run_pinned has_sigterm cfg gpu_id worker p"

definition spawned :: "process_state \<Rightarrow> process_state" where
  "spawned p = \<lparr>environment = environment p, handlers = (\<lambda>_. None)\<rparr>"

datatype 'w launched = Inline 'w | Spawned "(string \<times> 'w) list"

text \<open>\<open>run\<close>, up to the supervision: what runs in this process, or which named children start.\<close>

definition launch :: "bool \<Rightarrow> config \<Rightarrow> 'w worker_fn \<Rightarrow> process_state \<Rightarrow> 'w launched" where
  "launch has_sigterm cfg worker p =
     (if length (gpu_ids cfg) = 1 then Inline (run_pinned has_sigterm cfg (hd (gpu_ids cfg)) worker p)
      else Spawned (map (\<lambda>gpu_id. (''crucible-worker-gpu'' @ gpu_id,
             child_entry has_sigterm cfg gpu_id worker (spawned p))) (gpu_ids cfg)))"

section \<open>The supervisor\<close>

text \<open>
  A child is known by its number in the order of the launch. \<open>terminated\<close> records the calls of
  \<open>proc.terminate()\<close>.
\<close>

datatype sup_event = ChildExit nat | Signal

record supervisor =
  procs :: "nat list"
  alive :: "nat set"
  stopping :: bool
  terminated :: "nat list"
  events :: "sup_event list list"

definition terminate_alive :: "supervisor \<Rightarrow> supervisor" where
  "terminate_alive s = s\<lparr>terminated := terminated s @ filter (\<lambda>p. p \<in> alive s) (procs s)\<rparr>"

fun sup_event_step :: "sup_event \<Rightarrow> supervisor \<Rightarrow> supervisor" where
  "sup_event_step (ChildExit p) s = s\<lparr>alive := alive s - {p}\<rparr>"
| "sup_event_step Signal s = terminate_alive (s\<lparr>stopping := True\<rparr>)"

text \<open>\<open>proc.join(timeout=1.0)\<close>: the events of one wait happen.\<close>

definition sup_join :: "supervisor \<Rightarrow> supervisor" where
  "sup_join s = (case events s of [] \<Rightarrow> s | evs # rest \<Rightarrow> fold sup_event_step evs (s\<lparr>events := rest\<rparr>))"

definition sup_visit :: "nat \<Rightarrow> supervisor \<Rightarrow> supervisor" where
  "sup_visit p s0 =
     (let s = sup_join s0 in
      if p \<in> alive s then s
      else let s1 = s\<lparr>procs := remove1 p (procs s)\<rparr> in
        if stopping s1 then s1 else (terminate_alive s1)\<lparr>stopping := True\<rparr>)"

definition sup_round :: "supervisor \<Rightarrow> supervisor" where
  "sup_round s = fold sup_visit (procs s) s"

definition supervise :: "supervisor \<Rightarrow> supervisor option" where
  "supervise s = while_option (\<lambda>s. procs s \<noteq> []) sup_round s"

section \<open>The start of the children\<close>

text \<open>
  \<open>run\<close> starts the children one by one, and only \<open>_supervise\<close> installs the handlers of this
  process. A signal in between meets the default one and ends the launcher, \<open>Inl\<close> with the
  children it leaves behind (as the first process of a container it may be spared \<open>SIGTERM\<close>; the
  signal is lost then). \<open>ess\<close> has what happens after each start.
\<close>

fun startup_events :: "sup_event list \<Rightarrow> supervisor \<Rightarrow> supervisor + supervisor" where
  "startup_events [] s = Inr s"
| "startup_events (ChildExit p # es) s = startup_events es (s\<lparr>alive := alive s - {p}\<rparr>)"
| "startup_events (Signal # es) s = Inl s"

fun start_children :: "nat list \<Rightarrow> sup_event list list \<Rightarrow> supervisor \<Rightarrow> supervisor + supervisor" where
  "start_children [] ess s = Inr s"
| "start_children (p # ps) ess s =
     (case startup_events (case ess of [] \<Rightarrow> [] | es # _ \<Rightarrow> es)
         (s\<lparr>procs := procs s @ [p], alive := insert p (alive s)\<rparr>) of
        Inl t \<Rightarrow> Inl t
      | Inr t \<Rightarrow> start_children ps (tl ess) t)"

definition sup_start :: "nat \<Rightarrow> sup_event list list \<Rightarrow> sup_event list list \<Rightarrow> supervisor + supervisor" where
  "sup_start n ess evs =
     start_children [0..<n] ess \<lparr>procs = [], alive = {}, stopping = False, terminated = [], events = evs\<rparr>"

lemma startup_events_frame:
  "case startup_events es s of
     Inl t \<Rightarrow> Signal \<in> set es \<and> procs t = procs s \<and> terminated t = terminated s
   | Inr t \<Rightarrow> procs t = procs s \<and> alive t \<subseteq> alive s \<and> stopping t = stopping s \<and> terminated t = terminated s
       \<and> events t = events s"
  by (induction es s rule: startup_events.induct) (auto split: sum.splits)

lemma start_children_frame:
  "case start_children ps ess s of
     Inl t \<Rightarrow> (\<exists>es \<in> set ess. Signal \<in> set es) \<and> prefix (procs t) (procs s @ ps) \<and> terminated t = terminated s
   | Inr t \<Rightarrow> procs t = procs s @ ps \<and> alive t \<subseteq> alive s \<union> set ps \<and> stopping t = stopping s
       \<and> terminated t = terminated s \<and> events t = events s"
proof (induction ps ess s rule: start_children.induct)
  case (2 p ps ess s)
  let ?es = "case ess of [] \<Rightarrow> [] | es # _ \<Rightarrow> es"
  let ?s = "s\<lparr>procs := procs s @ [p], alive := insert p (alive s)\<rparr>"
  have es: "Signal \<in> set ?es \<Longrightarrow> \<exists>es \<in> set ess. Signal \<in> set es" by (cases ess) auto
  show ?case
  proof (cases "startup_events ?es ?s")
    case (Inl t)
    then show ?thesis
      using startup_events_frame [of ?es ?s] es by auto
  next
    case (Inr t)
    have "set (tl ess) \<subseteq> set ess" by (cases ess) auto
    then show ?thesis
      using 2 [OF Inr] Inr startup_events_frame [of ?es ?s] by (auto split: sum.splits)
  qed
qed simp

section \<open>The children stop as a unit\<close>

text \<open>
  Once one child's exit was seen or a signal arrived, every child still running has been told to
  terminate; and a child leaves the list only when it has exited.
\<close>

definition sup_inv :: "nat \<Rightarrow> supervisor \<Rightarrow> bool" where
  "sup_inv n s \<longleftrightarrow> distinct (procs s) \<and> set (procs s) \<subseteq> {..<n} \<and> {..<n} \<inter> alive s \<subseteq> set (procs s)
     \<and> (stopping s \<longrightarrow> set (procs s) \<inter> alive s \<subseteq> set (terminated s))
     \<and> (\<not> stopping s \<longrightarrow> terminated s = [] \<and> set (procs s) = {..<n})"

lemma sup_inv_event: "sup_inv n s \<Longrightarrow> sup_inv n (sup_event_step e s)"
  by (cases e) (auto simp: sup_inv_def terminate_alive_def)

lemma sup_inv_events: "sup_inv n s \<Longrightarrow> sup_inv n (fold sup_event_step evs s)"
  by (induction evs arbitrary: s) (auto intro: sup_inv_event)

lemma sup_inv_join: "sup_inv n s \<Longrightarrow> sup_inv n (sup_join s)"
proof -
  assume "sup_inv n s"
  then have "sup_inv n (s\<lparr>events := rest\<rparr>)" for rest by (simp add: sup_inv_def)
  then show ?thesis
    using \<open>sup_inv n s\<close> by (auto simp: sup_join_def sup_inv_events split: list.split)
qed

lemma sup_inv_visit: "sup_inv n s \<Longrightarrow> sup_inv n (sup_visit p s)"
  using sup_inv_join [of n s] by (auto simp: sup_visit_def Let_def sup_inv_def terminate_alive_def)

lemma sup_inv_visits: "sup_inv n s \<Longrightarrow> sup_inv n (fold sup_visit ps s)"
  by (induction ps arbitrary: s) (auto intro: sup_inv_visit)

lemma sup_inv_round: "sup_inv n s \<Longrightarrow> sup_inv n (sup_round s)"
  unfolding sup_round_def by (rule sup_inv_visits)

lemma sup_inv_start: "sup_start n ess evs = Inr s \<Longrightarrow> sup_inv n s"
  using start_children_frame [where ps = "[0..<n]" and ess = ess and s = "\<lparr>procs = [], alive = {}, stopping = False, terminated = [], events = evs\<rparr>"]
  by (auto simp: sup_inv_def sup_start_def)

lemma sup_start_procs: "sup_start n ess evs = Inr s \<Longrightarrow> procs s = [0..<n] \<and> events s = evs"
  using start_children_frame [where ps = "[0..<n]" and ess = ess and s = "\<lparr>procs = [], alive = {}, stopping = False, terminated = [], events = evs\<rparr>"]
  by (simp add: sup_start_def)

lemma sup_start_killed:
  "sup_start n ess evs = Inl s \<Longrightarrow>
     (\<exists>es \<in> set ess. Signal \<in> set es) \<and> prefix (procs s) [0..<n] \<and> terminated s = []"
  using start_children_frame [where ps = "[0..<n]" and ess = ess and s = "\<lparr>procs = [], alive = {}, stopping = False, terminated = [], events = evs\<rparr>"]
  by (simp add: sup_start_def)

section \<open>The supervisor returns when its children do\<close>

text \<open>Every child still listed is dead or exits in an event to come.\<close>

definition exits_to_come :: "supervisor \<Rightarrow> bool" where
  "exits_to_come s \<longleftrightarrow> (\<forall>p \<in> set (procs s). p \<in> alive s \<longrightarrow> (\<exists>evs \<in> set (events s). ChildExit p \<in> set evs))"

lemma event_step_frame:
  "procs (sup_event_step e s) = procs s" "events (sup_event_step e s) = events s"
  "alive (sup_event_step e s) \<subseteq> alive s"
  by (cases e; auto simp: terminate_alive_def)+

lemma events_frame:
  "procs (fold sup_event_step evs s) = procs s" "events (fold sup_event_step evs s) = events s"
  "alive (fold sup_event_step evs s) \<subseteq> alive s"
proof -
  show "procs (fold sup_event_step evs s) = procs s" "events (fold sup_event_step evs s) = events s"
    by (induction evs arbitrary: s) (simp_all add: event_step_frame)
  show "alive (fold sup_event_step evs s) \<subseteq> alive s"
  proof (induction evs arbitrary: s)
    case (Cons e evs)
    show ?case using order_trans [OF Cons event_step_frame(3)] by simp
  qed simp
qed

lemma child_exit_dies: "ChildExit p \<in> set evs \<Longrightarrow> p \<notin> alive (fold sup_event_step evs s)"
proof (induction evs arbitrary: s)
  case (Cons e evs)
  show ?case
  proof (cases "ChildExit p \<in> set evs")
    case False
    with Cons.prems have "e = ChildExit p" by auto
    then show ?thesis using events_frame(3) [of evs "sup_event_step e s"] by auto
  qed (simp add: Cons.IH)
qed simp

lemma join_frame: "procs (sup_join s) = procs s" "length (events (sup_join s)) = length (events s) - 1"
  by (simp_all add: sup_join_def events_frame split: list.split)

lemma exits_join: "exits_to_come s \<Longrightarrow> exits_to_come (sup_join s)"
proof (cases "events s")
  case (Cons evs rest)
  assume e: "exits_to_come s"
  show ?thesis
    unfolding exits_to_come_def
  proof (intro ballI impI)
    fix p assume p: "p \<in> set (procs (sup_join s))" "p \<in> alive (sup_join s)"
    have "p \<in> alive s"
      using p(2) events_frame(3) [of evs "s\<lparr>events := rest\<rparr>"] by (auto simp: sup_join_def Cons)
    moreover have "ChildExit p \<notin> set evs"
      using p(2) child_exit_dies by (auto simp: sup_join_def Cons)
    ultimately show "\<exists>evs \<in> set (events (sup_join s)). ChildExit p \<in> set evs"
      using e p(1) by (auto simp: exits_to_come_def join_frame sup_join_def Cons events_frame)
  qed
qed (simp add: sup_join_def)

lemma visit_frame:
  "length (procs (sup_visit p s)) \<le> length (procs s)"
  "length (events (sup_visit p s)) = length (events s) - 1"
  using join_frame [of s] by (auto simp: sup_visit_def Let_def terminate_alive_def length_remove1)

lemma exits_visit: "exits_to_come s \<Longrightarrow> exits_to_come (sup_visit p s)"
  using exits_join [of s]
  by (auto simp: sup_visit_def Let_def terminate_alive_def exits_to_come_def dest: notin_set_remove1)

lemma visit_progress:
  assumes "exits_to_come s" and "p \<in> set (procs s)"
  shows "length (procs (sup_visit p s)) + length (events (sup_visit p s)) < length (procs s) + length (events s)"
proof (cases "events s")
  case Nil
  then have "p \<notin> alive (sup_join s)"
    using assms by (auto simp: exits_to_come_def sup_join_def)
  then show ?thesis
    using assms(2) join_frame [of s] Nil length_pos_if_in_set [OF assms(2)]
    by (simp add: sup_visit_def Let_def terminate_alive_def length_remove1)
next
  case Cons
  then show ?thesis
    using visit_frame [of p s] by simp
qed

lemma visits_frame:
  "exits_to_come s \<Longrightarrow> exits_to_come (fold sup_visit ps s)
     \<and> length (procs (fold sup_visit ps s)) + length (events (fold sup_visit ps s)) \<le> length (procs s) + length (events s)"
proof (induction ps arbitrary: s)
  case (Cons p ps)
  then show ?case
    using Cons.IH [of "sup_visit p s"] visit_frame [of p s] exits_visit [of s p] by simp
qed simp

lemma round_progress:
  assumes "exits_to_come s" and "procs s \<noteq> []"
  shows "exits_to_come (sup_round s)
    \<and> length (procs (sup_round s)) + length (events (sup_round s)) < length (procs s) + length (events s)"
proof -
  obtain p ps where p: "procs s = p # ps" using assms(2) by (cases "procs s") auto
  have "length (procs (sup_visit p s)) + length (events (sup_visit p s)) < length (procs s) + length (events s)"
    using assms(1) p by (intro visit_progress) simp_all
  then show ?thesis
    using visits_frame [OF exits_visit [OF assms(1)], of ps p] by (simp add: sup_round_def p)
qed

lemma supervise_returns: "exits_to_come s \<Longrightarrow> \<exists>t. supervise s = Some t"
  unfolding supervise_def
  by (rule measure_while_option_Some [where P = exits_to_come and f = "\<lambda>s. length (procs s) + length (events s)"])
    (auto dest: round_progress)

section \<open>Properties\<close>

text \<open>
  Every configured GPU gets exactly one worker, which sees only that GPU in its environment and
  stops on an interrupt: a single one runs in this process, several as one child each, in the
  order of the list.
\<close>

definition pinned :: "bool \<Rightarrow> string \<Rightarrow> process_state \<Rightarrow> process_state" where
  "pinned has_sigterm g p = \<lparr>environment = (environment p)(''CUDA_VISIBLE_DEVICES'' \<mapsto> g),
     handlers = (\<lambda>sig. if sig = SIGINT \<or> has_sigterm then Some StopWorker else handlers p sig)\<rparr>"

lemma run_pinned_code: "run_pinned b cfg g worker p = worker cfg (pinned b g p)"
  by (cases p) (simp add: run_pinned_def pinned_def installed_handlers cong: if_cong)

theorem launch_pins_each_gpu:
  "launch b cfg worker p =
     (case gpu_ids cfg of
        [g] \<Rightarrow> Inline (worker cfg (pinned b g p))
      | gs \<Rightarrow> Spawned (zip (map (\<lambda>g. ''crucible-worker-gpu'' @ g) gs)
          (map (\<lambda>g. worker cfg (pinned b g (spawned p))) gs)))"
  by (cases "gpu_ids cfg" rule: remdups_adj.cases)
    (simp_all add: launch_def run_pinned_code child_entry_def zip_map_map zip_same_conv_map)


text \<open>
  C28: once supervised, the launch returns if every child still running exits at some point, and
  when it returns all children have exited.
\<close>

theorem supervise_waits_for_all:
  assumes "sup_start n ess evs = Inr s0"
    and "\<forall>p < n. p \<in> alive s0 \<longrightarrow> (\<exists>es \<in> set evs. ChildExit p \<in> set es)"
  shows "\<exists>s. supervise s0 = Some s \<and> {..<n} \<inter> alive s = {}"
proof -
  have "exits_to_come s0"
    using assms(2) sup_start_procs [OF assms(1)] by (auto simp: exits_to_come_def)
  then obtain s where s: "supervise s0 = Some s"
    using supervise_returns by blast
  have "sup_inv n s"
    by (rule while_option_rule [OF _ s [unfolded supervise_def]]) (simp_all add: sup_inv_start [OF assms(1)] sup_inv_round)
  moreover have "procs s = []"
    using while_option_stop [OF s [unfolded supervise_def]] by simp
  ultimately show ?thesis
    using s by (auto simp: sup_inv_def)
qed

theorem supervise_waits_for_all_witness:
  "\<exists>s0 s. sup_start 3 [[], [ChildExit 0]] [[], [ChildExit 1], [Signal], [ChildExit 2]] = Inr s0
     \<and> supervise s0 = Some s \<and> {..<3} \<inter> alive s = {}"
proof -
  let ?s0 = "\<lparr>procs = [0, 1, 2], alive = {1, 2}, stopping = False, terminated = [],
    events = [[], [ChildExit 1], [Signal], [ChildExit 2]]\<rparr>"
  have s0: "sup_start 3 [[], [ChildExit 0]] [[], [ChildExit 1], [Signal], [ChildExit 2]] = Inr ?s0"
    by (auto simp: sup_start_def numeral_3_eq_3 upt_rec)
  show ?thesis
    using s0 supervise_waits_for_all [OF s0] by auto
qed

end
