(* ===== verification/Production.thy ===== *)
theory Production imports Worker_Props Executor_Chain Launcher begin

text \<open>
  The worker as \<open>main.py\<close> assembles it: the loop with the caching executor, the Garage stores, the
  Hugging Face cache and the QLoRA trainer. What is left open are the services, the hub client and
  the training libraries, of which only that they raise Python exceptions is assumed.
\<close>

definition worker_main ::
  "services \<Rightarrow> config \<Rightarrow> hub \<Rightarrow> tmp_namer \<Rightarrow> ('ds, 'm, 't, 'tr) gpu_stack \<Rightarrow> world \<Rightarrow> ((exn + int) \<times> world) option" where
  "worker_main R cfg hub tmp g = worker_run R cfg (production_executor R cfg hub tmp g)"

text \<open>
  C15: the worker as it is deployed, whatever the services do and whoever else is running: once a
  termination signal is on its way its run ends, with the stop event set or with the error of a
  row that does not decode, and over the whole run each job only moved along its life cycle and a
  well-formed table stayed well-formed.
\<close>

theorem production_worker:
  assumes "hub_ok hub" and "gpu_ok g" and "0 < queue_block_seconds cfg" and "calm w"
    and "\<exists>sl \<in> set (sched w). signalled sl"
  shows "\<exists>r w'. worker_main R cfg hub tmp g w = Some (r, w')
    \<and> (case r of Inl e \<Rightarrow> decode_error e | Inr _ \<Rightarrow> stop w')
    \<and> table_life (jobs (sh w)) (jobs (sh w')) \<and> (jobs_wf (sh w) \<longrightarrow> jobs_wf (sh w'))"
proof -
  note c = production_contract [OF assms(1,2), of R cfg tmp]
  show ?thesis
    using run_stops [OF c assms(3-5)] run_is_safe [OF c] unfolding worker_main_def by metis
qed

theorem production_worker_witness:
  "\<exists>r w'. worker_main reference_services sample_config local_hub (long_tmp [''tmp'']) (sample_gpu [''text''])
      (sample_world [sample_row 1 QUEUED ''ds/a.csv''] [quiet_slot, quiet_slot, signal_slot]) = Some (r, w')
    \<and> table_life [sample_row 1 QUEUED ''ds/a.csv''] (jobs (sh w'))"
proof -
  let ?w = "sample_world [sample_row 1 QUEUED ''ds/a.csv''] [quiet_slot, quiet_slot, signal_slot]"
  have "0 < queue_block_seconds sample_config" "calm ?w" "\<exists>sl \<in> set (sched ?w). signalled sl"
    by (simp_all add: sample_config_def calm_def)
  from production_worker [OF local_hub_ok sample_gpu_ok [of "[''text'']"] this, of reference_services "long_tmp [''tmp'']"]
  show ?thesis by (metis sample_world_simps(1))
qed

section \<open>The entry point\<close>

text \<open>
  \<open>main()\<close>: the configuration is loaded from the environment and the launcher is given \<open>run\<close>. The training
  libraries see the environment of their process, so they are a function of it here.
\<close>

definition crucible_main ::
  "services \<Rightarrow> hub \<Rightarrow> tmp_namer \<Rightarrow> (environ \<Rightarrow> ('ds, 'm, 't, 'tr) gpu_stack) \<Rightarrow> bool \<Rightarrow> process_state \<Rightarrow>
     exn + (world \<Rightarrow> ((exn + int) \<times> world) option) launched" where
  "crucible_main R hub tmp g has_sigterm p = (case load (environment p) of
     Inl e \<Rightarrow> Inl e
   | Inr cfg \<Rightarrow> Inr (launch has_sigterm cfg (\<lambda>cfg p. worker_main R cfg hub tmp (g (environment p))) p))"

text \<open>One worker per configured GPU, each with the one GPU it may see.\<close>

lemma main_starts_workers:
  assumes "load (environment p) = Inr cfg"
  shows "crucible_main R hub tmp g b p = Inr (case gpu_ids cfg of
      [i] \<Rightarrow> Inline (worker_main R cfg hub tmp (g ((environment p)(''CUDA_VISIBLE_DEVICES'' \<mapsto> i))))
    | is \<Rightarrow> Spawned (map (\<lambda>i. (''crucible-worker-gpu'' @ i,
        worker_main R cfg hub tmp (g ((environment p)(''CUDA_VISIBLE_DEVICES'' \<mapsto> i))))) is))"
  using assms by (cases "gpu_ids cfg" rule: remdups_adj.cases)
    (simp_all add: crucible_main_def launch_def run_pinned_code child_entry_def pinned_def spawned_def)

end
