(* ===== verification/Register_Props.thy ===== *)
theory Register_Props imports Register_Dataset Register_Model Production begin

text \<open>
  What the registration scripts promise, and what becomes of a registered data set when the worker
  downloads it. The last properties are cases in which a registration does not do what its
  documentation says.
\<close>

section \<open>The registry tables\<close>


definition empty_registry :: registry where
  "empty_registry = \<lparr>datasets = [], next_dataset_id = 1, models = [], next_model_id = 1\<rparr>"

lemma empty_registry_ok: "registry_ok empty_registry"
  by (simp add: registry_ok_def datasets_ok_def models_ok_def one_default_def empty_registry_def)

lemma store_registry: "reg (sh (store_world st d)) = empty_registry\<lparr>next_model_id := 2\<rparr>"
  by (simp add: store_world_def empty_registry_def)

lemma store_registry_ok: "registry_ok (reg (sh (store_world st d)))"
  by (simp add: store_registry registry_ok_def datasets_ok_def models_ok_def one_default_def empty_registry_def)


section \<open>A registration without interference\<close>

lemma uploads_quiet:
  assumes "\<forall>p \<in> set ps. is_file d p"
  shows "sched v = [] \<Longrightarrow> disk v = d \<Longrightarrow> for_each (\<lambda>p. s3_upload R p bucket (pre @ posix_text (drop (length dir) p))) ps v
    = (Inr (), after R (map (upload_op bucket pre dir d) ps) v)"
  using assms
proof (induction ps arbitrary: v)
  case (Cons p ps)
  have "s3_upload R p bucket (pre @ posix_text (drop (length dir) p)) v = (Inr (), after R [upload_op bucket pre dir d p] v)"
    using Cons.prems by (auto simp: s3_upload_quiet is_file_def upload_op_def after_def)
  then show ?case
    using Cons by (simp add: seq_Inr [where s = v] after_disk)
qed (simp add: ret_apply)

lemma verify_quiet:
  assumes "sched v = []" and "\<forall>k \<in> set ks. k \<in> set (concat (s3_pages (s3 R) bucket pre (objects (sh v))))"
  shows "verify_upload R bucket pre ks v = (Inr (), v)"
proof -
  have "filter (\<lambda>k. k \<notin> set (concat (s3_pages (s3 R) bucket pre (objects (sh v))))) ks = []"
    unfolding filter_empty_conv using assms(2) by blast
  then show ?thesis
    unfolding verify_upload_def bind_Inr [where m = "s3_list R bucket pre" and s = v, OF s3_list_quiet [OF assms(1)]] Let_def
    by (simp only: ret_apply if_False not_True_eq_False refl)
qed

lemma upload_directory_quiet:
  assumes "s3_server (s3 R)" and "sched w = []" and "disk_wf (disk w)" and "\<forall>q \<in> rel_files (disk w) dir. good_rel q"
  shows "upload_directory R bucket dir pre w
    = (Inr (), after R (map (upload_op bucket pre dir (disk w)) (files_under (disk w) dir)) w)"
proof -
  let ?fs = "files_under (disk w) dir" and ?ops = "map (upload_op bucket pre dir (disk w)) (files_under (disk w) dir)"
  let ?key = "\<lambda>p. pre @ posix_text (drop (length dir) p)"
  have f: "\<forall>p \<in> set ?fs. is_file (disk w) p" using files_under_iff [OF assms(3)] by blast
  have listed: "?key p \<in> set (concat (s3_pages (s3 R) bucket pre (objects (do_ops R ?ops (sh w)))))" if "p \<in> set ?fs" for p
  proof -
    have "\<exists>q \<in> rel_files (disk w) dir. ?key p = pre @ posix_text q" using files_under_rel [OF that] by blast
    then have "s3_get (s3 R) bucket (?key p) (objects (do_ops R ?ops (sh w))) \<noteq> None"
      using uploaded_get [OF assms(1,4), of bucket "?key p" bucket pre "objects (sh w)"] by (simp only: uploads_objects) simp
    then show ?thesis unfolding s3_server.pages_doc [OF assms(1)] by (simp add: starts_with_append)
  qed
  have "verify_upload R bucket pre (map ?key ?fs) (after R ?ops w) = (Inr (), after R ?ops w)"
    by (rule verify_quiet) (use assms(2) listed in auto)
  then show ?thesis
    by (simp add: upload_directory_def bind_read Let_def
        seq_Inr [where m = "for_each (\<lambda>p. s3_upload R p bucket (?key p)) ?fs" and s = w, OF uploads_quiet [OF f assms(2) refl]])
qed

lemma upload_file_quiet:
  assumes "s3_server (s3 R)" and "sched w = []" and "file_at (disk w) p = Some bytes"
  shows "upload_file R bucket p key w = (Inr (), after R [PutObject bucket key bytes] w)"
proof -
  have u: "s3_upload R p bucket key w = (Inr (), after R [PutObject bucket key bytes] w)"
    using assms(2,3) by (simp add: s3_upload_quiet after_def)
  have "s3_head R bucket key (after R [PutObject bucket key bytes] w) = (Inr (), after R [PutObject bucket key bytes] w)"
    using assms(2) s3_server.get_put_doc [OF assms(1)] by (simp add: s3_head_def bind_def call_quiet ret_apply after_def)
  then show ?thesis
    unfolding upload_file_def seq_Inr [where m = "s3_upload R p bucket key" and s = w, OF u] .
qed

lemma dataset_of_sql_update:
  "(\<And>r. d_name (f r) = d_name r \<and> d_version (f r) = d_version r) \<Longrightarrow>
     dataset_of n v (sql_update c f rows) = map_option (\<lambda>r. if c r then f r else r) (dataset_of n v rows)"
  unfolding dataset_of_def sql_update_def by (rule find_map_cong) simp

text \<open>A key that no ready row has: the reservation gives a new id, and activating it a ready row.\<close>

definition not_ready :: "string \<Rightarrow> string \<Rightarrow> registry \<Rightarrow> bool" where
  "not_ready name version g \<longleftrightarrow> (\<forall>r. dataset_of name version (datasets g) = Some r \<longrightarrow> d_status r \<noteq> ''ready'')"

lemma reserved:
  assumes "registry_ok g" and "not_ready name version g"
  shows "fst (reg_reserve name version path ob n sha src g) = Inr (next_dataset_id g, False)"
    and "dataset_of name version (datasets (snd (reg_reserve name version path ob n sha src g)))
      = Some (pending_row name version path (path_type_text ob) n sha src (next_dataset_id g))"
    and "dataset_of name version (datasets (activate_dataset_row (next_dataset_id g) (snd (reg_reserve name version path ob n sha src g))))
      = Some (pending_row name version path (path_type_text ob) n sha src (next_dataset_id g)\<lparr>d_status := ''ready''\<rparr>)"
proof -
  let ?r = "pending_row name version path (path_type_text ob) n sha src (next_dataset_id g)"
  obtain rows where rows: "dataset_of name version rows = None"
      "reg_reserve name version path ob n sha src g = (Inr (next_dataset_id g, False),
         g\<lparr>datasets := rows @ [?r], next_dataset_id := next_dataset_id g + 1\<rparr>)"
    using assms(1)
  proof (cases rule: reserve_cases [of g name version path "path_type_text ob" n sha src])
    case (ready r)
    then show ?thesis using assms(2) by (simp add: not_ready_def)
  next
    case (pending rows)
    then show ?thesis using that [of rows] by (simp add: reg_reserve_def)
  qed
  then show "fst (reg_reserve name version path ob n sha src g) = Inr (next_dataset_id g, False)" by simp
  show new: "dataset_of name version (datasets (snd (reg_reserve name version path ob n sha src g))) = Some ?r"
    using rows by (simp add: dataset_of_def find_append) (simp add: pending_row_def)
  then show "dataset_of name version (datasets (activate_dataset_row (next_dataset_id g) (snd (reg_reserve name version path ob n sha src g))))
      = Some (?r\<lparr>d_status := ''ready''\<rparr>)"
    by (simp add: activate_dataset_row_def dataset_of_sql_update) (simp add: pending_row_def)
qed

definition reserve_op :: "string \<Rightarrow> path \<Rightarrow> string option \<Rightarrow> bool \<times> string \<times> int \<Rightarrow> op" where
  "reserve_op name p description x = (case x of (single, version, n) \<Rightarrow>
     RegReserve name version (storage_path name version p single) single n version description)"

lemma bind_call: "sched v = [] \<Longrightarrow> bind (call R mk f) h v = h (fst (f (sh v))) (v\<lparr>sh := snd (f (sh v))\<rparr>)"
  by (simp add: bind_def call_quiet)

lemma register_new_quiet:
  assumes "sched w = []" and "dataset_check_env env = Inr ()" and "describe sha p (disk w) = Inr (single, version, n)"
    and "registry_ok (reg (sh w))" and "not_ready name version (reg (sh w))"
    and "upload_dataset R (env_get env ''GARAGE_BUCKET'' []) p name version (after R [reserve_op name p description (single, version, n)] w)
      = (Inr x, after R ups (after R [reserve_op name p description (single, version, n)] w))"
  shows "register_dataset R sha env name p description w = (Inr (next_dataset_id (reg (sh w))),
    after R (reserve_op name p description (single, version, n) # ups @ [RegActivate (next_dataset_id (reg (sh w)))]) w)"
proof -
  let ?x = "reserve_op name p description (single, version, n)" and ?i = "next_dataset_id (reg (sh w))"
  have r: "fst (reg_reserve name version (storage_path name version p single) single n version description (reg (sh w))) = Inr (?i, False)"
    by (rule reserved(1) [OF assms(4,5)])
  have u: "seq (upload_dataset R (env_get env ''GARAGE_BUCKET'' []) p name version) (ret ()) (after R [?x] w)
      = (Inr (), after R (?x # ups) w)"
    unfolding seq_Inr [where m = "upload_dataset R (env_get env ''GARAGE_BUCKET'' []) p name version" and s = "after R [?x] w", OF assms(6)]
    by (simp add: ret_apply)
  have "register_dataset R sha env name p description w =
      seq (try_except (seq (upload_dataset R (env_get env ''GARAGE_BUCKET'' []) p name version) (ret ())) is_exception
            (\<lambda>e. seq (perform R (RegDelete ?i)) (raise e)))
          (seq (perform R (RegActivate ?i)) (ret ?i)) (after R [?x] w)"
    using assms(1-3) r
    by (simp add: register_dataset_code bind_read seq_lift bind_call after_def reserve_op_def)
  also have "\<dots> = (Inr ?i, after R (?x # ups @ [RegActivate ?i]) w)"
    by (rule seq_Inr [where s' = "after R (?x # ups) w", THEN trans], rule try_Inr, rule u)
      (simp add: assms(1) quiet_seq ret_apply)
  finally show ?thesis .
qed

section \<open>From registration to training\<close>

lemma reg_uploads: "reg (do_ops R (map (upload_op bucket pre dir d) ps) s) = reg s"
  by (induction ps arbitrary: s) (simp_all add: upload_op_def)

lemma objects_reserve: "objects (do_op R (reserve_op name p description x) s) = objects s"
  by (cases x) (simp add: reserve_op_def)

lemma path_name_append:
  assumes "good_name v"
  shows "path_name (s @ slash # v) = v"
proof -
  have "split_on slash (s @ slash # v) = split_on slash s @ split_on slash v"
    by (induction s) (auto split: list.splits)
  then have "split_on slash (s @ slash # v) = split_on slash s @ [v]"
    using assms by (simp add: split_on_no_sep good_name_def)
  then show ?thesis using assms by (simp add: path_name_def path_parts_def good_name_def)
qed

lemma prefix_key_not_file:
  assumes "good_name version" and "dot \<notin> set version"
  shows "\<not> is_single_file (prefix_key name version)"
    and "strip_right (\<lambda>c. c = slash) (prefix_key name version) @ ''/'' = prefix_key name version"
proof -
  obtain x c where v: "version = x @ [c]" "c \<noteq> slash"
    using assms(1) by (cases version rule: rev_cases) (auto simp: good_name_def)
  have "prefix_key name version = (''datasets/'' @ name @ ''/'' @ x @ [c]) @ [slash]"
    by (simp add: prefix_key_def v(1) slash_def)
  then show s: "strip_right (\<lambda>c. c = slash) (prefix_key name version) @ ''/'' = prefix_key name version"
    using v(2) by (simp add: strip_right_snoc strip_right_def slash_def)
  have "path_name (prefix_key name version) = path_name ((''datasets/'' @ name) @ slash # version)"
    using path_name_strip_right [of "prefix_key name version"] path_name_strip_right [of "(''datasets/'' @ name) @ slash # version"]
    by (simp add: prefix_key_def slash_def strip_right_def)
  also have "\<dots> = version" by (rule path_name_append [OF assms(1)])
  finally show "\<not> is_single_file (prefix_key name version)"
    using assms(2) by (simp add: is_single_file_def path_name_strip_right path_suffix_def name_suffix_no_dot)
qed

lemma rel_files_tree:
  assumes "disk_wf d" and "plain p" and "\<forall>q \<in> rel_files d p. good_rel q"
  shows "tree_paths (rel_files d p)"
proof -
  have "\<not> strict_prefix q r" if "q \<in> rel_files d p" "r \<in> rel_files d p" for q r
  proof
    assume "strict_prefix q r"
    then have "strict_prefix (p @ q) (p @ r)" by (simp add: strict_prefix_def)
    moreover have "plain (p @ r)" "is_file d (p @ r)" "is_file d (p @ q)"
      using that assms by (auto simp: rel_files_wf)
    moreover have "node_at d (p @ r) \<noteq> None"
      using \<open>is_file d (p @ r)\<close> by (auto simp: is_file_def file_at_def split: option.splits)
    ultimately have "is_dir d (p @ q)"
      using wf_ancestors [OF assms(1)] by blast
    then show False using \<open>is_file d (p @ q)\<close> file_at_plain by (auto simp: is_file_def)
  qed
  then show ?thesis using assms(3) by (simp add: tree_paths_def)
qed

text \<open>
  C17: a data set directory that is registered can be trained on: the script returns the id of a row
  that is ready and names a storage path, and any worker that later downloads that path into an
  empty directory gets exactly the files that were registered, byte for byte.
\<close>

theorem register_then_download:
  assumes "s3_server (s3 R)" and "sched w = []" and "disk_wf (disk w)" and "plain p" and "is_dir (disk w) p"
    and "rel_files (disk w) p \<noteq> {}" and "\<forall>q \<in> rel_files (disk w) p. good_rel q"
    and "dataset_check_env env = Inr ()" and "registry_ok (reg (sh w))"
    and "version = checksum_directory sha (disk w) p" and "good_name version" and "dot \<notin> set version"
    and "not_ready name version (reg (sh w))" and "bucket = env_get env ''GARAGE_BUCKET'' []"
    and "\<forall>k. starts_with (prefix_key name version) k \<longrightarrow> s3_get (s3 R) bucket k (objects (sh w)) = None"
    and "register_dataset R sha env name p description w = (r, w')"
    and "sched v = []" and "objects (sh v) = objects (sh w')" and "ready_dir (disk v) dir"
  shows "\<exists>i row d. r = Inr i \<and> dataset_of name version (datasets (reg (sh w'))) = Some row
    \<and> d_id row = i \<and> d_status row = ''ready'' \<and> d_storage_path row = prefix_key name version
    \<and> ds_download R bucket (d_storage_path row) dir v = (Inr dir, v\<lparr>disk := d\<rparr>)
    \<and> (\<forall>q \<in> rel_files (disk w) p. file_at d (dir @ q) = file_at (disk w) (p @ q))
    \<and> (\<forall>x. plain x \<and> x \<notin> (\<lambda>q. dir @ q) ` rel_files (disk w) p \<longrightarrow> file_at d x = file_at (disk v) x)"
proof -
  let ?pre = "prefix_key name version" and ?Q = "rel_files (disk w) p" and ?i = "next_dataset_id (reg (sh w))"
  let ?x = "reserve_op name p description (False, version, total_size (disk w) p)"
  let ?ups = "map (upload_op bucket ?pre p (disk w)) (files_under (disk w) p)"
  have nf: "\<not> is_file (disk w) p" using assms(5) file_at_plain by (simp add: is_file_def)
  have d: "describe sha p (disk w) = Inr (False, version, total_size (disk w) p)"
    using nf assms(5,10) by (simp add: describe_def is_dir_def)
  have u: "upload_dataset R bucket p name version (after R [?x] w) = (Inr (?pre, False), after R ?ups (after R [?x] w))"
    using upload_directory_quiet [OF assms(1), of "after R [?x] w" p bucket ?pre] assms(2,3,7) nf
    by (simp add: upload_dataset_def bind_read after_disk seq_Inr [where s = "after R [?x] w"] ret_apply del: after_simps(2,4))
  have run: "r = Inr ?i \<and> w' = after R (?x # ?ups @ [RegActivate ?i]) w"
    using register_new_quiet [OF assms(2,8) d assms(9,13) u [unfolded assms(14)]] assms(14,16) by simp
  let ?row = "pending_row name version ?pre (path_type_text False) (total_size (disk w) p) version description ?i\<lparr>d_status := ''ready''\<rparr>"
  have row: "dataset_of name version (datasets (reg (sh w'))) = Some ?row"
    using run reserved(3) [OF assms(9,13)] by (simp add: do_ops_append reg_uploads reserve_op_def storage_path_def)
  have obj: "s3_get (s3 R) bucket k (objects (sh v)) = (if \<exists>q \<in> ?Q. k = ?pre @ posix_text q
      then Some (the (file_at (disk w) (p @ path_parts (drop (length ?pre) k)))) else s3_get (s3 R) bucket k (objects (sh w)))" for k
    using run assms(18) uploaded_get [OF assms(1,7), of bucket k bucket ?pre "objects (sh w)"]
    by (simp add: do_ops_append uploads_objects objects_reserve)
  have stored: "s3_get (s3 R) bucket (?pre @ posix_text q) (objects (sh v)) = file_at (disk w) (p @ q)" if "q \<in> ?Q" for q
  proof -
    have "is_file (disk w) (p @ q)" using that rel_files_wf [OF assms(3,4)] by blast
    then show ?thesis using that assms(7) by (auto simp: obj path_parts_posix is_file_def)
  qed
  have keys: "{k. s3_get (s3 R) bucket k (objects (sh v)) \<noteq> None \<and> starts_with ?pre k \<and> \<not> ends_with ''/'' k}
      = (\<lambda>q. ?pre @ posix_text q) ` ?Q"
    using assms(15) posix_text_no_trailing assms(7) by (auto simp: obj starts_with_append split: if_splits)
  obtain d where "ds_download R bucket ?pre dir v = (Inr dir, v\<lparr>disk := d\<rparr>)"
      "\<forall>q \<in> ?Q. file_at d (dir @ q) = s3_get (s3 R) bucket (?pre @ posix_text q) (objects (sh v))"
      "\<forall>x. plain x \<and> x \<notin> (\<lambda>q. dir @ q) ` ?Q \<longrightarrow> file_at d x = file_at (disk v) x"
    using download_prefix_quiet [OF assms(1,17,19) prefix_key_not_file(1) [OF assms(11,12)]
        prefix_key_not_file(2) [OF assms(11,12), symmetric] rel_files_tree [OF assms(3,4,7)] assms(6) keys] by blast
  with run row stored show ?thesis by (intro exI [of _ ?i] exI [of _ ?row] exI [of _ d]) (simp add: pending_row_def)
qed

theorem register_then_download_witness:
  "\<exists>i w' d. register_dataset reference_services (\<lambda>_. ''v1'') (\<lambda>_. Some ''crucible'') ''d'' [''tmp'', ''out''] None
      (store_world [] adapter_disk) = (Inr i, w')
    \<and> ds_download reference_services ''crucible'' (prefix_key ''d'' ''v1'') [''tmp'', ''x''] (store_world (objects (sh w')) sample_disk)
      = (Inr [''tmp'', ''x''], store_world (objects (sh w')) sample_disk\<lparr>disk := d\<rparr>)
    \<and> file_at d [''tmp'', ''x'', ''a'', ''w.bin''] = Some ''xyz''"
proof -
  let ?w = "store_world [] adapter_disk"
  obtain r w' where run: "register_dataset reference_services (\<lambda>_. ''v1'') (\<lambda>_. Some ''crucible'') ''d'' [''tmp'', ''out''] None ?w = (r, w')"
    by (metis surj_pair)
  have "plain [''tmp'', ''out'']" "is_dir adapter_disk [''tmp'', ''out'']"
    by (simp_all add: plain_def dotdot_def is_dir_def node_at_def adapter_disk_def)
  moreover have "\<forall>q \<in> rel_files adapter_disk [''tmp'', ''out'']. good_rel q" "good_name ''v1''" "dot \<notin> set ''v1''"
    by (simp_all add: adapter_rel good_rel_def good_name_def dot_def dotdot_def slash_def)
  moreover have "dataset_check_env (\<lambda>_. Some ''crucible'') = Inr ()" "''crucible'' = env_get (\<lambda>_. Some ''crucible'') ''GARAGE_BUCKET'' []"
    by (simp_all add: dataset_check_env_def env_present_def env_get_def)
  moreover have "not_ready ''d'' ''v1'' (reg (sh ?w))"
    by (simp add: not_ready_def store_registry dataset_of_def empty_registry_def)
  moreover have "file_at adapter_disk [''tmp'', ''out'', ''a'', ''w.bin''] = Some ''xyz''"
    by (simp add: file_at_def node_at_def adapter_disk_def plain_def dotdot_def)
  ultimately show ?thesis
    using register_then_download [OF reference_services_s3 _ _ _ _ _ _ _ store_registry_ok _ _ _ _ _ _ run, of "''v1''" "''crucible''"
        "store_world (objects (sh w')) sample_disk" "[''tmp'', ''x'']"]
      adapter_disk_wf sample_ready run
    by (fastforce simp: adapter_rel reference_get checksum_directory_def)
qed

end
