(* ===== verification/Register_Cases.thy ===== *)
theory Register_Cases imports Register_Props begin

text \<open>
  Registrations one by one: a single file, content that is registered already, a failed upload; and
  the cases that go wrong: a file without an extension, directories the checksum confuses, and two
  registrations of the same content at a time.
\<close>

section \<open>Single files\<close>

lemma object_key_name:
  assumes "good_name version" and "good_name (last p)"
  shows "path_name (object_key name version p) = version @ name_suffix (last p) \<and> good_name (version @ name_suffix (last p))"
proof -
  have "slash \<notin> set (name_suffix (last p))"
  proof -
    have "name_suffix (last p) = [] \<or> (\<exists>u. last p = u @ name_suffix (last p))"
      by (rule last_dot_cases [of dot "last p"]) (auto simp: name_suffix_no_dot name_suffix_dotted)
    then have "set (name_suffix (last p)) \<subseteq> set (last p)" by (metis Un_iff empty_iff list.set(1) set_append subsetI)
    then show ?thesis using assms(2) by (auto simp: good_name_def)
  qed
  moreover have "version @ name_suffix (last p) \<noteq> [dot] \<and> version @ name_suffix (last p) \<noteq> dotdot"
    using assms(1) name_suffix_shape [of "last p"] by (auto simp: good_name_def dotdot_def dot_def append_eq_Cons_conv)
  ultimately have g: "good_name (version @ name_suffix (last p))" using assms(1) by (simp add: good_name_def)
  have "object_key name version p = (''datasets/'' @ name) @ slash # version @ name_suffix (last p)"
    by (simp add: object_key_def slash_def)
  with g path_name_append [OF g, of "''datasets/'' @ name"] show ?thesis by (simp only: simp_thms)
qed

lemma register_file_quiet:
  assumes "s3_server (s3 R)" and "sched w = []" and "file_at (disk w) p = Some bytes"
    and "dataset_check_env env = Inr ()" and "registry_ok (reg (sh w))"
    and "version = checksum_file sha (disk w) p" and "not_ready name version (reg (sh w))"
    and "bucket = env_get env ''GARAGE_BUCKET'' []"
  shows "register_dataset R sha env name p description w = (Inr (next_dataset_id (reg (sh w))),
    after R [reserve_op name p description (True, version, total_size (disk w) p),
      PutObject bucket (object_key name version p) bytes, RegActivate (next_dataset_id (reg (sh w)))] w)"
proof -
  let ?x = "reserve_op name p description (True, version, total_size (disk w) p)"
  have f: "is_file (disk w) p" "node_at (disk w) p \<noteq> None"
    using assms(3) by (auto simp: is_file_def file_at_def split: option.splits)
  have d: "describe sha p (disk w) = Inr (True, version, total_size (disk w) p)"
    using f assms(6) by (simp add: describe_def)
  have "upload_dataset R bucket p name version (after R [?x] w)
      = (Inr (object_key name version p, True), after R [PutObject bucket (object_key name version p) bytes] (after R [?x] w))"
    using upload_file_quiet [OF assms(1), of "after R [?x] w" p bytes bucket "object_key name version p"] assms(2,3) f
    by (simp add: upload_dataset_def bind_read after_disk seq_Inr [where s = "after R [?x] w"] ret_apply del: after_simps(2,4))
  then show ?thesis
    using register_new_quiet [OF assms(2,4) d assms(5,7)] assms(8) by simp
qed

text \<open>The worker's download of a file that was registered, with an extension and without.\<close>

lemma download_with_suffix:
  assumes "good_name version" and "good_name (last p)" and "name_suffix (last p) \<noteq> []"
    and "sched v = []" and "ready_dir (disk v) dir" and "s3_get (s3 R) bucket (object_key name version p) (objects (sh v)) = Some bytes"
  shows "\<exists>d. ds_download R bucket (object_key name version p) dir v = (Inr (dir @ [version @ name_suffix (last p)]), v\<lparr>disk := d\<rparr>)
    \<and> file_at d (dir @ [version @ name_suffix (last p)]) = Some bytes"
proof -
  let ?key = "object_key name version p"
  note name = object_key_name [OF assms(1,2), of name]
  have "is_single_file ?key"
    using name name_suffix_shape [of "last p"] assms(1,3)
    by (auto simp: is_single_file_def path_name_strip_right path_suffix_def name_suffix_dotted good_name_def)
  then have "ds_download R bucket ?key dir v = (Inr (dir @ [path_name ?key]),
      v\<lparr>disk := set_node (dir @ [path_name ?key]) (File bytes) (disk v)\<rparr>)"
    using download_file_quiet [OF assms(4,5)] name assms(6) by simp
  moreover have "plain (dir @ [path_name ?key])"
    using assms(5) name good_rel_plain [OF good_name_rel] by (simp add: ready_dir_def)
  ultimately show ?thesis using name by (auto simp: file_at_set_node)
qed

lemma download_without_suffix:
  assumes "s3_server (s3 R)" and "good_name version" and "dot \<notin> set version" and "good_name (last p)" and "name_suffix (last p) = []"
    and "sched v = []" and "ready_dir (disk v) dir"
    and "\<forall>k. starts_with (prefix_key name version) k \<longrightarrow> k = object_key name version p \<or> s3_get (s3 R) bucket k (objects (sh v)) = None"
  shows "\<exists>m. ds_download R bucket (object_key name version p) dir v = (Inl (DatasetDownloadError m), v)"
proof -
  let ?key = "object_key name version p"
  have k: "?key @ ''/'' = prefix_key name version" "?key = ''datasets/'' @ name @ ''/'' @ version"
    using assms(5) by (simp_all add: object_key_def prefix_key_def)
  have "\<not> is_single_file ?key"
    using assms(3,5) object_key_name [OF assms(2,4), of name]
    by (simp add: is_single_file_def path_name_strip_right path_suffix_def name_suffix_no_dot)
  moreover have "strip_right (\<lambda>c. c = slash) ?key = ?key"
    using assms(2) k(2) by (intro strip_right_noop) (auto simp: good_name_def dest: last_in_set)
  moreover have none: "s3_get (s3 R) bucket q (objects (sh v)) = None" if "starts_with (prefix_key name version) q" for q
  proof -
    have "q \<noteq> ?key" using that k by (auto simp: prefix_key_def starts_with_def dest!: arg_cong [where f = length])
    then show ?thesis using assms(8) that by blast
  qed
  then have "concat (s3_pages (s3 R) bucket (prefix_key name version) (objects (sh v))) = []"
    using s3_server.pages_empty_iff [OF assms(1)] by blast
  ultimately show ?thesis
    using assms(6) ready_dir_empty [OF assms(7)] k(1)
    by (simp add: ds_download_def ds_download_prefix_def Let_def seq_local bind_def ds_list_keys_quiet raise_apply
        del: concat_eq_Nil_conv Nil_eq_concat_conv)
qed

text \<open>
  C39: a single file that is registered gets a ready row with its storage path; the worker can
  download it again, byte for byte, exactly when the file has an extension. Without one, the
  registration succeeds all the same, and every download of the row's path fails.
\<close>

theorem single_file_usable:
  assumes "s3_server (s3 R)" and "sched w = []" and "file_at (disk w) p = Some bytes" and "good_name (last p)"
    and "dataset_check_env env = Inr ()" and "registry_ok (reg (sh w))"
    and "version = checksum_file sha (disk w) p" and "good_name version" and "dot \<notin> set version"
    and "not_ready name version (reg (sh w))" and "bucket = env_get env ''GARAGE_BUCKET'' []"
    and "\<forall>k. starts_with (prefix_key name version) k \<longrightarrow> s3_get (s3 R) bucket k (objects (sh w)) = None"
    and "register_dataset R sha env name p description w = (r, w')"
    and "sched v = []" and "objects (sh v) = objects (sh w')" and "ready_dir (disk v) dir"
  shows "\<exists>i row. r = Inr i \<and> dataset_of name version (datasets (reg (sh w'))) = Some row
    \<and> d_id row = i \<and> d_status row = ''ready''
    \<and> (if name_suffix (last p) \<noteq> []
       then \<exists>d. ds_download R bucket (d_storage_path row) dir v = (Inr (dir @ [version @ name_suffix (last p)]), v\<lparr>disk := d\<rparr>)
          \<and> file_at d (dir @ [version @ name_suffix (last p)]) = Some bytes
       else \<exists>m. ds_download R bucket (d_storage_path row) dir v = (Inl (DatasetDownloadError m), v))"
proof -
  let ?key = "object_key name version p" and ?i = "next_dataset_id (reg (sh w))"
  let ?x = "reserve_op name p description (True, version, total_size (disk w) p)"
  let ?row = "pending_row name version ?key (path_type_text True) (total_size (disk w) p) version description ?i\<lparr>d_status := ''ready''\<rparr>"
  note reg = register_file_quiet [OF assms(1-3,5-7,10,11), of description]
  have run: "r = Inr ?i" "w' = after R [?x, PutObject bucket ?key bytes, RegActivate ?i] w"
    using reg assms(13) by simp_all
  have row: "dataset_of name version (datasets (reg (sh w'))) = Some ?row"
    using run(2) reserved(3) [OF assms(6,10)] by (simp add: reserve_op_def storage_path_def)
  have obj: "s3_get (s3 R) bucket k (objects (sh v)) = (if k = ?key then Some bytes else s3_get (s3 R) bucket k (objects (sh w)))" for k
    using run(2) assms(15) s3_server.get_put_doc [OF assms(1)] by (simp add: reserve_op_def)
  have "if name_suffix (last p) \<noteq> []
       then \<exists>d. ds_download R bucket ?key dir v = (Inr (dir @ [version @ name_suffix (last p)]), v\<lparr>disk := d\<rparr>)
          \<and> file_at d (dir @ [version @ name_suffix (last p)]) = Some bytes
       else \<exists>m. ds_download R bucket ?key dir v = (Inl (DatasetDownloadError m), v)"
    using download_with_suffix [OF assms(8,4) _ assms(14,16), of R bucket name bytes]
      download_without_suffix [OF assms(1,8,9,4) _ assms(14,16), of name bucket] assms(12)
    by (simp add: obj)
  then show ?thesis
    using run row by (intro exI [of _ ?i] exI [of _ ?row]) (simp add: pending_row_def)
qed

theorem single_file_usable_witness:
  "\<exists>i w' m. register_dataset reference_services (\<lambda>_. ''v1'') (\<lambda>_. Some ''crucible'') ''d'' [''data''] None
      (store_world [] [([''data''], File ''x'')]) = (Inr i, w')
    \<and> ds_download reference_services ''crucible'' (object_key ''d'' ''v1'' [''data'']) [''tmp'', ''x''] (store_world (objects (sh w')) sample_disk)
      = (Inl (DatasetDownloadError m), store_world (objects (sh w')) sample_disk)"
proof -
  let ?d = "[([''data''], File ''x'')] :: disk" and ?w = "store_world [] [([''data''], File ''x'')]"
  obtain r w' where run: "register_dataset reference_services (\<lambda>_. ''v1'') (\<lambda>_. Some ''crucible'') ''d'' [''data''] None ?w = (r, w')"
    by (metis surj_pair)
  have f: "file_at ?d [''data''] = Some ''x''" by (simp add: file_at_def node_at_def plain_def dotdot_def)
  have g: "good_name (last [''data''])" "good_name ''v1''" "dot \<notin> set ''v1''" "name_suffix ''data'' = []"
    by (simp_all add: good_name_def dot_def dotdot_def slash_def name_suffix_no_dot)
  have e: "dataset_check_env (\<lambda>_. Some ''crucible'') = Inr ()" "''crucible'' = env_get (\<lambda>_. Some ''crucible'') ''GARAGE_BUCKET'' []"
    by (simp_all add: dataset_check_env_def env_present_def env_get_def)
  have n: "not_ready ''d'' ''v1'' (reg (sh ?w))"
    by (simp add: not_ready_def store_registry dataset_of_def empty_registry_def)
  have "storage_path ''d'' ''v1'' [''data''] True = object_key ''d'' ''v1'' [''data'']" by (simp add: storage_path_def)
  then have key: "d_storage_path row = object_key ''d'' ''v1'' [''data'']"
    if "dataset_of ''d'' ''v1'' (datasets (reg (sh w'))) = Some row" for row
    using that run register_file_quiet [OF reference_services_s3 _ _ e(1) store_registry_ok _ n e(2), where p = "[''data'']" and bytes = "''x''" and sha = "\<lambda>_. ''v1''" and description = None]
      f reserved(3) [OF store_registry_ok n] by (auto simp: checksum_file_def reserve_op_def pending_row_def)
  obtain i row where "r = Inr i" "dataset_of ''d'' ''v1'' (datasets (reg (sh w'))) = Some row"
      "\<exists>m. ds_download reference_services ''crucible'' (d_storage_path row) [''tmp'', ''x''] (store_world (objects (sh w')) sample_disk)
        = (Inl (DatasetDownloadError m), store_world (objects (sh w')) sample_disk)"
    using single_file_usable [OF reference_services_s3 _ _ g(1) e(1) store_registry_ok _ g(2,3) n e(2) _ run, where bytes = "''x''"
        and v = "store_world (objects (sh w')) sample_disk" and dir = "[''tmp'', ''x'']"] f g(4) sample_ready
    by (auto simp: checksum_file_def reference_get)
  then show ?thesis using run key by auto
qed

section \<open>Content that is registered already\<close>

lemma register_known:
  assumes "sched w = []" and "dataset_check_env env = Inr ()" and "describe sha p (disk w) = Inr (single, version, n)"
    and "dataset_of name version (datasets (reg (sh w))) = Some row" and "d_status row = ''ready''"
  shows "register_dataset R sha env name p description w = (Inr (d_id row), w)"
proof -
  have "reg_reserve name version path ob n version description (reg (sh w)) = (Inr (d_id row, True), reg (sh w))" for path ob
    using assms(4,5) by (simp add: reg_reserve_def reserve_dataset_row_def Let_def)
  then show ?thesis
    using assms(1-3) by (simp add: register_dataset_code bind_read seq_lift bind_call on_reg_def ret_apply)
qed

text \<open>
  Registering is idempotent: when the content of a file or directory is registered and ready
  under the name, the script returns the id of that row and changes nothing.
\<close>

theorem register_again:
  assumes "sched w = []" and "dataset_check_env env = Inr ()" and "node_at (disk w) p \<noteq> None"
    and "version = (if is_file (disk w) p then checksum_file sha (disk w) p else checksum_directory sha (disk w) p)"
    and "dataset_of name version (datasets (reg (sh w))) = Some row" and "d_status row = ''ready''"
  shows "register_dataset R sha env name p description w = (Inr (d_id row), w)"
  by (rule register_known [OF assms(1,2) _ assms(5,6)]) (use assms(3,4) in \<open>simp add: describe_def\<close>)

text \<open>
  Two directories with the same file names and the same contents, but the contents swapped. What
  is fed to the hash does not mark where a name ends and where a file begins.
\<close>

definition layout_a :: disk where
  "layout_a = [([''d''], Dir), ([''d'', ''a''], File []), ([''d'', ''b''], File ''b'')]"

definition layout_b :: disk where
  "layout_b = [([''d''], Dir), ([''d'', ''a''], File ''b''), ([''d'', ''b''], File [])]"

lemma layouts_same_checksum: "checksum_directory sha layout_a [''d''] = checksum_directory sha layout_b [''d'']"
proof -
  have f: "files_under layout_a [''d''] = [[''d'', ''a''], [''d'', ''b'']]" "files_under layout_b [''d''] = [[''d'', ''a''], [''d'', ''b'']]"
    by (simp_all add: files_under_def layout_a_def layout_b_def strict_prefix_def)
  have b: "bytes_of layout_a [''d'', ''a''] = []" "bytes_of layout_a [''d'', ''b''] = ''b''"
    "bytes_of layout_b [''d'', ''a''] = ''b''" "bytes_of layout_b [''d'', ''b''] = []"
    by (simp_all add: bytes_of_def file_at_def node_at_def layout_a_def layout_b_def plain_def dotdot_def)
  show ?thesis unfolding checksum_directory_eq f by (simp add: b posix_text_def)
qed

text \<open>
  The checksum of a directory does not tell layouts apart, although its documentation says so:
  whatever the hash function, when the first of two directories with swapped contents is registered,
  registering the second returns the first one's id and uploads nothing.
\<close>

theorem directory_checksum_confuses:
  assumes "sched w = []" and "dataset_check_env env = Inr ()" and "disk w = layout_b"
    and "dataset_of name (checksum_directory sha layout_a [''d'']) (datasets (reg (sh w))) = Some row"
    and "d_status row = ''ready''"
  shows "register_dataset R sha env name [''d''] description w = (Inr (d_id row), w)
    \<and> file_at layout_a [''d'', ''a''] \<noteq> file_at (disk w) [''d'', ''a'']"
proof
  have "\<not> is_file layout_b [''d'']" "node_at layout_b [''d''] \<noteq> None"
    by (simp_all add: is_file_def file_at_def node_at_def layout_b_def plain_def dotdot_def)
  then have "describe sha [''d''] (disk w) = Inr (False, checksum_directory sha layout_a [''d''], total_size (disk w) [''d''])"
    by (simp add: describe_def assms(3) layouts_same_checksum)
  from register_known [OF assms(1,2) this assms(4,5)]
  show "register_dataset R sha env name [''d''] description w = (Inr (d_id row), w)" .
  show "file_at layout_a [''d'', ''a''] \<noteq> file_at (disk w) [''d'', ''a'']"
    by (simp add: assms(3) file_at_def node_at_def layout_a_def layout_b_def plain_def dotdot_def)
qed

definition known_row :: dataset_row where
  "known_row = pending_row ''d'' ''v1'' ''datasets/d/v1/'' ''prefix'' 1 ''v1'' None 7\<lparr>d_status := ''ready''\<rparr>"

definition known_world :: "disk \<Rightarrow> world" where
  "known_world d = \<lparr>sh = \<lparr>jobs = [], reg = \<lparr>datasets = [known_row], next_dataset_id = 8, models = [], next_model_id = 1\<rparr>,
     rd = \<lparr>rlists = (\<lambda>_. []), rhashes = (\<lambda>_. None)\<rparr>, objects = [], clock = 0\<rparr>, sched = [], disk = d, stop = False\<rparr>"

lemma known_world_simps [simp]:
  "sched (known_world d) = []" "disk (known_world d) = d" "datasets (reg (sh (known_world d))) = [known_row]"
  "d_status known_row = ''ready''" "d_id known_row = 7" "d_name known_row = ''d''" "d_version known_row = ''v1''"
  by (simp_all add: known_world_def known_row_def pending_row_def)

lemma sample_env_ok: "dataset_check_env (\<lambda>_. Some ''crucible'') = Inr ()"
  by (simp add: dataset_check_env_def env_present_def env_get_def)

theorem register_again_witness:
  "register_dataset reference_services (\<lambda>_. ''v1'') (\<lambda>_. Some ''crucible'') ''d'' [''d''] None (known_world layout_a) = (Inr 7, known_world layout_a)"
proof -
  have "node_at layout_a [''d''] \<noteq> None" by (simp add: node_at_def layout_a_def plain_def dotdot_def)
  then show ?thesis
    using register_again [of "known_world layout_a" "\<lambda>_. Some ''crucible''" "[''d'']" "''v1''" "\<lambda>_. ''v1''" "''d''" known_row] sample_env_ok
    by (simp add: checksum_file_def checksum_directory_def dataset_of_def)
qed

theorem directory_checksum_confuses_witness:
  "register_dataset reference_services (\<lambda>_. ''v1'') (\<lambda>_. Some ''crucible'') ''d'' [''d''] None (known_world layout_b) = (Inr 7, known_world layout_b)"
  using directory_checksum_confuses [of "known_world layout_b" "\<lambda>_. Some ''crucible''" "''d''" "\<lambda>_. ''v1''" known_row] sample_env_ok
  by (simp add: checksum_directory_def dataset_of_def)

section \<open>Failures and interleavings\<close>

text \<open>Up to the upload: the row is reserved; what remains is the guarded upload and the activation.\<close>

lemma register_reserved:
  assumes "sched w = quiet_slot # sls" and "dataset_check_env env = Inr ()" and "describe sha p (disk w) = Inr (single, version, n)"
    and "registry_ok (reg (sh w))" and "not_ready name version (reg (sh w))" and "i = next_dataset_id (reg (sh w))"
  shows "register_dataset R sha env name p description w =
    seq (try_except (seq (upload_dataset R (env_get env ''GARAGE_BUCKET'' []) p name version) (ret ())) is_exception
          (\<lambda>e. seq (perform R (RegDelete i)) (raise e)))
        (seq (perform R (RegActivate i)) (ret i))
      (w\<lparr>sched := sls, sh := do_op R (reserve_op name p description (single, version, n)) (sh w)\<rparr>)"
proof -
  have b: "bind (call R mk f) h w = h (fst (f (sh w))) (w\<lparr>sched := sls, sh := snd (f (sh w))\<rparr>)"
    for mk and f :: "shared \<Rightarrow> (exn + int \<times> bool) \<times> shared" and h :: "exn + int \<times> bool \<Rightarrow> (world, exn, int) prog"
    using assms(1) by (simp add: bind_def call_def interfere_def next_slot_def Let_def)
  show ?thesis
    using assms(2,3,6) reserved(1) [OF assms(4,5)]
    by (simp add: register_dataset_code bind_read seq_lift b reserve_op_def)
qed

lemma call_in_slot:
  assumes "sched v = [sl]"
  shows "call R mk f v = (let w1 = v\<lparr>sched := [], sh := do_ops R (others sl) (sh v), stop := stop v \<or> signalled sl\<rparr> in
      case fault sl of NoFault \<Rightarrow> (Inr (fst (f (sh w1))), w1\<lparr>sh := snd (f (sh w1))\<rparr>) | Fails m \<Rightarrow> (Inl (mk m), w1)
    | FailsAfter m \<Rightarrow> (Inl (mk m), w1\<lparr>sh := snd (f (sh w1))\<rparr>) | Dies \<Rightarrow> (Inl Killed, w1))"
  using assms by (simp add: call_def interfere_def next_slot_def Let_def)

text \<open>The first request of the upload fails.\<close>

lemma upload_fails:
  assumes "sched v = [\<lparr>others = [], signalled = b, fault = Fails m\<rparr>]" and "disk_wf (disk v)"
  shows "upload_dataset R bucket p name version v = (Inl (S3Error m), v\<lparr>sched := [], stop := stop v \<or> b\<rparr>)"
proof -
  let ?v = "v\<lparr>sched := [], stop := stop v \<or> b\<rparr>"
  have c: "call R S3Error f v = (Inl (S3Error m), ?v)" for f :: "shared \<Rightarrow> 'x \<times> shared"
    by (simp add: call_in_slot [OF assms(1)] Let_def)
  have up: "s3_upload R q bucket key v = (Inl (S3Error m), ?v)" if "is_file (disk v) q" for q key
    using that by (auto simp: s3_upload_def bind_def local_read_def read_file_def is_file_def
        call_in_slot [OF assms(1)] Let_def)
  show ?thesis
  proof (cases "is_file (disk v) p")
    case True
    then have "upload_file R bucket p key v = (Inl (S3Error m), ?v)" for key
      unfolding upload_file_def by (intro seq_Inl up)
    with True show ?thesis by (simp add: upload_dataset_def bind_read seq_Inl)
  next
    case False
    have "upload_directory R bucket p pre v = (Inl (S3Error m), ?v)" for pre
    proof (cases "files_under (disk v) p")
      case Nil
      have "verify_upload R bucket pre ks v = (Inl (S3Error m), ?v)" for ks
        unfolding verify_upload_def s3_list_def by (intro bind_Inl c)
      with Nil show ?thesis by (simp add: upload_directory_def bind_read Let_def)
    next
      case (Cons q qs)
      then have "is_file (disk v) q" using files_under_iff [OF assms(2), of q p] by simp
      with Cons show ?thesis by (simp add: upload_directory_def bind_read Let_def seq_Inl up)
    qed
    with False show ?thesis by (simp add: upload_dataset_def bind_read seq_Inl)
  qed
qed

text \<open>Removing the reserved row again restores the table, less a stale row of the same key.\<close>

lemma reserve_undone:
  assumes "registry_ok g" and "not_ready name version g"
  shows "datasets (delete_dataset_row (next_dataset_id g) (snd (reg_reserve name version path ob n sha src g)))
    = (case dataset_of name version (datasets g) of None \<Rightarrow> datasets g | Some r \<Rightarrow> filter (\<lambda>q. d_id q \<noteq> d_id r) (datasets g))"
  using assms(1)
proof (cases rule: reserve_cases [of g name version path "path_type_text ob" n sha src])
  case (ready r)
  then show ?thesis using assms(2) by (simp add: not_ready_def)
next
  case (pending rows)
  have "\<forall>r \<in> set rows. d_id r \<noteq> next_dataset_id g"
    using pending(4) by (auto simp: datasets_ok_def)
  then have "filter (\<lambda>r. d_id r = next_dataset_id g \<longrightarrow> d_status r \<noteq> ''pending'') rows = rows"
    by (simp add: filter_id_conv)
  then show ?thesis
    unfolding pending(1) [symmetric]
    by (simp add: reg_reserve_def pending(5) delete_dataset_row_def delete_dataset_def pending_row_def)
qed


text \<open>A second reservation of the key removes the first one's pending row.\<close>

lemma overtaken:
  assumes "registry_ok g" and "not_ready name version g"
  shows "let g2 = activate_dataset_row (next_dataset_id g) (snd (reg_reserve name version path2 ob2 n2 sha2 src2
      (snd (reg_reserve name version path ob n sha src g))))
    in (\<forall>row \<in> set (datasets g2). d_id row \<noteq> next_dataset_id g)
      \<and> (\<exists>row. dataset_of name version (datasets g2) = Some row \<and> d_status row = ''pending'')"
proof -
  let ?g1 = "snd (reg_reserve name version path ob n sha src g)" and ?i = "next_dataset_id g"
  have ok: "registry_ok ?g1" using assms(1) by (rule reg_reserve_ok)
  have first: "dataset_of name version (datasets ?g1) = Some (pending_row name version path (path_type_text ob) n sha src ?i)"
    by (rule reserved(2) [OF assms])
  have nx: "next_dataset_id ?g1 \<noteq> ?i"
    using ok dataset_of_SomeD [OF first] by (auto simp: registry_ok_def datasets_ok_def pending_row_def)
  have nr: "not_ready name version ?g1" using first by (simp add: not_ready_def pending_row_def)
  obtain rows where rows: "rows = filter (\<lambda>q. d_id q \<noteq> ?i) (datasets ?g1)" "dataset_of name version rows = None"
      "reg_reserve name version path2 ob2 n2 sha2 src2 ?g1 = (Inr (next_dataset_id ?g1, False),
         ?g1\<lparr>datasets := rows @ [pending_row name version path2 (path_type_text ob2) n2 sha2 src2 (next_dataset_id ?g1)],
           next_dataset_id := next_dataset_id ?g1 + 1\<rparr>)"
    using ok
  proof (cases rule: reserve_cases [of ?g1 name version path2 "path_type_text ob2" n2 sha2 src2])
    case (ready r)
    then show ?thesis using nr by (simp add: not_ready_def)
  next
    case (pending rows)
    then show ?thesis using that [of rows] first by (simp add: reg_reserve_def pending_row_def)
  qed
  have ids: "\<forall>row \<in> set (rows @ [pending_row name version path2 (path_type_text ob2) n2 sha2 src2 (next_dataset_id ?g1)]). d_id row \<noteq> ?i"
    using nx by (simp add: rows(1) pending_row_def)
  then have "sql_update (\<lambda>r. d_id r = ?i) (\<lambda>r. r\<lparr>d_status := ''ready''\<rparr>) (rows @ [pending_row name version path2 (path_type_text ob2) n2 sha2 src2 (next_dataset_id ?g1)])
      = rows @ [pending_row name version path2 (path_type_text ob2) n2 sha2 src2 (next_dataset_id ?g1)]"
    unfolding sql_update_def by (intro map_idI) auto
  then show ?thesis
    using ids rows(2) by (simp add: rows(3) activate_dataset_row_def Let_def dataset_of_def find_append) (simp add: pending_row_def)
qed

text \<open>
  C38: two registrations of the same content at a time: when another run reserves the key while this
  one uploads, it deletes this one's pending row; this one then activates nothing, yet returns its
  id, which is the id of no row, and the content stays pending.
\<close>

theorem concurrent_registration_dangles:
  assumes "sched w = [quiet_slot, \<lparr>others = [RegReserve name version path2 ob2 n2 version src2], signalled = False, fault = NoFault\<rparr>]"
    and "s3_server (s3 R)" and "file_at (disk w) p = Some bytes" and "dataset_check_env env = Inr ()"
    and "version = checksum_file sha (disk w) p" and "registry_ok (reg (sh w))" and "not_ready name version (reg (sh w))"
    and "register_dataset R sha env name p description w = (r, w')"
  shows "\<exists>i. r = Inr i \<and> (\<forall>row \<in> set (datasets (reg (sh w'))). d_id row \<noteq> i)
    \<and> (\<exists>row. dataset_of name version (datasets (reg (sh w'))) = Some row \<and> d_status row = ''pending'')"
proof -
  let ?i = "next_dataset_id (reg (sh w))" and ?g = "reg (sh w)" and ?n = "total_size (disk w) p"
  let ?x = "reserve_op name p description (True, version, ?n)" and ?y = "RegReserve name version path2 ob2 n2 version src2"
  let ?v = "w\<lparr>sched := [\<lparr>others = [?y], signalled = False, fault = NoFault\<rparr>], sh := do_op R ?x (sh w)\<rparr>"
  let ?key = "object_key name version p" and ?bucket = "env_get env ''GARAGE_BUCKET'' []"
  let ?v1 = "?v\<lparr>sched := [], sh := do_ops R [?y, PutObject ?bucket ?key bytes] (sh ?v)\<rparr>"
  have f: "is_file (disk w) p" "node_at (disk w) p \<noteq> None"
    using assms(3) by (auto simp: is_file_def file_at_def split: option.splits)
  then have d: "describe sha p (disk w) = Inr (True, version, ?n)" by (simp add: describe_def assms(5))
  have "s3_upload R p ?bucket ?key ?v = (Inr (), ?v1)"
    using assms(3) by (simp add: s3_upload_def bind_read read_file_def call_in_slot Let_def)
  moreover have "s3_head R ?bucket ?key ?v1 = (Inr (), ?v1)"
    using s3_server.get_put_doc [OF assms(2)] by (simp add: s3_head_def bind_def call_quiet ret_apply)
  ultimately have "upload_file R ?bucket p ?key ?v = (Inr (), ?v1)"
    unfolding upload_file_def by (simp add: seq_def bind_def)
  then have "seq (upload_file R ?bucket p ?key) (ret (?key, True)) ?v = (Inr (?key, True), ?v1)"
    unfolding seq_def bind_def ret_def by simp
  then have "upload_dataset R ?bucket p name version ?v = (Inr (?key, True), ?v1)"
    unfolding upload_dataset_def using f(1) by (simp add: bind_read)
  then have run: "r = Inr ?i \<and> w' = ?v1\<lparr>sh := do_op R (RegActivate ?i) (sh ?v1)\<rparr>"
    using assms(8) unfolding register_reserved [OF assms(1,4) d assms(6,7) refl]
    by (simp add: seq_def bind_def try_except_def perform_quiet ret_apply)
  let ?g1 = "snd (reg_reserve name version ?key True ?n version description ?g)"
  have g: "reg (sh w') = activate_dataset_row ?i (snd (reg_reserve name version path2 ob2 n2 version src2 ?g1))"
    using run by (simp add: reserve_op_def storage_path_def)
  have "r = Inr ?i" using run by simp
  then show ?thesis
    using overtaken [OF assms(6,7), of path2 ob2 n2 version src2 ?key True ?n version description]
    unfolding g Let_def by blast
qed

text \<open>A world with one file to register, and one slot after the reservation.\<close>

definition busy_world :: "slot \<Rightarrow> world" where
  "busy_world sl = (store_world [] [([''data''], File ''x'')])\<lparr>sched := [quiet_slot, sl]\<rparr>"

lemma busy_world_simps [simp]:
  "sched (busy_world sl) = [quiet_slot, sl]" "disk (busy_world sl) = [([''data''], File ''x'')]"
  "objects (sh (busy_world sl)) = []" "datasets (reg (sh (busy_world sl))) = []"
  by (simp_all add: busy_world_def store_registry empty_registry_def)

lemma busy_world_ok: "registry_ok (reg (sh (busy_world sl)))" "not_ready name version (reg (sh (busy_world sl)))"
  "disk_wf (disk (busy_world sl))" "file_at (disk (busy_world sl)) [''data''] = Some ''x''"
  by (simp add: busy_world_def store_registry_ok)
    (simp_all add: not_ready_def dataset_of_def disk_wf_def file_at_def node_at_def plain_def dotdot_def)


theorem concurrent_registration_dangles_witness:
  "\<exists>i w'. register_dataset reference_services (\<lambda>_. ''v1'') (\<lambda>_. Some ''crucible'') ''d'' [''data''] None
      (busy_world \<lparr>others = [RegReserve ''d'' ''v1'' ''p'' True 1 ''v1'' None], signalled = False, fault = NoFault\<rparr>) = (Inr i, w')
    \<and> (\<forall>row \<in> set (datasets (reg (sh w'))). d_id row \<noteq> i)"
proof -
  let ?w = "busy_world \<lparr>others = [RegReserve ''d'' ''v1'' ''p'' True 1 ''v1'' None], signalled = False, fault = NoFault\<rparr>"
  obtain r w' where run: "register_dataset reference_services (\<lambda>_. ''v1'') (\<lambda>_. Some ''crucible'') ''d'' [''data''] None ?w = (r, w')"
    by (metis surj_pair)
  have v: "''v1'' = checksum_file (\<lambda>_. ''v1'') (disk ?w) [''data'']" by (simp add: checksum_file_def)
  from concurrent_registration_dangles [OF busy_world_simps(1) reference_services_s3 busy_world_ok(4) sample_env_ok v busy_world_ok(1,2) run] run
  show ?thesis by blast
qed

end
