(* ===== verification/Scripts.thy ===== *)
theory Scripts imports Command_Line Register_Cases begin

text \<open>
  The registration scripts as commands: \<open>main\<close> of \<open>register_dataset.py\<close> and \<open>register_model.py\<close> from the
  arguments to the exit code, with what is printed on \<open>stdout\<close> and the report of a successful run on
  \<open>stderr\<close> (progress lines and error messages are left out). \<open>locate\<close> is what the operating system makes of
  the path as it was typed (\<open>expanduser\<close> and \<open>resolve\<close>: the home directory, the working directory, links),
  \<open>usage\<close> the help text that \<open>argparse\<close> generates.
\<close>

section \<open>The commands\<close>

definition dataset_options :: "arg_spec list" where
  "dataset_options = [help_option,
     \<lparr>as_names = [''--name''], as_kind = Store, as_required = True\<rparr>,
     \<lparr>as_names = [''--local-path''], as_kind = Store, as_required = True\<rparr>,
     \<lparr>as_names = [''--source-description''], as_kind = Store, as_required = False\<rparr>]"

definition model_options :: "arg_spec list" where
  "model_options = [help_option,
     \<lparr>as_names = [''--repo-id''], as_kind = Store, as_required = True\<rparr>,
     \<lparr>as_names = [''--revision''], as_kind = Store, as_required = False\<rparr>,
     \<lparr>as_names = [''--display-name''], as_kind = Store, as_required = False\<rparr>,
     \<lparr>as_names = [''--set-default''], as_kind = Flag, as_required = False\<rparr>]"

definition arg_value :: "(string \<times> string) list \<Rightarrow> string \<Rightarrow> string" where
  "arg_value vals n = (case map_of vals n of None \<Rightarrow> [] | Some v \<Rightarrow> v)"

text \<open>The exit code of the interpreter; a killed process has none.\<close>

fun exit_code :: "exn \<Rightarrow> int option" where
  "exit_code (SystemExit n) = Some n"
| "exit_code Killed = None"
| "exit_code Blocked = None"
| "exit_code e = Some 1"

record script_result =
  sr_code :: "int option"
  sr_stdout :: string
  sr_report :: string

definition failed_with :: "exn \<Rightarrow> script_result" where
  "failed_with e = \<lparr>sr_code = exit_code e, sr_stdout = [], sr_report = []\<rparr>"

definition stopped_by :: "string \<Rightarrow> exn \<Rightarrow> script_result" where
  "stopped_by usage e = (failed_with e)\<lparr>sr_stdout := (if e = SystemExit 0 then usage else [])\<rparr>"

definition newline :: string where
  "newline = [CHR 0x0A]"

text \<open>\<open>size / 1024 / 1024\<close> with one decimal; the division is exact for the sizes a disk can hold.\<close>

definition size_text :: "int \<Rightarrow> string" where
  "size_text n = (let q = n * 10 div 1048576; r = n * 10 mod 1048576;
       t = (if 2 * r < 1048576 then q else if 1048576 < 2 * r then q + 1 else if even q then q else q + 1)
     in str_int (t div 10) @ ''.'' @ str_int (t mod 10))"

definition dataset_report :: "string \<Rightarrow> string \<Rightarrow> path \<Rightarrow> registered \<Rightarrow> string" where
  "dataset_report bucket name p r =
     (if rg_already r then
        newline @ ''Done (idempotent).'' @ newline @ ''  dataset_id:  '' @ str_int (rg_id r) @ newline
        @ ''  name:        '' @ name @ newline @ ''  version:     '' @ rg_version r @ newline
      else
        newline @ ''Done.'' @ newline @ ''  dataset_id:  '' @ str_int (rg_id r) @ newline
        @ ''  name:        '' @ name @ newline @ ''  version:     '' @ rg_version r @ newline
        @ ''  size:        '' @ size_text (rg_size r) @ '' MB'' @ newline
        @ ''  path_type:   '' @ path_type_text (rg_single r) @ newline
        @ ''  storage:     '' @ bucket @ ''/'' @ storage_path name (rg_version r) p (rg_single r) @ newline)"

definition dataset_cli ::
  "services \<Rightarrow> (string \<Rightarrow> string) \<Rightarrow> (string \<Rightarrow> path) \<Rightarrow> string \<Rightarrow> environ \<Rightarrow> string list \<Rightarrow> world \<Rightarrow> script_result \<times> world" where
  "dataset_cli R sha locate usage env argv w = (case parse_args dataset_options argv of
     Inl e \<Rightarrow> (stopped_by usage e, w)
   | Inr vals \<Rightarrow> (let name = arg_value vals ''--name''; p = locate (arg_value vals ''--local-path'') in
       (case dataset_main R sha env name p (map_of vals ''--source-description'') w of
          (Inl e, w') \<Rightarrow> (failed_with e, w')
        | (Inr r, w') \<Rightarrow> (\<lparr>sr_code = Some 0, sr_stdout = str_int (rg_id r) @ newline,
            sr_report = dataset_report (env_get env ''GARAGE_BUCKET'' []) name p r\<rparr>, w'))))"

definition model_report :: "int \<Rightarrow> string \<Rightarrow> string \<Rightarrow> string \<Rightarrow> int option \<Rightarrow> bool \<Rightarrow> string" where
  "model_report i repo commit display n set_default =
     newline @ ''Done.'' @ newline @ ''  model_id:      '' @ str_int i @ newline
     @ ''  hf_repo_id:    '' @ repo @ newline @ ''  revision:      '' @ commit @ newline
     @ ''  display_name:  '' @ display @ newline
     @ ''  param_count:   '' @ (case n of None \<Rightarrow> ''unknown'' | Some k \<Rightarrow> str_grouped k) @ newline
     @ ''  vram_hint:     '' @ (case vram_hint_for n of None \<Rightarrow> ''unknown'' | Some h \<Rightarrow> h) @ newline
     @ ''  default:       '' @ (if set_default then ''True'' else ''False'') @ newline"

definition size_warning :: "string \<Rightarrow> int option \<Rightarrow> string" where
  "size_warning repo n = (if vram_hint_for n = Some ''unsupported'' then
       ''Warning: '' @ repo @ '' has ~'' @ str_grouped (case n of None \<Rightarrow> 0 | Some k \<Rightarrow> k) @ '' parameters and is flagged ''
       @ [CHR 0x27] @ ''unsupported'' @ [CHR 0x27] @ '' for a single 16GB card. Jobs against it will be rejected by the worker preflight check.'' @ newline
     else [])"

definition model_cli ::
  "services \<Rightarrow> model_info \<Rightarrow> string \<Rightarrow> environ \<Rightarrow> string list \<Rightarrow> world \<Rightarrow> script_result \<times> world" where
  "model_cli R mi usage env argv w = (case parse_args model_options argv of
     Inl e \<Rightarrow> (stopped_by usage e, w)
   | Inr vals \<Rightarrow> (let repo = arg_value vals ''--repo-id''; given = map_of vals ''--display-name'';
         set_default = (map_of vals ''--set-default'' \<noteq> None) in
       (case register_model_main R mi env repo (map_of vals ''--revision'') given set_default w of
          (Inl e, w') \<Rightarrow> (failed_with e, w')
        | (Inr i, w') \<Rightarrow> (\<lparr>sr_code = Some 0, sr_stdout = [], sr_report =
            (case fetch_hf_metadata mi repo (map_of vals ''--revision'') of Inl _ \<Rightarrow> [] | Inr (commit, n) \<Rightarrow>
               size_warning repo n @ model_report i repo commit (display_name_of repo given) n set_default)\<rparr>, w'))))"

section \<open>Running them\<close>

lemma dataset_arguments:
  "parse_args dataset_options [''--name='' @ name, ''--local-path='' @ path] = Inr [(''--local-path'', path), (''--name'', name)]"
proof -
  have "parse_args dataset_options (map given [(''--name'', name), (''--local-path'', path)]) = Inr (rev [(''--name'', name), (''--local-path'', path)])"
    by (rule parse_given) (auto simp: plain_names_def stores_def dataset_options_def help_option_def find_option_def)
  then show ?thesis by (simp add: given_def)
qed

lemma dataset_main_of_register:
  "register_dataset R sha env name p d w = (Inr i, w') \<Longrightarrow> \<exists>r. dataset_main R sha env name p d w = (Inr r, w') \<and> rg_id r = i"
  by (auto simp: register_dataset_def bind_def ret_apply split: prod.splits sum.splits)

lemma dataset_cli_run:
  assumes "register_dataset R sha env name (locate path) None w = (Inr i, w')"
  shows "\<exists>r. dataset_cli R sha locate usage env [''--name='' @ name, ''--local-path='' @ path] w = (r, w')
    \<and> sr_code r = Some 0 \<and> sr_stdout r = str_int i @ newline"
proof -
  obtain r where r: "dataset_main R sha env name (locate path) None w = (Inr r, w')" "rg_id r = i"
    using dataset_main_of_register [OF assms] by blast
  have v: "arg_value [(''--local-path'', path), (''--name'', name)] ''--name'' = name"
    "arg_value [(''--local-path'', path), (''--name'', name)] ''--local-path'' = path"
    "map_of [(''--local-path'', path), (''--name'', name)] ''--source-description'' = None"
    by (simp_all add: arg_value_def)
  show ?thesis
    unfolding dataset_cli_def dataset_arguments Let_def v sum.case r(1) prod.case by (simp add: r(2))
qed

text \<open>A command line that does not parse changes nothing, and a failure prints nothing on \<open>stdout\<close>.\<close>

lemma dataset_cli_usage:
  assumes "parse_args dataset_options argv = Inl e"
  shows "snd (dataset_cli R sha locate usage env argv w) = w
    \<and> sr_code (fst (dataset_cli R sha locate usage env argv w)) \<in> {Some 0, Some 2}"
  using parse_args_error [OF assms] by (auto simp: dataset_cli_def assms stopped_by_def failed_with_def)

lemma dataset_cli_failure:
  "sr_code (fst (dataset_cli R sha locate usage env argv w)) \<noteq> Some 0 \<Longrightarrow>
     sr_stdout (fst (dataset_cli R sha locate usage env argv w)) = []"
  by (auto simp: dataset_cli_def stopped_by_def failed_with_def Let_def split: sum.splits prod.splits)



end
