(* ===== verification/Smoke_Test.thy ===== *)
theory Smoke_Test imports Trainer begin

text \<open>
  \<open>worker/scripts/qlora_smoke_test.py\<close>: the gate a GPU machine has to pass. Its calls into the
  training libraries differ from the trainer's in their arguments, so they are a parameter of their
  own, \<open>smoke_stack\<close>. The result is the exit code; what is printed is left out.
\<close>

definition SMOKE_MODEL :: string where
  "SMOKE_MODEL = ''unsloth/tinyllama-bnb-4bit''"

definition MAX_SEQ_LENGTH :: int where
  "MAX_SEQ_LENGTH = 512"

record smoke_peft =
  sp_r :: int
  sp_lora_alpha :: int
  sp_target_modules :: "string list"
  sp_use_gradient_checkpointing :: string
  sp_random_state :: int
  sp_max_seq_length :: int

record smoke_sft =
  ss_dataset_text_field :: string
  ss_max_seq_length :: int
  ss_per_device_train_batch_size :: int
  ss_gradient_accumulation_steps :: int
  ss_max_steps :: int
  ss_learning_rate :: json
  ss_logging_steps :: int
  ss_optim :: string
  ss_bf16 :: bool
  ss_seed :: int
  ss_output_dir :: string
  ss_save_strategy :: string
  ss_report_to :: string
  ss_dataset_num_proc :: int

record ('ds, 'm, 't, 'tr) smoke_stack =
  k_cuda_available :: bool
  k_from_pretrained :: "string \<Rightarrow> int \<Rightarrow> bool \<Rightarrow> disk \<Rightarrow> exn + 'm \<times> 't"
  k_get_peft_model :: "'m \<Rightarrow> smoke_peft \<Rightarrow> exn + 'm"
  k_from_dict :: "(string \<times> string list) list \<Rightarrow> exn + 'ds"
  k_sft_trainer :: "'m \<Rightarrow> 't \<Rightarrow> 'ds \<Rightarrow> smoke_sft \<Rightarrow> disk \<Rightarrow> exn + 'tr"
  k_train :: "'tr \<Rightarrow> disk \<Rightarrow> (exn + 'm) \<times> disk"
  k_save_model :: "'m \<Rightarrow> path \<Rightarrow> disk \<Rightarrow> exn + disk"

definition smoke_peft_args :: smoke_peft where
  "smoke_peft_args = \<lparr>sp_r = 8, sp_lora_alpha = 16, sp_target_modules = [''q_proj'', ''k_proj'', ''v_proj'', ''o_proj''],
     sp_use_gradient_checkpointing = ''unsloth'', sp_random_state = 3407, sp_max_seq_length = MAX_SEQ_LENGTH\<rparr>"

text \<open>The double \<open>2e-4\<close> is \<open>7378697629483821 / 2 ^ 65\<close>.\<close>

definition smoke_sft_args :: "path \<Rightarrow> smoke_sft" where
  "smoke_sft_args out = \<lparr>ss_dataset_text_field = ''text'', ss_max_seq_length = MAX_SEQ_LENGTH,
     ss_per_device_train_batch_size = 2, ss_gradient_accumulation_steps = 1, ss_max_steps = 3,
     ss_learning_rate = JFloat 7378697629483821 (- 65), ss_logging_steps = 1, ss_optim = ''adamw_8bit'', ss_bf16 = True,
     ss_seed = 3407, ss_output_dir = path_text out, ss_save_strategy = ''no'', ss_report_to = ''none'',
     ss_dataset_num_proc = 1\<rparr>"

definition smoke_dataset :: "(string \<times> string list) list" where
  "smoke_dataset = [(''text'', map (\<lambda>i. ''Smoke test example number '' @ str_int (int i) @ ''.'') [0..<16])]"

text \<open>\<open>list(dir.glob("adapter_model.*"))\<close>: the entries of the directory with such a name.\<close>

definition adapter_weights :: "path \<Rightarrow> disk \<Rightarrow> path list" where
  "adapter_weights dir d =
     filter (\<lambda>p. p \<noteq> [] \<and> butlast p = resolve dir \<and> starts_with ''adapter_model.'' (last p)) (map fst d)"

definition smoke_train :: "('ds, 'm, 't, 'tr) smoke_stack \<Rightarrow> 'tr \<Rightarrow> (world, exn, 'm) prog" where
  "smoke_train k tr = bind (local_read (\<lambda>d. Inr (k_train k tr d))) (\<lambda>(outcome, d).
     seq (local_op (\<lambda>_. Inr d)) (lift_sum outcome))"

definition smoke_main :: "('ds, 'm, 't, 'tr) smoke_stack \<Rightarrow> tmp_namer \<Rightarrow> (world, exn, int) prog" where
  "smoke_main k tmp =
     (if \<not> k_cuda_available k then ret 1
      else bind (local_read (k_from_pretrained k SMOKE_MODEL MAX_SEQ_LENGTH True)) (\<lambda>(model, tokenizer).
        bind (lift_sum (k_get_peft_model k model smoke_peft_args)) (\<lambda>model.
        bind (lift_sum (k_from_dict k smoke_dataset)) (\<lambda>dataset.
        with_tmp tmp ''tmp'' (\<lambda>out.
          bind (local_read (k_sft_trainer k model tokenizer dataset (smoke_sft_args out))) (\<lambda>tr.
          bind (smoke_train k tr) (\<lambda>model.
          seq (local_op (k_save_model k model (out @ [''adapter''])))
         (bind (local_read (\<lambda>d. Inr (adapter_weights (out @ [''adapter'']) d))) (\<lambda>weights.
            if weights = [] then ret 1 else ret 0)))))))))"

section \<open>What passing means\<close>

lemma smoke_keeps:
  assumes "state_preorder P" and "ignores_disk P"
  shows "keeps P (smoke_main k tmp)"
proof -
  have r: "P w w" for w using state_preorder.R_refl [OF assms(1)] .
  note rules = state_preorder.resp_rules [OF assms(1)] keeps_local_read keeps_local_op keeps_with_tmp assms(2) r
  have c: "keeps P (if b then ret x else ret y)" for b and x y :: int
    by (simp add: state_preorder.resp_ret [OF assms(1)])
  show ?thesis
    unfolding smoke_main_def smoke_train_def split_def
    by (cases "k_cuda_available k") (simp_all add: c, (intro rules c)+)
qed

text \<open>
  The test runs on the machine alone: the shared state is untouched. It passes only when the
  adapter's weights were on the disk, and the temporary directory is gone again.
\<close>

lemma smoke_passes:
  assumes "smoke_main k tmp w = (Inr 0, w')" and "dir = tmp ''tmp'' (disk w)"
  shows "k_cuda_available k \<and> sh w' = sh w
    \<and> (\<exists>d. adapter_weights (dir @ [''adapter'']) d \<noteq> [] \<and> disk w' = remove_tree dir d)"
proof -
  have "sh w' = sh w"
    using keepsD [OF smoke_keeps [of "\<lambda>v w. sh v = sh w" k tmp], of w] assms(1)
    by (simp add: ignores_disk_def state_preorder_def)
  moreover have c: "k_cuda_available k" using assms(1) by (auto simp: smoke_main_def ret_apply split: if_splits)
  moreover have "\<exists>d. adapter_weights (dir @ [''adapter'']) d \<noteq> [] \<and> disk w' = remove_tree dir d"
  proof -
    let ?body = "\<lambda>model tokenizer dataset out.
          bind (local_read (k_sft_trainer k model tokenizer dataset (smoke_sft_args out))) (\<lambda>tr.
          bind (smoke_train k tr) (\<lambda>model.
          seq (local_op (k_save_model k model (out @ [''adapter''])))
         (bind (local_read (\<lambda>d. Inr (adapter_weights (out @ [''adapter'']) d))) (\<lambda>weights.
            if weights = [] then ret (1 :: int) else ret 0))))"
    have body: "adapter_weights (out @ [''adapter'']) (disk v') \<noteq> []" if "?body m t ds out v = (Inr 0, v')" for m t ds out v v'
      using that by (elim bind_InrE seq_InrE) (auto simp: local_read_def ret_apply split: if_splits)
    obtain m t ds where "with_tmp tmp ''tmp'' (?body m t ds) w = (Inr 0, w')"
      using assms(1) c unfolding smoke_main_def
      by (auto simp: local_read_def lift_sum_apply split: prod.splits elim!: bind_InrE)
    then obtain v' where "?body m t ds dir (w\<lparr>disk := set_node dir Dir (disk w)\<rparr>) = (Inr 0, v')" "disk w' = remove_tree dir (disk v')"
      using assms(2) by (auto simp: with_tmp_def Let_def process_gone_def split: prod.splits if_splits)
    then show ?thesis using body by blast
  qed
  ultimately show ?thesis by blast
qed

end
