(* ===== verification/Backend_Http.thy ===== *)
theory Backend_Http imports Reconciler_Props begin

text \<open>
  The handlers of \<open>backend/internal/handler/jobs.go\<close> that change the shared state: \<open>CreateJob\<close> with
  \<open>validateCreateJob\<close> (\<open>validate.go\<close>), and \<open>UpdateJob\<close> with its cancel action, from the decoded
  request to the response. A Go error is a value: \<open>attempt\<close> turns a failing call into one. An \<open>int\<close>
  of Go has 64 bits; a \<open>float64\<close> is kept exactly, as mantissa and binary exponent. The id Postgres
  generates for a new row is a parameter.
\<close>

section \<open>The request\<close>

type_synonym float64 = "int \<times> int"

record create_request =
  cr_base_model :: string
  cr_dataset_path :: string
  cr_learning_rate :: float64
  cr_epochs :: "64 word"
  cr_batch_size :: "64 word"
  cr_lora_rank :: "64 word"
  cr_lora_alpha :: float64

definition float_positive :: "float64 \<Rightarrow> bool" where
  "float_positive x \<longleftrightarrow> 0 < fst x"

definition float_above_one :: "float64 \<Rightarrow> bool" where
  "float_above_one x =
     (if 0 \<le> snd x then 1 < fst x * 2 ^ nat (snd x) else 2 ^ nat (- snd x) < fst x)"

text \<open>\<open>strings.TrimSpace(s) == ""\<close>: white space of Unicode within Latin-1.\<close>

definition go_space :: "char \<Rightarrow> bool" where
  "go_space c \<longleftrightarrow> c \<in> {CHR 0x09, CHR 0x0A, CHR 0x0B, CHR 0x0C, CHR 0x0D, CHR '' '', CHR 0x85, CHR 0xA0}"

definition blank :: "string \<Rightarrow> bool" where
  "blank s \<longleftrightarrow> list_all go_space s"

definition request_errors :: "create_request \<Rightarrow> string list" where
  "request_errors req =
     (if blank (cr_base_model req) then [''base_model is required''] else [])
   @ (if blank (cr_dataset_path req) then [''dataset_path is required''] else [])
   @ (if \<not> float_positive (cr_learning_rate req) \<or> float_above_one (cr_learning_rate req)
      then [''learning_rate must be in (0, 1]''] else [])
   @ (if sint (cr_epochs req) \<le> 0 then [''epochs must be > 0''] else [])
   @ (if sint (cr_batch_size req) \<le> 0 then [''batch_size must be > 0''] else [])
   @ (if sint (cr_lora_rank req) \<le> 0 then [''lora_rank must be > 0''] else [])
   @ (if \<not> float_positive (cr_lora_alpha req) then [''lora_alpha must be > 0''] else [])"

definition validate_create_job :: "create_request \<Rightarrow> string option" where
  "validate_create_job req =
     (if request_errors req \<noteq> [] then Some (join ''; '' (request_errors req)) else None)"

text \<open>
  What \<open>json.Marshal\<close> and the JSONB column make of the hyperparameters: a number without a
  fraction comes back as an integer.
\<close>

definition json_of_float :: "float64 \<Rightarrow> json" where
  "json_of_float x =
     (if 0 \<le> snd x then JInt (fst x * 2 ^ nat (snd x))
      else if fst x mod 2 ^ nat (- snd x) = 0 then JInt (fst x div 2 ^ nat (- snd x))
      else JFloat (fst x) (snd x))"

definition marshal_hyperparameters :: "create_request \<Rightarrow> json" where
  "marshal_hyperparameters req = JObj
     [(''learning_rate'', json_of_float (cr_learning_rate req)), (''epochs'', JInt (sint (cr_epochs req))),
      (''batch_size'', JInt (sint (cr_batch_size req))), (''lora_rank'', JInt (sint (cr_lora_rank req))),
      (''lora_alpha'', json_of_float (cr_lora_alpha req))]"

text \<open>
  \<open>toSchema\<close>: the row as \<open>schema.Job\<close>. \<open>json.Unmarshal\<close> into \<open>schema.Hyperparameters\<close> takes an object or
  null, matches keys without regard to case, ignores unknown keys and leaves a field of value null
  alone; an integer field refuses a number with a fraction or beyond 64 bits, a float field one
  that rounds to infinity, and both refuse everything that is not a number.
\<close>

definition int64_ok :: "json \<Rightarrow> bool" where
  "int64_ok v = (case v of
     JNull \<Rightarrow> True
   | JInt n \<Rightarrow> - (2 ^ 63) \<le> n \<and> n < 2 ^ 63
   | _ \<Rightarrow> False)"

definition float64_limit :: int where
  "float64_limit = 2 ^ 1024 - 2 ^ 970"

definition float64_ok :: "json \<Rightarrow> bool" where
  "float64_ok v = (case v of
     JNull \<Rightarrow> True
   | JInt n \<Rightarrow> \<bar>n\<bar> < float64_limit
   | JFloat n e \<Rightarrow> if 0 \<le> e then \<bar>n\<bar> * 2 ^ nat e < float64_limit else \<bar>n\<bar> < float64_limit * 2 ^ nat (- e)
   | _ \<Rightarrow> False)"

definition field_ok :: "string \<times> json \<Rightarrow> bool" where
  "field_ok kv = (let k = lower (fst kv) in
     if k \<in> {''learning_rate'', ''lora_alpha''} then float64_ok (snd kv)
     else if k \<in> {''epochs'', ''batch_size'', ''lora_rank''} then int64_ok (snd kv) else True)"

definition unmarshal_ok :: "json \<Rightarrow> bool" where
  "unmarshal_ok v = (case v of JNull \<Rightarrow> True | JObj kvs \<Rightarrow> list_all field_ok kvs | _ \<Rightarrow> False)"

definition to_schema :: "job_row \<Rightarrow> exn + job_row" where
  "to_schema r =
     (if unmarshal_ok (r_hyperparameters r) then Inr r else Inl (ValueError ''unmarshal hyperparameters''))"

section \<open>The handlers\<close>

text \<open>A response has data of some type or an error envelope, each with its HTTP status.\<close>

datatype 'a response = DataResponse int 'a | ErrorResponse int string string

definition attempt :: "(world, exn, 'a) prog \<Rightarrow> (world, exn, exn + 'a) prog" where
  "attempt m = try_except (bind m (\<lambda>x. ret (Inr x))) is_exception (\<lambda>e. ret (Inl e))"

text \<open>\<open>JobStore.Create\<close> as a call, with the row it returns; the primary key may refuse the id.\<close>

definition call_create :: "services \<Rightarrow> uuid \<Rightarrow> create_request \<Rightarrow> (world, exn, job_row) prog" where
  "call_create R i req =
     bind (call R DriverError (\<lambda>s.
       (if i \<in> set (map r_id (jobs s)) then Inl (unique_violation ''jobs_pkey'')
        else Inr (the (job_at i (store_create (clock s) i (cr_base_model req) (cr_dataset_path req)
          (marshal_hyperparameters req) (jobs s)))),
        do_op R (BackendCreate i (cr_base_model req) (cr_dataset_path req) (marshal_hyperparameters req)) s)))
     lift_sum"

definition create_job :: "services \<Rightarrow> uuid \<Rightarrow> create_request \<Rightarrow> (world, exn, job_row response) prog" where
  "create_job R i req = (case validate_create_job req of
     Some msg \<Rightarrow> ret (ErrorResponse 422 ''INVALID_REQUEST'' msg)
   | None \<Rightarrow> bind (attempt (call_create R i req)) (\<lambda>created. case created of
       Inl _ \<Rightarrow> ret (ErrorResponse 500 ''INTERNAL_SERVER_ERROR'' ''failed to create job'')
     | Inr row \<Rightarrow> bind (attempt (perform R (BackendEnqueue i))) (\<lambda>enqueued. case enqueued of
         Inl e \<Rightarrow> seq (attempt (perform R (BackendEnqueueFailed i (''enqueue job '' @ uuid_str i @ '': '' @ exn_str e))))
                   (ret (ErrorResponse 500 ''INTERNAL_SERVER_ERROR'' ''job created but could not be enqueued''))
       | Inr _ \<Rightarrow> ret (DataResponse 201 row))))"

text \<open>
  \<open>JobStore.Update\<close> to cancelled, as a call that returns the updated row. The row is converted only
  when the transaction has been committed.
\<close>

definition call_cancel :: "services \<Rightarrow> uuid \<Rightarrow> (world, exn, store_error + job_row) prog" where
  "call_cancel R i = bind (call R DriverError (\<lambda>s.
     (case store_update (clock s) i CANCELLED None None (jobs s) of
        Inl e \<Rightarrow> Inr (Inl e)
      | Inr rows \<Rightarrow> (case to_schema (the (job_at i rows)) of Inl e \<Rightarrow> Inl e | Inr row \<Rightarrow> Inr (Inr row)),
      do_op R (BackendCancel i) s))) lift_sum"

definition transition_text :: "job_status \<Rightarrow> job_status \<Rightarrow> string" where
  "transition_text from to = ''invalid status transition: '' @ status_value from @ '' -> '' @ status_value to"

definition cancel_job :: "services \<Rightarrow> uuid \<Rightarrow> (world, exn, job_row response) prog" where
  "cancel_job R i = bind (attempt (call_cancel R i)) (\<lambda>res. case res of
     Inl _ \<Rightarrow> ret (ErrorResponse 500 ''INTERNAL_SERVER_ERROR'' ''failed to cancel job'')
   | Inr (Inl JobNotFound) \<Rightarrow> ret (ErrorResponse 404 ''JOB_NOT_FOUND'' ''job not found'')
   | Inr (Inl (InvalidTransition a b)) \<Rightarrow> ret (ErrorResponse 409 ''INVALID_REQUEST'' (transition_text a b))
   | Inr (Inr row) \<Rightarrow> seq (attempt (perform R (BackendDequeue i))) (ret (DataResponse 200 row)))"

section \<open>On every outcome\<close>

context guarantee begin

lemma resp_attempt: "keeps (\<lambda>v w. G (sh v) (sh w)) m \<Longrightarrow> keeps (\<lambda>v w. G (sh v) (sh w)) (attempt m)"
  unfolding attempt_def by (intro prog_rules)

lemma resp_step: "keeps (\<lambda>v w. G (sh v) (sh w)) (call R mk (\<lambda>s. (f s, do_op R x s)))"
  by (rule resp_call) (simp add: G_op del: do_op.simps)

lemma resp_create_job: "keeps (\<lambda>v w. G (sh v) (sh w)) (create_job R i req)"
proof -
  have c: "keeps (\<lambda>v w. G (sh v) (sh w)) (call_create R i req)"
    unfolding call_create_def by (intro prog_rules resp_step)
  have o: "keeps (\<lambda>v w. G (sh v) (sh w)) (case x of Inl e \<Rightarrow> f e | Inr y \<Rightarrow> g y)"
    if "\<And>e. keeps (\<lambda>v w. G (sh v) (sh w)) (f e)" "\<And>y. keeps (\<lambda>v w. G (sh v) (sh w)) (g y)" for x :: "'x + 'y" and f g
    using that by (cases x) simp_all
  show ?thesis
    unfolding create_job_def
    by (cases "validate_create_job req") (auto intro!: prog_rules resp_attempt c o resp_perform)
qed

lemma resp_cancel_job: "keeps (\<lambda>v w. G (sh v) (sh w)) (cancel_job R i)"
  unfolding cancel_job_def call_cancel_def
  by (intro prog_rules resp_attempt resp_step)
    (auto split: sum.split store_error.split intro!: prog_rules resp_attempt resp_perform)

end

section \<open>From the request to the worker\<close>

lemma attempt_Inr: "m w = (Inr x, w') \<Longrightarrow> attempt m w = (Inr (Inr x), w')"
  by (simp add: attempt_def bind_Inr ret_apply try_Inr)

lemma attempt_Inl: "m w = (Inl e, w') \<Longrightarrow> is_exception e \<Longrightarrow> attempt m w = (Inr (Inl e), w')"
  by (simp add: attempt_def try_Inl bind_Inl ret_apply)

definition created_row :: "uuid \<Rightarrow> create_request \<Rightarrow> int \<Rightarrow> job_row" where
  "created_row i req now = \<lparr>r_id = i, r_status = QUEUED, r_base_model = cr_base_model req,
     r_dataset_path = cr_dataset_path req, r_hyperparameters = marshal_hyperparameters req,
     r_checkpoint_path = None, r_error_message = None, r_created_at = now, r_updated_at = now\<rparr>"

lemma job_at_fresh: "i \<notin> set (map r_id rows) \<Longrightarrow> job_at i rows = None"
  by (auto simp: job_at_def find_None_iff)

lemma created_job_at:
  "i \<notin> set (map r_id rows) \<Longrightarrow> job_at i (store_create now i (cr_base_model req) (cr_dataset_path req)
     (marshal_hyperparameters req) rows) = Some (created_row i req now)"
  by (simp add: store_create_def job_at_append job_at_fresh) (simp add: job_at_def created_row_def)

lemma create_ids:
  "i \<notin> set (map r_id rows) \<Longrightarrow> distinct (map r_id rows) \<Longrightarrow> distinct (map r_id (store_create now i m p hp rows))"
  by (simp add: store_create_def)

lemma created_row_decodes:
  "\<exists>j. row_to_job (created_row i req now) = Inr j \<and> job_state j = QUEUED \<and> job_id j = i
     \<and> base_model j = cr_base_model req \<and> dataset_path j = cr_dataset_path req
     \<and> hyperparams j = \<lparr>learning_rate = json_of_float (cr_learning_rate req), epochs = JInt (sint (cr_epochs req)),
         batch_size = JInt (sint (cr_batch_size req)), lora_rank = JInt (sint (cr_lora_rank req)),
         lora_alpha = json_of_float (cr_lora_alpha req)\<rparr>"
  by (simp add: row_to_job_def created_row_def marshal_hyperparameters_def Let_def del: status_value.simps)

lemma create_quiet:
  assumes "i \<notin> set (map r_id (jobs (sh w)))" and "interfere R w = w\<lparr>sched := sls\<rparr>" and "fault (next_slot w) = NoFault"
  shows "attempt (call_create R i req) w = (Inr (Inr (created_row i req (clock (sh w)))),
    w\<lparr>sched := sls, sh := do_op R (BackendCreate i (cr_base_model req) (cr_dataset_path req) (marshal_hyperparameters req)) (sh w)\<rparr>)"
  by (rule attempt_Inr)
    (use assms(1) in \<open>simp add: call_create_def bind_def call_def assms(2,3) lift_sum_apply created_job_at\<close>)

definition create_ops :: "uuid \<Rightarrow> create_request \<Rightarrow> op list" where
  "create_ops i req = [BackendCreate i (cr_base_model req) (cr_dataset_path req) (marshal_hyperparameters req), BackendEnqueue i]"

lemma create_job_quiet:
  assumes "sched w = []" and "validate_create_job req = None" and "i \<notin> set (map r_id (jobs (sh w)))"
  shows "create_job R i req w = (Inr (DataResponse 201 (created_row i req (clock (sh w)))), after R (create_ops i req) w)"
    and "job_at i (jobs (sh (after R (create_ops i req) w))) = Some (created_row i req (clock (sh w)))"
proof -
  let ?x = "BackendCreate i (cr_base_model req) (cr_dataset_path req) (marshal_hyperparameters req)"
  let ?w = "w\<lparr>sched := [], sh := do_op R ?x (sh w)\<rparr>"
  have c: "attempt (call_create R i req) w = (Inr (Inr (created_row i req (clock (sh w)))), ?w)"
    by (rule create_quiet [OF assms(3)]) (use assms(1) in \<open>simp_all add: interfere_def next_slot_def\<close>)
  have e: "attempt (perform R (BackendEnqueue i)) ?w = (Inr (Inr ()), after R (create_ops i req) w)"
    by (rule attempt_Inr) (use assms(1) in \<open>simp add: quiet_perform after_def create_ops_def del: do_op.simps\<close>)
  show "create_job R i req w = (Inr (DataResponse 201 (created_row i req (clock (sh w)))), after R (create_ops i req) w)"
    unfolding create_job_def by (simp add: assms(2) bind_def c e ret_apply del: do_op.simps)
  show "job_at i (jobs (sh (after R (create_ops i req) w))) = Some (created_row i req (clock (sh w)))"
    using assms(3) by (simp add: create_ops_def created_job_at)
qed

lemma create_ops_lists:
  "redis_server R \<Longrightarrow> rlists (rd (do_ops R (create_ops i req) s)) =
     (rlists (rd s))(QUEUE_KEY := uuid_str i # rlists (rd s) QUEUE_KEY)"
  by (simp add: create_ops_def fun_eq_iff redis_server.enqueue_lists)


lemma sample_row_ok: "unmarshal_ok (r_hyperparameters (sample_row i st p))"
  by (simp add: sample_row_def sample_hp_def unmarshal_ok_def field_ok_def Let_def lower_def lower_char_def
      ord_of_def float64_ok_def int64_ok_def float64_limit_def)

definition sample_request :: create_request where
  "sample_request = \<lparr>cr_base_model = ''org/model'', cr_dataset_path = ''ds/a.csv'', cr_learning_rate = (1, - 12),
     cr_epochs = 3, cr_batch_size = 4, cr_lora_rank = 8, cr_lora_alpha = (16, 0)\<rparr>"

lemma sample_request_valid: "validate_create_job sample_request = None"
  by (simp add: validate_create_job_def request_errors_def sample_request_def blank_def go_space_def
      float_positive_def float_above_one_def)


section \<open>Cancelling without interference\<close>

lemma cancel_quiet:
  assumes "sched w = []" and "job_at i (jobs (sh w)) = Some r" and "r_status r \<in> {QUEUED, RUNNING}"
    and "unmarshal_ok (r_hyperparameters r)"
  defines "row \<equiv> r\<lparr>r_status := CANCELLED, r_updated_at := clock (sh w)\<rparr>"
  shows "cancel_job R i w = (Inr (DataResponse 200 row), after R [BackendCancel i, BackendDequeue i] w)"
    and "job_at i (jobs (sh (after R [BackendCancel i, BackendDequeue i] w))) = Some row"
proof -
  obtain rows where rows: "store_update (clock (sh w)) i CANCELLED None None (jobs (sh w)) = Inr rows"
    using assms(2,3) by (auto simp: store_update_def validate_transition_def valid_transitions_def)
  have at: "job_at i rows = Some row"
    using job_at_store_update [OF rows] assms(2) job_at_id [OF assms(2)] by (simp add: row_def coalesce_def)
  have c: "attempt (call_cancel R i) w = (Inr (Inr (Inr row)), after R [BackendCancel i] w)"
    by (rule attempt_Inr) (use assms(1,4) rows at in \<open>simp add: call_cancel_def bind_def call_quiet lift_sum_apply to_schema_def row_def after_def del: do_op.simps\<close>)
  have d: "attempt (perform R (BackendDequeue i)) (after R [BackendCancel i] w) = (Inr (Inr ()), after R [BackendCancel i, BackendDequeue i] w)"
    by (rule attempt_Inr) (use assms(1) in \<open>simp add: quiet_perform del: do_op.simps\<close>)
  show "cancel_job R i w = (Inr (DataResponse 200 row), after R [BackendCancel i, BackendDequeue i] w)"
    by (simp add: cancel_job_def bind_def seq_def c d ret_apply del: do_op.simps)
  show "job_at i (jobs (sh (after R [BackendCancel i, BackendDequeue i] w))) = Some row"
    using rows at by (simp add: backend_cancel_def after_update_def)
qed

section \<open>When the enqueue fails\<close>



end
