(* ===== verification/Go_Time.thy ===== *)
theory Go_Time imports Status begin

text \<open>
  \<open>time.Parse(time.RFC3339, raw)\<close> of Go's standard library, as \<open>backend/internal/queue/redis.go\<close> uses it
  to read the time stamp that \<open>crucible_worker/status.py\<close> writes: a year of four digits, two digits for
  the month, the day, the minute and the second, one or two for the hour, an optional fraction, and
  \<open>Z\<close> or an offset. A \<open>time.Time\<close> is an instant in nanoseconds since 1970. The theorem is the round
  trip between the two languages: the backend reads back the second the worker wrote.
\<close>

section \<open>The parser\<close>

definition go_digit :: "char \<Rightarrow> bool" where
  "go_digit c \<longleftrightarrow> 48 \<le> ord_of c \<and> ord_of c \<le> 57"

definition digit_of :: "char \<Rightarrow> int" where
  "digit_of c = int (ord_of c) - 48"

definition digits_val :: "string \<Rightarrow> int" where
  "digits_val s = foldl (\<lambda>n c. 10 * n + digit_of c) 0 s"

fun getnum :: "bool \<Rightarrow> string \<Rightarrow> (int \<times> string) option" where
  "getnum fixed [] = None"
| "getnum fixed [a] = (if go_digit a \<and> \<not> fixed then Some (digit_of a, []) else None)"
| "getnum fixed (a # b # r) =
     (if \<not> go_digit a then None
      else if go_digit b then Some (digit_of a * 10 + digit_of b, r)
      else if fixed then None else Some (digit_of a, b # r))"

definition get_year :: "string \<Rightarrow> (int \<times> string) option" where
  "get_year s =
     (if length s < 4 \<or> \<not> list_all go_digit (take 4 s) then None
      else Some (digits_val (take 4 s), drop 4 s))"

text \<open>A field after the layout's literal character, within its range.\<close>

definition get_field :: "char \<Rightarrow> bool \<Rightarrow> int \<Rightarrow> int \<Rightarrow> string \<Rightarrow> (int \<times> string) option" where
  "get_field c fixed lo hi s = (case s of
     [] \<Rightarrow> None
   | x # r \<Rightarrow> if x \<noteq> c then None
       else case getnum fixed r of
         None \<Rightarrow> None
       | Some (n, r') \<Rightarrow> if lo \<le> n \<and> n \<le> hi then Some (n, r') else None)"

text \<open>\<open>parseNanoseconds\<close>: digits after the ninth are dropped.\<close>

definition nanos :: "string \<Rightarrow> int" where
  "nanos ds = (let d = take 9 ds in digits_val d * 10 ^ (9 - length d))"

definition get_fraction :: "string \<Rightarrow> int \<times> string" where
  "get_fraction s = (case s of
     c # d # r \<Rightarrow> if c \<in> {CHR ''.'', CHR '',''} \<and> go_digit d
       then (nanos (takeWhile go_digit (d # r)), dropWhile go_digit (d # r)) else (0, s)
   | _ \<Rightarrow> (0, s))"

text \<open>\<open>Z07:00\<close>; hours up to 24 and minutes up to 60 are let through.\<close>

definition get_offset :: "string \<Rightarrow> (int \<times> string) option" where
  "get_offset s = (case s of
     [] \<Rightarrow> None
   | z # r \<Rightarrow> if z = CHR ''Z'' then Some (0, r)
       else if length s < 6 \<or> s ! 3 \<noteq> CHR '':'' then None
       else case (getnum True (take 2 r), getnum True (take 2 (drop 3 r))) of
         (Some (h, _), Some (m, _)) \<Rightarrow>
           if 24 < h \<or> 60 < m then None
           else if z = CHR ''+'' then Some ((h * 60 + m) * 60, drop 5 r)
           else if z = CHR ''-'' then Some (- ((h * 60 + m) * 60), drop 5 r)
           else None
       | _ \<Rightarrow> None)"

definition leap_year :: "int \<Rightarrow> bool" where
  "leap_year y \<longleftrightarrow> y mod 4 = 0 \<and> (y mod 100 \<noteq> 0 \<or> y mod 400 = 0)"

definition days_in_month :: "int \<Rightarrow> int \<Rightarrow> int" where
  "days_in_month m y =
     (if m = 2 then if leap_year y then 29 else 28
      else if m \<in> {4, 6, 9, 11} then 30 else 31)"

text \<open>Days since 1970-01-01, as \<open>Date\<close> counts them: years of 365 days, leap days, months from March.\<close>

definition days_from_civil :: "int \<Rightarrow> int \<Rightarrow> int \<Rightarrow> int" where
  "days_from_civil y m d =
     (let y' = (if m \<le> 2 then y - 1 else y);
          doy = (153 * (if m > 2 then m - 3 else m + 9) + 2) div 5 + d - 1
      in 365 * y' + y' div 4 - y' div 100 + y' div 400 + doy - 719468)"

definition parse_rfc3339 :: "string \<Rightarrow> int option" where
  "parse_rfc3339 s =
     Option.bind (get_year s) (\<lambda>(y, s).
     Option.bind (get_field (CHR ''-'') True 1 12 s) (\<lambda>(m, s).
     Option.bind (get_field (CHR ''-'') True 1 (days_in_month m y) s) (\<lambda>(d, s).
     Option.bind (get_field (CHR ''T'') False 0 23 s) (\<lambda>(hh, s).
     Option.bind (get_field (CHR '':'') True 0 59 s) (\<lambda>(mm, s).
     Option.bind (get_field (CHR '':'') True 0 59 s) (\<lambda>(ss, s).
     let (ns, s) = get_fraction s in
     Option.bind (get_offset s) (\<lambda>(off, s).
     if s \<noteq> [] then None
     else Some ((days_from_civil y m d * 86400 + hh * 3600 + mm * 60 + ss - off) * 1000000000 + ns))))))))"

section \<open>The calendar\<close>

text \<open>
  Within one 400-year era: \<open>era_start y\<close> is the first day (1 March) of year \<open>y\<close>, \<open>era_year\<close> the formula
  that \<open>civil_from_days\<close> finds the year with. The formula is monotone and right at both ends of each of
  the 400 years, so it is right in between.
\<close>

definition era_start :: "int \<Rightarrow> int" where
  "era_start y = 365 * y + y div 4 - y div 100 + y div 400"

definition era_year :: "int \<Rightarrow> int" where
  "era_year doe = (doe - doe div 1460 + doe div 36524 - doe div 146096) div 365"

definition era_end_ok :: "int \<Rightarrow> bool" where
  "era_end_ok y \<longleftrightarrow> era_year (era_start y) = y \<and> era_year (era_start (y + 1) - 1) = y
     \<and> era_start (y + 1) - era_start y = (if leap_year (y + 1) then 366 else 365)"

lemma era_table_1: "list_all era_end_ok [0..99]"
  by code_simp

lemma era_table_2: "list_all era_end_ok [100..199]"
  by code_simp

lemma era_table_3: "list_all era_end_ok [200..299]"
  by code_simp

lemma era_table_4: "list_all era_end_ok [300..399]"
  by code_simp

lemma era_ends:
  assumes "0 \<le> y" and "y \<le> 399"
  shows "era_year (era_start y) = y" and "era_year (era_start (y + 1) - 1) = y"
    and "era_start (y + 1) - era_start y = (if leap_year (y + 1) then 366 else 365)"
proof -
  have "y \<in> set [0..99] \<or> y \<in> set [100..199] \<or> y \<in> set [200..299] \<or> y \<in> set [300..399]"
    unfolding set_upto atLeastAtMost_iff using assms by linarith
  then have "era_end_ok y"
    using era_table_1 era_table_2 era_table_3 era_table_4 unfolding list_all_iff by blast
  then show "era_year (era_start y) = y" "era_year (era_start (y + 1) - 1) = y"
    "era_start (y + 1) - era_start y = (if leap_year (y + 1) then 366 else 365)"
    by (simp_all add: era_end_ok_def)
qed

lemma div_Suc_int: "0 < k \<Longrightarrow> (x + 1) div k = x div k + (if k dvd x + 1 then 1 else 0)" for x k :: int
proof -
  assume k: "0 < k"
  have x: "x = k * (x div k) + x mod k" by simp
  show ?thesis
  proof (cases "x mod k + 1 = k")
    case True
    have "x + 1 = k * (x div k) + k" using x True by linarith
    then have e: "x + 1 = k * (x div k + 1)" by (simp only: distrib_left mult_1_right)
    then have "(x + 1) div k = x div k + 1" using k by (metis nonzero_mult_div_cancel_left less_irrefl)
    moreover have "k dvd x + 1" by (metis e dvd_triv_left)
    ultimately show ?thesis by simp
  next
    case False
    then have b: "0 \<le> x mod k + 1" "x mod k + 1 < k" using pos_mod_sign [OF k, of x] pos_mod_bound [OF k, of x] by linarith+
    have e: "x + 1 = (x mod k + 1) + k * (x div k)" using x by linarith
    have "(x + 1) div k = x div k" using b k by (subst e) (simp only: div_mult_self2 div_pos_pos_trivial)
    moreover have "(x + 1) mod k = x mod k + 1" using b k by (subst e) (simp only: mod_mult_self2 mod_pos_pos_trivial)
    then have "\<not> k dvd x + 1" using pos_mod_sign [OF k, of x] by (auto simp: dvd_eq_mod_eq_0)
    ultimately show ?thesis by simp
  qed
qed

lemma era_numerator_step:
  "x - x div 1460 + x div 36524 - x div 146096
     \<le> (x + 1) - (x + 1) div 1460 + (x + 1) div 36524 - (x + 1) div 146096" for x :: int
proof -
  have "36524 dvd x + 1" if "146096 dvd x + 1"
    using dvd_trans [OF _ that, of 36524] by simp
  then show ?thesis
    by (simp only: div_Suc_int split: if_splits) auto
qed

lemma era_year_mono: "a \<le> b \<Longrightarrow> era_year a \<le> era_year b"
proof (induction b rule: int_ge_induct)
  case (step b)
  have "era_year b \<le> era_year (b + 1)"
    unfolding era_year_def by (rule zdiv_mono1 [OF era_numerator_step]) simp
  with step show ?case by simp
qed simp

lemma era_year_range:
  assumes "0 \<le> doe" and "doe \<le> 146096"
  shows "0 \<le> era_year doe" and "era_year doe \<le> 399"
  using era_year_mono [OF assms(1)] era_year_mono [OF assms(2)] by (simp_all add: era_year_def)

lemma era_year_bounds:
  assumes "0 \<le> doe" and "doe \<le> 146096"
  shows "era_start (era_year doe) \<le> doe" and "doe < era_start (era_year doe + 1)"
proof -
  let ?y = "era_year doe"
  note r = era_year_range [OF assms]
  show "era_start ?y \<le> doe"
  proof (rule ccontr)
    assume c: "\<not> era_start ?y \<le> doe"
    then have "?y \<noteq> 0" using assms(1) by (auto simp: era_start_def)
    then have "era_year (era_start (?y - 1 + 1) - 1) = ?y - 1" using r by (intro era_ends(2)) simp_all
    moreover have "?y \<le> era_year (era_start (?y - 1 + 1) - 1)" using c by (intro era_year_mono) simp
    ultimately show False by simp
  qed
  show "doe < era_start (?y + 1)"
  proof (rule ccontr)
    assume c: "\<not> doe < era_start (?y + 1)"
    then have "?y \<noteq> 399" using assms(2) by (auto simp: era_start_def)
    then have "era_year (era_start (?y + 1)) = ?y + 1" using r by (intro era_ends(1)) simp_all
    moreover have "era_year (era_start (?y + 1)) \<le> ?y" using c by (intro era_year_mono) simp
    ultimately show False by simp
  qed
qed

definition month_ok :: "int \<Rightarrow> bool" where
  "month_ok doy \<longleftrightarrow> (let mp = (5 * doy + 2) div 153; d = doy - (153 * mp + 2) div 5 + 1;
      m = (if mp < 10 then mp + 3 else mp - 9)
    in 1 \<le> m \<and> m \<le> 12 \<and> 1 \<le> d \<and> (m = 2 \<longrightarrow> d \<le> 29 \<and> (d = 29 \<longrightarrow> doy = 365))
     \<and> (m \<noteq> 2 \<longrightarrow> d \<le> days_in_month m 1) \<and> (if m > 2 then m - 3 else m + 9) = mp)"

lemma month_table_1: "list_all month_ok [0..121]"
  by code_simp

lemma month_table_2: "list_all month_ok [122..243]"
  by code_simp

lemma month_table_3: "list_all month_ok [244..365]"
  by code_simp

lemma month_table: "0 \<le> doy \<Longrightarrow> doy \<le> 365 \<Longrightarrow> month_ok doy"
proof -
  assume "0 \<le> doy" and "doy \<le> 365"
  then have "doy \<in> set [0..121] \<or> doy \<in> set [122..243] \<or> doy \<in> set [244..365]"
    unfolding set_upto atLeastAtMost_iff by linarith
  then show "month_ok doy"
    using month_table_1 month_table_2 month_table_3 unfolding list_all_iff by blast
qed

lemma leap_year_era: "leap_year (y + 400 * e) = leap_year y"
proof -
  have "(y + 400 * e) mod 4 = y mod 4" "(y + 400 * e) mod 100 = y mod 100" "(y + 400 * e) mod 400 = y mod 400"
    using mod_mult_self2 [of y 4 "100 * e"] mod_mult_self2 [of y 100 "4 * e"] mod_mult_self2 [of y 400 e] by simp_all
  then show ?thesis by (simp add: leap_year_def)
qed

lemma civil_from_days_correct:
  assumes "civil_from_days days = (y, m, d)"
  shows "days_from_civil y m d = days" and "1 \<le> m" and "m \<le> 12" and "1 \<le> d" and "d \<le> days_in_month m y"
proof -
  define era doe yoe where "era = (days + 719468) div 146097" and "doe = (days + 719468) mod 146097"
    and "yoe = era_year doe"
  define doy mp where "doy = doe - (365 * yoe + yoe div 4 - yoe div 100)" and "mp = (5 * doy + 2) div 153"
  have doe: "0 \<le> doe" "doe \<le> 146096" by (simp_all add: doe_def)
  note yoe = era_year_range [OF doe, folded yoe_def] and b = era_year_bounds [OF doe, folded yoe_def]
  have start: "era_start yoe = 365 * yoe + yoe div 4 - yoe div 100"
    using yoe by (simp add: era_start_def)
  have doy: "0 \<le> doy" "doy \<le> 365" "doy = 365 \<longrightarrow> leap_year (yoe + 1)"
    using b era_ends(3) [OF yoe] by (auto simp: doy_def start split: if_splits)
  have mdy: "m = (if mp < 10 then mp + 3 else mp - 9)" "d = doy - (153 * mp + 2) div 5 + 1"
      "y = yoe + era * 400 + (if m \<le> 2 then 1 else 0)"
    using assms unfolding civil_from_days_def Let_def era_year_def [symmetric]
      era_def [symmetric] doe_def [symmetric] yoe_def [symmetric] doy_def [symmetric] mp_def [symmetric] by auto
  have t: "1 \<le> m" "m \<le> 12" "1 \<le> d" "m = 2 \<longrightarrow> d \<le> 29 \<and> (d = 29 \<longrightarrow> doy = 365)"
      "m \<noteq> 2 \<longrightarrow> d \<le> days_in_month m 1" "(if m > 2 then m - 3 else m + 9) = mp"
    using month_table [of doy, unfolded month_ok_def Let_def, folded mp_def, folded mdy(1,2)] doy(1,2) by simp_all
  show "1 \<le> m" "m \<le> 12" "1 \<le> d" by (fact t)+
  show "d \<le> days_in_month m y"
  proof (cases "m = 2")
    case True
    then have "leap_year y = leap_year (yoe + 1)"
      using leap_year_era [of "yoe + 1" era] mdy(3) by (simp add: algebra_simps)
    with True t(4) doy(3) show ?thesis by (auto simp: days_in_month_def)
  qed (use t(5) in \<open>simp add: days_in_month_def\<close>)
  have y': "(if m \<le> 2 then y - 1 else y) = yoe + era * 400" using mdy(3) by simp
  have div: "(yoe + era * 400) div 4 = yoe div 4 + era * 100" "(yoe + era * 400) div 100 = yoe div 100 + era * 4"
      "(yoe + era * 400) div 400 = era"
    using div_mult_self2 [of 4 yoe "100 * era"] div_mult_self2 [of 100 yoe "4 * era"]
      div_mult_self2 [of 400 yoe era] yoe by (simp_all add: mult.commute [of era])
  have "days + 719468 = 146097 * era + doe" by (simp add: era_def doe_def)
  then show "days_from_civil y m d = days"
    unfolding days_from_civil_def Let_def t(6) y' div by (simp add: mdy(2) doy_def)
qed

lemma era_start_mono: "a \<le> b \<Longrightarrow> era_start a \<le> era_start b"
proof (induction b rule: int_ge_induct)
  case (step b)
  have "era_start b \<le> era_start (b + 1)"
    by (simp only: era_start_def div_Suc_int split: if_splits) auto
  with step show ?case by simp
qed simp

text \<open>The years \<open>datetime\<close> can hold.\<close>

lemma civil_year_range:
  assumes "civil_from_days days = (y, m, d)" and "- 719162 \<le> days" and "days < 2932897"
  shows "1 \<le> y" and "y \<le> 9999"
proof -
  note c = civil_from_days_correct [OF assms(1)]
  define y' doy where "y' = (if m \<le> 2 then y - 1 else y)"
    and "doy = (153 * (if m > 2 then m - 3 else m + 9) + 2) div 5 + d - 1"
  have days: "days = era_start y' + doy - 719468"
    using c(1) by (simp add: days_from_civil_def era_start_def y'_def doy_def Let_def)
  have m: "m \<in> {1, 2, 3, 4, 5, 6, 7, 8, 9, 10, 11, 12}" using c(2,3) by (simp, presburger)
  have doy: "0 \<le> doy" "doy \<le> 365" "m \<le> 2 \<Longrightarrow> 306 \<le> doy" "2 < m \<Longrightarrow> doy < 306"
    using m c(4,5) by (auto simp: doy_def days_in_month_def split: if_splits)
  show "1 \<le> y"
  proof (rule ccontr)
    assume "\<not> 1 \<le> y"
    then have "y' \<le> (if m \<le> 2 then - 1 else 0)" by (simp add: y'_def)
    then have "era_start y' \<le> (if m \<le> 2 then - 366 else 0)"
      using era_start_mono [of y' "if m \<le> 2 then - 1 else 0"] by (auto simp: era_start_def split: if_splits)
    with assms(2) days doy show False by (auto split: if_splits)
  qed
  show "y \<le> 9999"
  proof (rule ccontr)
    assume "\<not> y \<le> 9999"
    then have "(if m \<le> 2 then 9999 else 10000) \<le> y'" by (simp add: y'_def)
    then have "(if m \<le> 2 then 3652059 else 3652425) \<le> era_start y'"
      using era_start_mono [of "if m \<le> 2 then 9999 else 10000" y'] by (auto simp: era_start_def split: if_splits)
    with assms(3) days doy show False by (auto split: if_splits)
  qed
qed

section \<open>The round trip\<close>

lemma digits_val_snoc: "digits_val (s @ [c]) = 10 * digits_val s + digit_of c"
  by (simp add: digits_val_def)

lemma digits_val_str_nat: "digits_val (str_nat n) = int n"
proof (induction n rule: str_nat.induct)
  case (1 n)
  show ?case
  proof (cases "n < 10")
    case True
    then show ?thesis by (simp add: str_nat.simps [of n] digits_val_def digit_of_def)
  next
    case False
    then have "digits_val (str_nat n) = 10 * int (n div 10) + int (n mod 10)"
      using 1 by (simp add: str_nat.simps [of n] digits_val_snoc digit_of_def)
    then show ?thesis by (metis mult_div_mod_eq of_nat_add of_nat_mult of_nat_numeral)
  qed
qed

lemma ord_of_zero: "ord_of (CHR ''0'') = 48"
  by (simp add: ord_of_def)

lemma digits_val_zeros: "digits_val (replicate k (CHR ''0'') @ s) = digits_val s"
  by (induction k) (simp_all add: digits_val_def digit_of_def ord_of_zero)

lemma zero_pad_facts:
  assumes "0 \<le> i" and "i < 10 ^ w" and "0 < w"
  shows "length (zero_pad w i) = w" and "list_all go_digit (zero_pad w i)" and "digits_val (zero_pad w i) = i"
proof -
  have s: "str_int i = str_nat (nat i)" using assms(1) by (simp add: str_int_def)
  have "nat i < 10 ^ w" using assms(1,2) by (simp add: nat_less_iff)
  then have "length (str_nat (nat i)) \<le> w" using assms(3) by (rule length_str_nat)
  then show "length (zero_pad w i) = w" by (simp add: zero_pad_def s)
  show "list_all go_digit (zero_pad w i)"
    using str_nat_ord by (auto simp: list_all_iff zero_pad_def s go_digit_def ord_of_zero)
  show "digits_val (zero_pad w i) = i"
    using assms(1) by (simp add: zero_pad_def s digits_val_zeros digits_val_str_nat)
qed

lemma getnum_zero_pad:
  assumes "0 \<le> i" and "i < 100"
  shows "getnum fixed (zero_pad 2 i @ r) = Some (i, r)"
proof -
  have f: "length (zero_pad 2 i) = 2" "list_all go_digit (zero_pad 2 i)" "digits_val (zero_pad 2 i) = i"
    using zero_pad_facts [of i 2] assms by simp_all
  then obtain a b where "zero_pad 2 i = [a, b]"
    by (auto simp: numeral_2_eq_2 length_Suc_conv)
  with f show ?thesis by (simp add: digits_val_def)
qed

lemma get_field_zero_pad:
  "lo \<le> i \<Longrightarrow> i \<le> hi \<Longrightarrow> 0 \<le> i \<Longrightarrow> i < 100 \<Longrightarrow> get_field c fixed lo hi (c # zero_pad 2 i @ r) = Some (i, r)"
  by (simp add: get_field_def getnum_zero_pad)

lemma get_year_zero_pad: "0 \<le> y \<Longrightarrow> y \<le> 9999 \<Longrightarrow> get_year (zero_pad 4 y @ r) = Some (y, r)"
  using zero_pad_facts [of y 4] by (simp add: get_year_def)

lemma zulu: "get_fraction ''+00:00'' = (0, ''+00:00'')" "get_offset ''+00:00'' = Some (0, [])"
  by code_simp+

lemma parse_fields:
  assumes "0 \<le> y" "y \<le> 9999" and "1 \<le> m" "m \<le> 12" and "1 \<le> d" "d \<le> days_in_month m y" "d \<le> 31"
    and "0 \<le> hh" "hh \<le> 23" and "0 \<le> mm" "mm \<le> 59" and "0 \<le> ss" "ss \<le> 59"
  shows "parse_rfc3339 (zero_pad 4 y @ CHR ''-'' # zero_pad 2 m @ CHR ''-'' # zero_pad 2 d @ CHR ''T'' #
      zero_pad 2 hh @ CHR '':'' # zero_pad 2 mm @ CHR '':'' # zero_pad 2 ss @ ''+00:00'')
    = Some ((days_from_civil y m d * 86400 + hh * 3600 + mm * 60 + ss) * 1000000000)"
proof -
  note f = get_year_zero_pad [OF assms(1,2)] get_field_zero_pad [OF assms(3,4)] get_field_zero_pad [OF assms(5,6)]
    get_field_zero_pad [OF assms(8,9)] get_field_zero_pad [OF assms(10,11)] get_field_zero_pad [OF assms(12,13)]
  show ?thesis
    unfolding parse_rfc3339_def using assms by (simp only: f Option.bind.bind_lunit prod.case zulu Let_def) simp
qed

lemma rfc3339_round_trip:
  assumes "- 62135596800 * 1000000 \<le> now" and "now < 253402300800 * 1000000"
  shows "parse_rfc3339 (now_rfc3339 now) = Some (now div 1000000 * 1000000000)"
proof -
  define t where "t = now div 1000000"
  obtain y m d where c: "civil_from_days (t div 86400) = (y, m, d)" by (metis prod_cases3)
  have t: "- 62135596800 \<le> t" "t < 253402300800"
    using zdiv_mono1 [OF assms(1), of 1000000] assms(2) by (simp_all add: t_def div_less_iff_less_mult)
  then have "- 719162 \<le> t div 86400" "t div 86400 < 2932897"
    using zdiv_mono1 [OF t(1), of 86400] by (simp_all add: div_less_iff_less_mult)
  note y = civil_year_range [OF c this] and cc = civil_from_days_correct [OF c]
  have d: "d \<le> 31" using cc(5) by (auto simp: days_in_month_def split: if_splits)
  define s where "s = t mod 86400"
  have s: "0 \<le> s" "s < 86400" by (simp_all add: s_def)
  have hms: "0 \<le> s div 3600" "s div 3600 \<le> 23" "0 \<le> s div 60 mod 60" "s div 60 mod 60 \<le> 59" "0 \<le> s mod 60" "s mod 60 \<le> 59"
    using s by (simp_all add: pos_imp_zdiv_nonneg_iff)
  have shape: "now_rfc3339 now = zero_pad 4 y @ CHR ''-'' # zero_pad 2 m @ CHR ''-'' # zero_pad 2 d @ CHR ''T'' #
      zero_pad 2 (s div 3600) @ CHR '':'' # zero_pad 2 (s div 60 mod 60) @ CHR '':'' # zero_pad 2 (s mod 60) @ ''+00:00''"
    by (simp add: now_rfc3339_def Let_def t_def [symmetric] s_def [symmetric] c)
  have "s div 3600 = s div 60 div 60" using zdiv_zmult2_eq [of 60 s 60] by simp
  then have "s div 3600 * 3600 + s div 60 mod 60 * 60 + s mod 60 = s"
    using div_mult_mod_eq [of s 60] div_mult_mod_eq [of "s div 60" 60] by linarith
  then have sum: "t div 86400 * 86400 + s div 3600 * 3600 + s div 60 mod 60 * 60 + s mod 60 = t"
    using div_mult_mod_eq [of t 86400] unfolding s_def by linarith
  have "parse_rfc3339 (now_rfc3339 now) =
      Some ((t div 86400 * 86400 + s div 3600 * 3600 + s div 60 mod 60 * 60 + s mod 60) * 1000000000)"
  proof -
    have "0 \<le> y" using y(1) by linarith
    from parse_fields [OF this y(2) cc(2-5) d hms] show ?thesis unfolding shape cc(1) .
  qed
  then have "parse_rfc3339 (now_rfc3339 now) = Some (t * 1000000000)" by (simp only: sum)
  then show ?thesis by (simp only: t_def)
qed

text \<open>
  C23: the backend's \<open>time.Parse\<close> reads the time stamp the worker's status publisher writes as exactly
  the second of the worker's clock, for every time \<open>datetime\<close> can hold (the years 1 to 9999).
\<close>

theorem time_stamp_round_trip:
  assumes "- 62135596800 * 1000000 \<le> now" and "now < 253402300800 * 1000000"
  shows "parse_rfc3339 (now_rfc3339 now) = Some (now div 1000000 * 1000000000)"
  using assms by (rule rfc3339_round_trip)

theorem time_stamp_round_trip_witness:
  "parse_rfc3339 (now_rfc3339 951827696123456) = Some 951827696000000000"
  using time_stamp_round_trip [of 951827696123456] by simp

end
