(* ===== verification/Job_View.thy ===== *)
theory Job_View imports Backend_Http Go_Time begin

text \<open>
  What a client sees of a job: \<open>GetJob\<close> of \<open>backend/internal/handler/jobs.go\<close> with
  \<open>GetJobStatus\<close> (\<open>queue/redis.go\<close>) and \<open>GetByID\<close> (\<open>db/jobs.go\<close>). The row of Postgres is shown, and
  for an active job the worker's status hash is laid over it when its time stamp is later. The
  theorems say when the view agrees with the row, and the one way in which it does not.
\<close>

section \<open>The handler\<close>

record live_status =
  ls_status :: string
  ls_updated :: int

text \<open>The zero \<open>time.Time\<close>, the year 1, in nanoseconds.\<close>

definition go_zero_time :: int where
  "go_zero_time = - 62135596800 * 1000000000"

definition map_text :: "(string \<Rightarrow> string option) \<Rightarrow> string \<Rightarrow> string" where
  "map_text vals k = (case vals k of None \<Rightarrow> [] | Some v \<Rightarrow> v)"

definition live_of_hash :: "(string \<Rightarrow> string option) \<Rightarrow> live_status" where
  "live_of_hash vals = (case vals ''updated_at'' of
     None \<Rightarrow> \<lparr>ls_status = map_text vals ''status'', ls_updated = go_zero_time\<rparr>
   | Some raw \<Rightarrow> (case parse_rfc3339 raw of
       None \<Rightarrow> \<lparr>ls_status = map_text vals ''status'', ls_updated = go_zero_time\<rparr>
     | Some t \<Rightarrow> \<lparr>ls_status = map_text vals ''status'', ls_updated = t\<rparr>))"

definition read_live_status :: "services \<Rightarrow> uuid \<Rightarrow> shared \<Rightarrow> live_status option" where
  "read_live_status R i s = (case hgetall R (clock s) (status_key (uuid_str i)) (rd s) of
     None \<Rightarrow> None | Some vals \<Rightarrow> Some (live_of_hash vals))"

definition get_job_status :: "services \<Rightarrow> uuid \<Rightarrow> (world, exn, live_status option) prog" where
  "get_job_status R i = query R (read_live_status R i)"

text \<open>\<open>GetByID\<close>: no row is \<open>ErrJobNotFound\<close>, a row that does not convert another error.\<close>

definition store_get :: "uuid \<Rightarrow> job_row list \<Rightarrow> exn + job_row option" where
  "store_get i rows = (case job_at i rows of
     None \<Rightarrow> Inr None
   | Some r \<Rightarrow> (case to_schema r of Inl e \<Rightarrow> Inl e | Inr r' \<Rightarrow> Inr (Some r')))"

definition call_get :: "services \<Rightarrow> uuid \<Rightarrow> (world, exn, job_row option) prog" where
  "call_get R i = bind (query R (\<lambda>s. store_get i (jobs s))) lift_sum"

text \<open>The job as it is answered: a status is a text, a time in nanoseconds.\<close>

record job_view =
  v_row :: job_row
  v_status :: string
  v_updated_at :: int

definition row_view :: "job_row \<Rightarrow> job_view" where
  "row_view r = \<lparr>v_row = r, v_status = status_value (r_status r), v_updated_at = r_updated_at r * 1000\<rparr>"

definition is_active_status :: "job_status \<Rightarrow> bool" where
  "is_active_status st \<longleftrightarrow> st = QUEUED \<or> st = RUNNING"

definition overlay :: "job_view \<Rightarrow> live_status \<Rightarrow> job_view" where
  "overlay v ls =
     (if v_updated_at v < ls_updated ls then v\<lparr>v_status := ls_status ls, v_updated_at := ls_updated ls\<rparr> else v)"

definition get_job :: "services \<Rightarrow> uuid \<Rightarrow> (world, exn, job_view response) prog" where
  "get_job R i = bind (attempt (call_get R i)) (\<lambda>found. case found of
     Inl _ \<Rightarrow> ret (ErrorResponse 500 ''INTERNAL_SERVER_ERROR'' ''failed to fetch job'')
   | Inr None \<Rightarrow> ret (ErrorResponse 404 ''JOB_NOT_FOUND'' ''job not found'')
   | Inr (Some r) \<Rightarrow>
       if is_active_status (r_status r)
       then bind (attempt (get_job_status R i)) (\<lambda>live. case live of
              Inr (Some ls) \<Rightarrow> ret (DataResponse 200 (overlay (row_view r) ls))
            | _ \<Rightarrow> ret (DataResponse 200 (row_view r)))
       else ret (DataResponse 200 (row_view r)))"

section \<open>The view of a quiet world\<close>

lemma attempt_query: "sched w = [] \<Longrightarrow> attempt (query R f) w = (Inr (Inr (f (sh w))), w)"
  by (rule attempt_Inr) (rule query_quiet)

lemma call_get_quiet:
  "sched w = [] \<Longrightarrow> job_at i (jobs (sh w)) = Some r \<Longrightarrow> unmarshal_ok (r_hyperparameters r)
   \<Longrightarrow> attempt (call_get R i) w = (Inr (Inr (Some r)), w)"
  by (rule attempt_Inr) (simp add: call_get_def bind_def query_quiet store_get_def to_schema_def lift_sum_apply)

definition view_of :: "services \<Rightarrow> uuid \<Rightarrow> job_row \<Rightarrow> shared \<Rightarrow> job_view" where
  "view_of R i r s = (if is_active_status (r_status r)
     then case read_live_status R i s of None \<Rightarrow> row_view r | Some ls \<Rightarrow> overlay (row_view r) ls
     else row_view r)"

lemma get_job_quiet:
  assumes "sched w = []" and "job_at i (jobs (sh w)) = Some r" and "unmarshal_ok (r_hyperparameters r)"
  shows "get_job R i w = (Inr (DataResponse 200 (view_of R i r (sh w))), w)"
  using assms by (simp add: get_job_def bind_def call_get_quiet get_job_status_def attempt_query view_of_def ret_apply
      split: option.split)

lemma get_job_missing:
  "sched w = [] \<Longrightarrow> job_at i (jobs (sh w)) = None \<Longrightarrow>
     get_job R i w = (Inr (ErrorResponse 404 ''JOB_NOT_FOUND'' ''job not found''), w)"
proof -
  assume w: "sched w = []" "job_at i (jobs (sh w)) = None"
  have "attempt (call_get R i) w = (Inr (Inr None), w)"
    by (rule attempt_Inr) (simp add: call_get_def bind_def query_quiet [OF w(1)] store_get_def w(2) lift_sum_apply)
  then show ?thesis by (simp add: get_job_def bind_def ret_apply)
qed

lemma get_job_undecodable:
  "sched w = [] \<Longrightarrow> job_at i (jobs (sh w)) = Some r \<Longrightarrow> \<not> unmarshal_ok (r_hyperparameters r) \<Longrightarrow>
     get_job R i w = (Inr (ErrorResponse 500 ''INTERNAL_SERVER_ERROR'' ''failed to fetch job''), w)"
proof -
  assume w: "sched w = []" "job_at i (jobs (sh w)) = Some r" "\<not> unmarshal_ok (r_hyperparameters r)"
  have "attempt (call_get R i) w = (Inr (Inl (ValueError ''unmarshal hyperparameters'')), w)"
    by (rule attempt_Inl) (simp_all add: call_get_def bind_def query_quiet [OF w(1)] store_get_def w(2,3) to_schema_def lift_sum_apply)
  then show ?thesis by (simp add: get_job_def bind_def ret_apply)
qed

text \<open>What a status hash says once it is published.\<close>

lemma live_of_published:
  "live_of_hash (upsert_fields f [(''status'', st), (''updated_at'', now_rfc3339 t)]) =
     \<lparr>ls_status = st, ls_updated = (case parse_rfc3339 (now_rfc3339 t) of None \<Rightarrow> go_zero_time | Some u \<Rightarrow> u)\<rparr>"
  by (simp add: live_of_hash_def upsert_fields_def map_text_def split: option.split)

definition python_time :: "int \<Rightarrow> bool" where
  "python_time t \<longleftrightarrow> - 62135596800 * 1000000 \<le> t \<and> t < 253402300800 * 1000000"

lemma stamp_of: "python_time t \<Longrightarrow> parse_rfc3339 (now_rfc3339 t) = Some (t div 1000000 * 1000000000)"
  unfolding python_time_def by (elim conjE) (rule rfc3339_round_trip)

context redis_server begin

lemma read_published:
  "\<exists>u. read_live_status R i (do_op R (Publish (uuid_str i) st b) s) = Some \<lparr>ls_status = st, ls_updated = u\<rparr>"
  by (auto simp: read_live_status_def hgetall_doc live_hash_def publish_hash Let_def hset_hash_def
      live_of_published TERMINAL_TTL_SECONDS_def split: option.splits)

lemma read_terminal:
  assumes "python_time (clock s)" and "clock s' < clock s + TERMINAL_TTL_SECONDS * 1000000"
    and "rhashes (rd s') = rhashes (rd (do_op R (Publish (uuid_str i) st True) s))"
  shows "read_live_status R i s' = Some \<lparr>ls_status = st, ls_updated = clock s div 1000000 * 1000000000\<rparr>"
  using assms(2) by (auto simp: read_live_status_def hgetall_doc live_hash_def assms(3) publish_hash Let_def hset_hash_def
      live_of_published stamp_of [OF assms(1)] split: option.splits)

end

section \<open>When the view agrees with the row\<close>

lemma view_of_row: "v_row (view_of R i r s) = r" "r_updated_at r * 1000 \<le> v_updated_at (view_of R i r s)"
  by (auto simp: view_of_def overlay_def row_view_def split: option.split)

lemma view_of_terminal: "\<not> is_active_status (r_status r) \<Longrightarrow> view_of R i r s = row_view r"
  by (simp add: view_of_def)

text \<open>
  C21: \<open>GetJob\<close> answers 404 without a row, 500 when the row does not convert, and otherwise 200 with the
  job's row; what it shows is never older than the row, is the row itself once the job is completed,
  failed or cancelled, and right after a heartbeat of the worker shows a running job as running.
\<close>

theorem get_job_view:
  assumes "redis_server R" and "sched w = []"
  shows "case job_at i (jobs (sh w)) of
      None \<Rightarrow> get_job R i w = (Inr (ErrorResponse 404 ''JOB_NOT_FOUND'' ''job not found''), w)
    | Some r \<Rightarrow> if \<not> unmarshal_ok (r_hyperparameters r)
        then get_job R i w = (Inr (ErrorResponse 500 ''INTERNAL_SERVER_ERROR'' ''failed to fetch job''), w)
        else (\<exists>v. get_job R i w = (Inr (DataResponse 200 v), w) \<and> v_row v = r
               \<and> r_updated_at r * 1000 \<le> v_updated_at v
               \<and> (r_status r \<in> {COMPLETED, FAILED, CANCELLED} \<longrightarrow> v = row_view r))
          \<and> (job_id j = i \<and> r_status r = RUNNING \<longrightarrow>
               (\<exists>v w'. heartbeat_of R j w = (Inr (), w') \<and> get_job R i w' = (Inr (DataResponse 200 v), w')
                 \<and> v_status v = status_value RUNNING))"
proof -
  have hit: "\<exists>v w'. heartbeat_of R j w = (Inr (), w') \<and> get_job R i w' = (Inr (DataResponse 200 v), w')
      \<and> v_status v = status_value RUNNING"
    if r: "job_at i (jobs (sh w)) = Some r" "unmarshal_ok (r_hyperparameters r)" "job_id j = i" "r_status r = RUNNING" for r
  proof -
    let ?w = "after R (beat_ops i) w" and ?r = "r\<lparr>r_updated_at := clock (sh w)\<rparr>"
    have at: "job_at i (jobs (sh ?w)) = Some ?r"
      using r(1,4) job_at_id [OF r(1)] by (simp add: beat_ops_jobs)
    have "beat_ops i = [Heartbeat i] @ [Publish (uuid_str i) (status_value RUNNING) False]" by (simp add: beat_ops_def)
    then obtain u where "read_live_status R i (sh ?w) = Some \<lparr>ls_status = status_value RUNNING, ls_updated = u\<rparr>"
      using redis_server.read_published [OF assms(1), of i "status_value RUNNING" False "do_op R (Heartbeat i) (sh w)"]
      by (auto simp del: do_op.simps status_value.simps)
    then have "v_status (view_of R i ?r (sh ?w)) = status_value RUNNING"
      using r(4) by (simp add: view_of_def overlay_def row_view_def is_active_status_def del: status_value.simps)
    moreover have "get_job R i ?w = (Inr (DataResponse 200 (view_of R i ?r (sh ?w))), ?w)"
      by (rule get_job_quiet [OF _ at]) (use assms(2) r(2) in simp_all)
    moreover have "heartbeat_of R j w = (Inr (), ?w)" using heartbeat_quiet [OF assms(2)] r(3) by simp
    ultimately show ?thesis by blast
  qed
  show ?thesis
  proof (cases "job_at i (jobs (sh w))")
    case (Some r)
    show ?thesis
    proof (cases "unmarshal_ok (r_hyperparameters r)")
      case True
      have "r_status r \<in> {COMPLETED, FAILED, CANCELLED} \<longrightarrow> view_of R i r (sh w) = row_view r"
        by (auto intro!: view_of_terminal simp: is_active_status_def)
      with get_job_quiet [OF assms(2) Some True, of R] hit [OF Some True] Some True show ?thesis
        by (auto simp: view_of_row)
    qed (use get_job_undecodable [OF assms(2) Some] Some in simp)
  qed (use get_job_missing [OF assms(2)] in simp)
qed

theorem get_job_view_witness:
  "\<exists>v w'. heartbeat_of reference_services (sample_job 1 RUNNING ''ds/a.csv'') (idle_world [sample_row 1 RUNNING ''ds/a.csv''] [] []) = (Inr (), w')
    \<and> get_job reference_services 1 w' = (Inr (DataResponse 200 v), w') \<and> v_status v = ''running''"
  using get_job_view [OF redis_server_reference, of "idle_world [sample_row 1 RUNNING ''ds/a.csv''] [] []" 1 "sample_job 1 RUNNING ''ds/a.csv''"]
  by (simp add: sample_row_ok)

section \<open>When it does not\<close>

text \<open>
  C22: a completion that never took place is shown. When a sweep has put the job back on the queue
  while its worker was slow, the worker's \<open>mark_completed\<close> changes no row, but its status
  \<open>completed\<close> is published all the same; from one second after the sweep on, \<open>GetJob\<close> answers that
  the job is completed, without a checkpoint, for a row that is queued and will be trained again.
\<close>

theorem completion_shown_early:
  assumes "redis_server R" and "sched w = []" and "uuid_of_text raw = Some i"
    and "db_get_job i (jobs (sh w)) = Inr (Some j)" and "job_state j \<in> {QUEUED, RUNNING}"
    and "preflight (sh w) j = Inr m"
    and "exec j m (heartbeat_of R j) (after R (start_ops i) w) = (Inr ckpt, w')" and "sched w' = []"
    and "job_at i (jobs (sh w')) = Some r" and "r_status r = QUEUED" and "row_wf r" and "unmarshal_ok (r_hyperparameters r)"
    and "r_updated_at r + seconds 1 \<le> clock (sh w')" and "python_time (clock (sh w'))"
  shows "\<exists>v w2. process R exec raw w = (Inr (), w2) \<and> job_at i (jobs (sh w2)) = Some r
    \<and> get_job R i w2 = (Inr (DataResponse 200 v), w2) \<and> v_status v = status_value COMPLETED
    \<and> r_checkpoint_path (v_row v) = None"
proof -
  let ?w = "after R (complete_ops raw i ckpt) w'"
  have "job_state j \<notin> TERMINAL_STATUSES" using assms(5) by (auto simp: active_status)
  then have run: "process R exec raw w = (Inr (), ?w)"
    using assms by (intro process_completes) simp_all
  have at: "job_at i (jobs (sh ?w)) = Some r" using assms(9,10) by (simp add: complete_ops_jobs)
  let ?t = "clock (sh w') div 1000000 * 1000000000"
  have "read_live_status R i (sh ?w) = Some \<lparr>ls_status = status_value COMPLETED, ls_updated = ?t\<rparr>"
    by (rule redis_server.read_terminal [OF assms(1), where s = "do_op R (MarkCompleted i ckpt) (sh w')", simplified])
      (use assms(14) in \<open>simp_all add: complete_ops_def TERMINAL_TTL_SECONDS_def redis_server.queue_hashes [OF assms(1)]\<close>)
  moreover have "r_updated_at r * 1000 < ?t"
    using assms(13) by (simp add: seconds_def)
  ultimately have "v_status (view_of R i r (sh ?w)) = status_value COMPLETED"
    using assms(10) by (simp add: view_of_def overlay_def row_view_def is_active_status_def del: status_value.simps)
  moreover have "get_job R i ?w = (Inr (DataResponse 200 (view_of R i r (sh ?w))), ?w)"
    by (rule get_job_quiet [OF _ at assms(12)]) (use assms(8) in simp)
  moreover have "r_checkpoint_path r = None" using assms(10,11) by (simp add: row_wf_def)
  ultimately show ?thesis using run at by (auto simp: view_of_row)
qed

text \<open>A training that takes five seconds, in which a sweep elsewhere gives the job up.\<close>

definition overtaken_ops :: "uuid \<Rightarrow> op list" where
  "overtaken_ops i = [Tick 3000000, ResetToQueued i, Requeue (uuid_str i), Tick 2000000]"

definition overtaken_executor :: "services \<Rightarrow> executor" where
  "overtaken_executor R j m hb w = (Inr (checkpoint_prefix j), after R (overtaken_ops (job_id j)) w)"

theorem completion_shown_early_witness:
  "\<exists>v w2. process reference_services (overtaken_executor reference_services) (uuid_str 1)
      (sample_world [sample_row 1 QUEUED ''ds/a.csv''] []) = (Inr (), w2)
    \<and> get_job reference_services 1 w2 = (Inr (DataResponse 200 v), w2)
    \<and> v_status v = status_value COMPLETED \<and> r_checkpoint_path (v_row v) = None"
proof -
  let ?w = "sample_world [sample_row 1 QUEUED ''ds/a.csv''] []" and ?r = "(sample_row 1 QUEUED ''ds/a.csv'')\<lparr>r_updated_at := 3000100\<rparr>"
  let ?w' = "after reference_services (overtaken_ops 1) (after reference_services (start_ops 1) ?w)"
  have at: "job_at 1 (jobs (sh ?w')) = Some ?r" and t: "clock (sh ?w') = 5000100"
    by (simp_all add: overtaken_ops_def start_ops_def db_reset_to_queued_def db_mark_running_def sql_update_def job_at_def)
  have j: "db_get_job 1 (jobs (sh ?w)) = Inr (Some (sample_job 1 QUEUED ''ds/a.csv''))" by (simp add: sample_get_job)
  have x: "overtaken_executor reference_services (sample_job 1 QUEUED ''ds/a.csv'') m hb (after reference_services (start_ops 1) ?w)
      = (Inr (checkpoint_prefix (sample_job 1 QUEUED ''ds/a.csv'')), ?w')" for m hb
    by (simp only: overtaken_executor_def sample_job_simps)
  have r: "row_wf ?r" "unmarshal_ok (r_hyperparameters ?r)" "r_updated_at ?r + seconds 1 \<le> clock (sh ?w')"
      "python_time (clock (sh ?w'))"
    using sample_row_ok [of 1 QUEUED "''ds/a.csv''"] t by (simp_all add: row_wf_def seconds_def python_time_def, simp add: sample_row_def)
  show ?thesis
    using completion_shown_early [where exec = "overtaken_executor reference_services" and w = ?w and w' = ?w' and r = ?r,
        OF redis_server_reference _ uuid_of_text_uuid_str j _ sample_preflight_csv x _ at _ r] by simp blast
qed

end
