(* ===== verification/Listing.thy ===== *)
theory Listing imports Backend_Http Go_Time "HOL-Library.Sublist" begin

text \<open>
  The listings of the backend: \<open>ListJobs\<close>, \<open>ListModels\<close> and \<open>ListDatasets\<close> of \<open>backend/internal/handler\<close>
  with the stores' \<open>List\<close> (\<open>backend/internal/db\<close>). A query string is the list of its pairs. The order in
  which Postgres answers \<open>ORDER BY\<close> is a parameter (rows that tie come in any order), so is nothing else:
  the count and the page are two statements, between which others may act.
\<close>

section \<open>Reading the query string\<close>

type_synonym query_string = "(string \<times> string) list"

text \<open>\<open>Query().Get\<close>: the first value of the key, the empty text without one. \<open>Atoi\<close> reads a 64-bit integer.\<close>

definition query_get :: "string \<Rightarrow> query_string \<Rightarrow> string" where
  "query_get k q = (case map_of q k of None \<Rightarrow> [] | Some v \<Rightarrow> v)"

definition atoi :: "string \<Rightarrow> int option" where
  "atoi s = (let neg = (s \<noteq> [] \<and> hd s = CHR ''-'');
                 ds = (if s \<noteq> [] \<and> hd s \<in> {CHR ''-'', CHR ''+''} then tl s else s);
                 n = (if neg then - digits_val ds else digits_val ds)
     in if ds = [] \<or> \<not> list_all go_digit ds \<or> n < - (2 ^ 63) \<or> 2 ^ 63 \<le> n then None else Some n)"

text \<open>\<open>%q\<close>: a text in double quotes with Go's escapes, for characters within Latin-1.\<close>

definition go_escape :: "char \<Rightarrow> string" where
  "go_escape c = (let n = ord_of c; bs = char_of (92 :: nat) in
     if n = 34 \<or> n = 92 then [bs, c]
     else if n = 7 then [bs, CHR ''a''] else if n = 8 then [bs, CHR ''b''] else if n = 12 then [bs, CHR ''f'']
     else if n = 10 then [bs, CHR ''n''] else if n = 13 then [bs, CHR ''r''] else if n = 9 then [bs, CHR ''t'']
     else if n = 11 then [bs, CHR ''v'']
     else if n < 32 \<or> n = 127 then [bs, CHR ''x'', hex_digit (n div 16), hex_digit (n mod 16)]
     else if n < 127 \<or> (160 < n \<and> n \<noteq> 173) then [c]
     else [bs, CHR ''u'', CHR ''0'', CHR ''0'', hex_digit (n div 16), hex_digit (n mod 16)])"

definition go_quote :: "string \<Rightarrow> string" where
  "go_quote s = char_of (34 :: nat) # concat (map go_escape s) @ [char_of (34 :: nat)]"

section \<open>Jobs\<close>

record list_jobs_params =
  lj_status :: "string option"
  lj_limit :: "int option"
  lj_offset :: "int option"

definition list_jobs_errors :: "list_jobs_params \<Rightarrow> string list" where
  "list_jobs_errors p =
     (case lj_limit p of None \<Rightarrow> [] | Some n \<Rightarrow>
        (if n < 1 then [''limit must be >= 1''] else []) @ (if 200 < n then [''limit must be <= 200''] else []))
   @ (case lj_offset p of None \<Rightarrow> [] | Some n \<Rightarrow> if n < 0 then [''offset must be >= 0''] else [])
   @ (case lj_status p of None \<Rightarrow> [] | Some st \<Rightarrow>
        if st \<in> set (map status_value all_statuses) then [] else [''unknown status '' @ go_quote st])"

definition validate_list_jobs :: "list_jobs_params \<Rightarrow> string option" where
  "validate_list_jobs p = (if list_jobs_errors p \<noteq> [] then Some (join ''; '' (list_jobs_errors p)) else None)"

text \<open>An optional integer parameter; the message is the error of \<open>Atoi\<close>'s failure.\<close>

definition int_param :: "string \<Rightarrow> string \<Rightarrow> query_string \<Rightarrow> string + int option" where
  "int_param k msg q = (if query_get k q = [] then Inr None
     else case atoi (query_get k q) of None \<Rightarrow> Inl msg | Some n \<Rightarrow> Inr (Some n))"

definition parse_list_jobs :: "query_string \<Rightarrow> string + list_jobs_params" where
  "parse_list_jobs q =
     (case int_param ''limit'' ''limit must be an integer'' q of
        Inl m \<Rightarrow> Inl m
      | Inr limit \<Rightarrow> (case int_param ''offset'' ''offset must be an integer'' q of
          Inl m \<Rightarrow> Inl m
        | Inr offset \<Rightarrow>
           (let p = \<lparr>lj_status = (if query_get ''status'' q = [] then None else Some (query_get ''status'' q)),
                     lj_limit = limit, lj_offset = offset\<rparr>
            in case validate_list_jobs p of None \<Rightarrow> Inr p | Some m \<Rightarrow> Inl m)))"

text \<open>\<open>LIMIT\<close> and \<open>OFFSET\<close> of an ordered result.\<close>

definition sql_page :: "int \<Rightarrow> int \<Rightarrow> 'r list \<Rightarrow> 'r list" where
  "sql_page limit offset rows = take (nat limit) (drop (nat offset) rows)"

definition wanted_job :: "list_jobs_params \<Rightarrow> job_row \<Rightarrow> bool" where
  "wanted_job p r = (case lj_status p of None \<Rightarrow> True | Some st \<Rightarrow> status_value (r_status r) = st)"

definition or_default :: "int \<Rightarrow> int option \<Rightarrow> int" where
  "or_default d v = (case v of Some n \<Rightarrow> if 0 < n then n else d | None \<Rightarrow> d)"

fun to_schemas :: "job_row list \<Rightarrow> exn + job_row list" where
  "to_schemas [] = Inr []"
| "to_schemas (r # rs) = (case to_schema r of
     Inl e \<Rightarrow> Inl e
   | Inr j \<Rightarrow> (case to_schemas rs of Inl e \<Rightarrow> Inl e | Inr js \<Rightarrow> Inr (j # js)))"

type_synonym job_order = "job_row list \<Rightarrow> job_row list"

definition store_list_jobs :: "services \<Rightarrow> job_order \<Rightarrow> list_jobs_params \<Rightarrow> (world, exn, job_row list \<times> int) prog" where
  "store_list_jobs R ord p =
     bind (query R (\<lambda>s. int (length (filter (wanted_job p) (jobs s))))) (\<lambda>cnt.
     bind (query R (\<lambda>s. to_schemas (sql_page (or_default 50 (lj_limit p)) (or_default 0 (lj_offset p))
                          (ord (filter (wanted_job p) (jobs s)))))) (\<lambda>rows.
     bind (lift_sum rows) (\<lambda>js. ret (js, cnt))))"

record 'r listing =
  l_data :: "'r list"
  l_total :: int
  l_limit :: int
  l_offset :: int

definition list_jobs :: "services \<Rightarrow> job_order \<Rightarrow> query_string \<Rightarrow> (world, exn, job_row listing response) prog" where
  "list_jobs R ord q = (case parse_list_jobs q of
     Inl msg \<Rightarrow> ret (ErrorResponse 422 ''INVALID_REQUEST'' msg)
   | Inr p \<Rightarrow> bind (attempt (store_list_jobs R ord p)) (\<lambda>res. case res of
       Inl _ \<Rightarrow> ret (ErrorResponse 500 ''INTERNAL_SERVER_ERROR'' ''failed to list jobs'')
     | Inr (js, cnt) \<Rightarrow> ret (DataResponse 200 \<lparr>l_data = js, l_total = cnt,
         l_limit = (case lj_limit p of None \<Rightarrow> 50 | Some n \<Rightarrow> n),
         l_offset = (case lj_offset p of None \<Rightarrow> 0 | Some n \<Rightarrow> n)\<rparr>)))"

section \<open>Models and data sets\<close>

text \<open>
  \<open>ILIKE\<close>: \<open>%\<close> stands for any text, an underscore for any character, a backslash takes the next
  character as it is; both sides are compared in lower case.
\<close>

fun like :: "string \<Rightarrow> string \<Rightarrow> bool" where
  "like [] t \<longleftrightarrow> t = []"
| "like (c # p) [] \<longleftrightarrow> c = CHR ''%'' \<and> like p []"
| "like (c # p) (x # t) \<longleftrightarrow>
     (if c = CHR ''%'' then like p (x # t) \<or> like (c # p) t
      else if c = CHR ''_'' then like p t
      else if c = char_of (92 :: nat) then (case p of [] \<Rightarrow> False | d # p' \<Rightarrow> d = x \<and> like p' t)
      else c = x \<and> like p t)"

definition ilike :: "string \<Rightarrow> string \<Rightarrow> bool" where
  "ilike t p \<longleftrightarrow> like (lower p) (lower t)"

definition search_pattern :: "string \<Rightarrow> string" where
  "search_pattern s = CHR ''%'' # s @ [CHR ''%'']"

record list_params =
  lp_status :: "string option"
  lp_search :: string
  lp_limit :: int
  lp_offset :: int

text \<open>The two parsers differ only in the name of the search parameter.\<close>

definition parse_list :: "string \<Rightarrow> query_string \<Rightarrow> string + list_params" where
  "parse_list search_key q =
     (let lim = query_get ''limit'' q; off = query_get ''offset'' q;
          bad_limit = Inl ''limit must be an integer between 1 and 200'';
          bad_offset = Inl ''offset must be a non-negative integer'';
          result = (\<lambda>l f. Inr \<lparr>lp_status = (if query_get ''status'' q = [] then None else Some (query_get ''status'' q)),
                              lp_search = query_get search_key q, lp_limit = l, lp_offset = f\<rparr>);
          with_limit = (\<lambda>l. if off = [] then result l 0 else case atoi off of
                          None \<Rightarrow> bad_offset | Some f \<Rightarrow> if f < 0 then bad_offset else result l f)
      in if lim = [] then with_limit 50
         else case atoi lim of None \<Rightarrow> bad_limit | Some l \<Rightarrow> if l < 1 \<or> 200 < l then bad_limit else with_limit l)"

definition list_rows :: "services \<Rightarrow> (shared \<Rightarrow> 'r list) \<Rightarrow> ('r \<Rightarrow> string) \<Rightarrow> ('r \<Rightarrow> string list) \<Rightarrow> ('r list \<Rightarrow> 'r list)
    \<Rightarrow> list_params \<Rightarrow> (world, exn, 'r list \<times> int) prog" where
  "list_rows R table status texts ord p =
     (let wanted = (\<lambda>r. status r = (case lp_status p of None \<Rightarrow> ''ready'' | Some st \<Rightarrow> st)
            \<and> (lp_search p \<noteq> [] \<longrightarrow> list_ex (\<lambda>t. ilike t (search_pattern (lp_search p))) (texts r)))
      in bind (query R (\<lambda>s. int (length (filter wanted (table s))))) (\<lambda>cnt.
         bind (query R (\<lambda>s. sql_page (if 0 < lp_limit p then lp_limit p else 50) (lp_offset p) (ord (filter wanted (table s))))) (\<lambda>rows.
         ret (rows, cnt))))"

definition answer_list :: "string \<Rightarrow> (list_params \<Rightarrow> (world, exn, 'r list \<times> int) prog) \<Rightarrow> string + list_params
    \<Rightarrow> (world, exn, 'r listing response) prog" where
  "answer_list failed store parsed = (case parsed of
     Inl msg \<Rightarrow> ret (ErrorResponse 422 ''INVALID_REQUEST'' msg)
   | Inr p \<Rightarrow> bind (attempt (store p)) (\<lambda>res. case res of
       Inl _ \<Rightarrow> ret (ErrorResponse 500 ''INTERNAL_SERVER_ERROR'' failed)
     | Inr (rows, cnt) \<Rightarrow> ret (DataResponse 200
         \<lparr>l_data = rows, l_total = cnt, l_limit = lp_limit p, l_offset = lp_offset p\<rparr>)))"

definition list_models :: "services \<Rightarrow> (model_row list \<Rightarrow> model_row list) \<Rightarrow> query_string
    \<Rightarrow> (world, exn, model_row listing response) prog" where
  "list_models R ord q = answer_list ''failed to list models''
     (list_rows R (\<lambda>s. models (reg s)) m_status (\<lambda>m. [m_hf_repo_id m, m_display_name m]) ord) (parse_list ''search'' q)"

definition list_datasets :: "services \<Rightarrow> (dataset_row list \<Rightarrow> dataset_row list) \<Rightarrow> query_string
    \<Rightarrow> (world, exn, dataset_row listing response) prog" where
  "list_datasets R ord q = answer_list ''failed to list datasets''
     (list_rows R (\<lambda>s. datasets (reg s)) d_status (\<lambda>d. [d_name d]) ord) (parse_list ''name'' q)"

section \<open>Searching\<close>

definition plain_char :: "char \<Rightarrow> bool" where
  "plain_char c \<longleftrightarrow> c \<noteq> CHR ''%'' \<and> c \<noteq> CHR ''_'' \<and> c \<noteq> char_of (92 :: nat)"

lemma like_plain: "list_all plain_char s \<Longrightarrow> like (s @ p) t \<longleftrightarrow> (\<exists>u. t = s @ u \<and> like p u)"
proof (induction s arbitrary: t)
  case (Cons c s)
  then show ?case by (cases t) (auto simp: plain_char_def)
qed simp

lemma like_percent: "like (CHR ''%'' # p) t \<longleftrightarrow> (\<exists>a u. t = a @ u \<and> like p u)"
proof (induction t)
  case Nil
  then show ?case by simp
next
  case (Cons x t)
  show ?case
  proof
    assume "like (CHR ''%'' # p) (x # t)"
    then consider "like p (x # t)" | "like (CHR ''%'' # p) t" by auto
    then show "\<exists>a u. x # t = a @ u \<and> like p u"
      by cases (use Cons in \<open>force intro: exI [of _ "[]"] exI [of _ "x # a" for a]\<close>)+
  next
    assume "\<exists>a u. x # t = a @ u \<and> like p u"
    then show "like (CHR ''%'' # p) (x # t)"
      using Cons by (auto simp: Cons_eq_append_conv)
  qed
qed

lemma like_substring:
  assumes "list_all plain_char s"
  shows "like (search_pattern s) t \<longleftrightarrow> sublist s t"
proof -
  have "like (search_pattern s) t \<longleftrightarrow> (\<exists>a u. t = a @ u \<and> (\<exists>v. u = s @ v \<and> (\<exists>b w. v = b @ w \<and> w = [])))"
    unfolding search_pattern_def like_percent like_plain [OF assms] by (simp add: like_percent)
  then show ?thesis by (auto simp: sublist_def)
qed

lemma lower_char_plain: "plain_char (lower_char c) \<longleftrightarrow> plain_char c"
proof -
  have n: "c = char_of n \<longleftrightarrow> ord_of c = n" if "n < 256" for c and n :: nat
    using that by (metis char_of_char ord_of_def of_char_of mod_less)
  have "CHR ''%'' = char_of (37 :: nat)" "CHR ''_'' = char_of (95 :: nat)" by code_simp+
  then have e: "plain_char c \<longleftrightarrow> ord_of c \<noteq> 37 \<and> ord_of c \<noteq> 95 \<and> ord_of c \<noteq> 92" for c
    by (simp only: plain_char_def) (simp add: n)
  show ?thesis by (auto simp: e lower_char_def Let_def)
qed

lemma ilike_search:
  assumes "list_all plain_char s"
  shows "ilike t (search_pattern s) \<longleftrightarrow> sublist (lower s) (lower t)"
proof -
  have "lower_char (CHR ''%'') = CHR ''%''" by code_simp
  then have "lower (search_pattern s) = search_pattern (lower s)" by (simp add: search_pattern_def lower_def)
  moreover have "list_all plain_char (lower s)" using assms by (simp add: lower_def list_all_iff lower_char_plain)
  ultimately show ?thesis by (simp add: ilike_def like_substring)
qed

section \<open>Paging\<close>

lemma pages: "concat (map (\<lambda>k. sql_page (int n) (int (k * n)) xs) [0..<m]) = take (m * n) xs"
proof (induction m)
  case (Suc m)
  have "nat (int m * int n) = m * n" by (simp flip: of_nat_mult)
  with Suc show ?case by (simp add: sql_page_def take_add [of "m * n" n, symmetric] add.commute)
qed simp

lemma atoi_str_int: "0 \<le> i \<Longrightarrow> i < 2 ^ 63 \<Longrightarrow> atoi (str_int i) = Some i"
proof -
  assume i: "0 \<le> i" "i < 2 ^ 63"
  then have s: "str_int i = str_nat (nat i)" by (simp add: str_int_def)
  obtain c cs where c: "str_nat (nat i) = c # cs" by (cases "str_nat (nat i)") auto
  then have "c \<noteq> CHR ''-''" "c \<noteq> CHR ''+''" using str_nat_ord [of c "nat i"] by (auto simp: ord_of_def)
  moreover have "list_all go_digit (str_nat (nat i))" using str_nat_ord by (auto simp: list_all_iff go_digit_def)
  ultimately show ?thesis using i c digits_val_str_nat [of "nat i"] by (simp add: atoi_def s Let_def)
qed

lemma to_schemas_ok: "\<forall>r \<in> set rs. unmarshal_ok (r_hyperparameters r) \<Longrightarrow> to_schemas rs = Inr rs"
  by (induction rs) (simp_all add: to_schema_def)

lemma set_sql_page: "set (sql_page n k xs) \<subseteq> set xs"
  by (auto simp: sql_page_def dest: in_set_takeD in_set_dropD)

definition page_query :: "job_status \<Rightarrow> nat \<Rightarrow> nat \<Rightarrow> query_string" where
  "page_query st n k = [(''status'', status_value st), (''limit'', str_int (int n)), (''offset'', str_int (int (k * n)))]"

lemma parse_page_query:
  assumes "1 \<le> n" and "n \<le> 200" and "int (k * n) < 2 ^ 63"
  shows "parse_list_jobs (page_query st n k) =
    Inr \<lparr>lj_status = Some (status_value st), lj_limit = Some (int n), lj_offset = Some (int (k * n))\<rparr>"
proof -
  have v: "status_value st \<in> set (map status_value all_statuses)" by (cases st) (simp_all add: all_statuses_def)
  have i: "int_param ''limit'' msg (page_query st n k) = Inr (Some (int n))"
      "int_param ''offset'' msg (page_query st n k) = Inr (Some (int (k * n)))" for msg
    using assms atoi_str_int [of "int n"] atoi_str_int [of "int (k * n)"]
    by (simp_all add: int_param_def query_get_def page_query_def str_int_nonempty)
  have s: "query_get ''status'' (page_query st n k) = status_value st" "status_value st \<noteq> []"
    by (simp_all add: query_get_def page_query_def, cases st, simp_all)
  show ?thesis
    using assms v unfolding parse_list_jobs_def i s
    by (simp add: s validate_list_jobs_def list_jobs_errors_def Let_def not_less del: of_nat_mult)
qed

definition listed :: "(world, exn, 'r listing response) prog \<Rightarrow> world \<Rightarrow> 'r list" where
  "listed m w = (case fst (m w) of Inr (DataResponse _ l) \<Rightarrow> l_data l | _ \<Rightarrow> [])"


text \<open>Newest first, as the query asks.\<close>

definition newest_first :: job_order where
  "newest_first rows = sort_key (\<lambda>r. - r_created_at r) rows"


text \<open>
  A search without pattern characters lists exactly the ready models whose repository or display
  name contains it, in whatever case. (An underscore or a per cent sign in the search is a pattern
  character: a search for an underscore lists every model.)
\<close>

theorem search_models:
  assumes "sched w = []" and "list_all plain_char s" and "s \<noteq> []"
  defines "ms \<equiv> filter (\<lambda>m. m_status m = ''ready'' \<and> (sublist (lower s) (lower (m_hf_repo_id m))
      \<or> sublist (lower s) (lower (m_display_name m)))) (models (reg (sh w)))"
  shows "list_models R ord [(''search'', s)] w = (Inr (DataResponse 200
      \<lparr>l_data = take 50 (ord ms), l_total = int (length ms), l_limit = 50, l_offset = 0\<rparr>), w)
    \<and> list_models R ord [(''search'', ''_'')] w = (Inr (DataResponse 200
      \<lparr>l_data = take 50 (ord (filter (\<lambda>m. m_status m = ''ready'' \<and> (m_hf_repo_id m \<noteq> [] \<or> m_display_name m \<noteq> [])) (models (reg (sh w))))),
       l_total = int (length (filter (\<lambda>m. m_status m = ''ready'' \<and> (m_hf_repo_id m \<noteq> [] \<or> m_display_name m \<noteq> [])) (models (reg (sh w))))),
       l_limit = 50, l_offset = 0\<rparr>), w)"
proof -
  have parse: "parse_list ''search'' [(''search'', t)] = Inr \<lparr>lp_status = None, lp_search = t, lp_limit = 50, lp_offset = 0\<rparr>" for t
    by (simp add: parse_list_def query_get_def)
  have any: "ilike t (search_pattern ''_'') \<longleftrightarrow> t \<noteq> []" for t
  proof -
    have "lower (search_pattern ''_'') = [CHR ''%'', CHR ''_'', CHR ''%'']" by code_simp
    then have "ilike t (search_pattern ''_'') \<longleftrightarrow> like [CHR ''%'', CHR ''_'', CHR ''%''] (lower t)"
      by (simp add: ilike_def)
    also have "\<dots> \<longleftrightarrow> lower t \<noteq> []"
    proof (cases "lower t")
      case (Cons x u)
      then show ?thesis using like_percent [of "[]" u] by simp
    qed (simp add: lower_def)
    finally show ?thesis by (simp add: lower_def)
  qed
  have run: "list_models R ord [(''search'', t)] w = (Inr (DataResponse 200
      \<lparr>l_data = take 50 (ord (filter P (models (reg (sh w))))), l_total = int (length (filter P (models (reg (sh w))))), l_limit = 50, l_offset = 0\<rparr>), w)"
    if P: "\<And>m. P m \<longleftrightarrow> m_status m = ''ready'' \<and> (t \<noteq> [] \<longrightarrow> ilike (m_hf_repo_id m) (search_pattern t) \<or> ilike (m_display_name m) (search_pattern t))" for t P
  proof -
    have "attempt (list_rows R (\<lambda>s. models (reg s)) m_status (\<lambda>m. [m_hf_repo_id m, m_display_name m]) ord
        \<lparr>lp_status = None, lp_search = t, lp_limit = 50, lp_offset = 0\<rparr>) w
      = (Inr (Inr (take 50 (ord (filter P (models (reg (sh w))))), int (length (filter P (models (reg (sh w))))))), w)"
      by (rule attempt_Inr) (simp add: list_rows_def quiet_query [OF assms(1)] ret_apply sql_page_def flip: P)
    then show ?thesis
      by (simp add: list_models_def answer_list_def parse bind_def ret_apply)
  qed
  show ?thesis
    unfolding ms_def by (intro conjI run) (use assms(3) in \<open>auto simp: ilike_search [OF assms(2)] any\<close>)
qed

theorem search_models_witness:
  "list_models reference_services (\<lambda>ms. ms) [(''search'', ''MOD'')] (idle_world [] [] []) = (Inr (DataResponse 200
     \<lparr>l_data = sample_models, l_total = 1, l_limit = 50, l_offset = 0\<rparr>), idle_world [] [] [])"
proof -
  have "sublist (lower ''MOD'') (lower ''org/model'')" "list_all plain_char ''MOD''" by code_simp+
  then show ?thesis
    using search_models [of "idle_world [] [] []" "''MOD''" reference_services "\<lambda>ms. ms"]
    by (simp add: idle_world_def sample_models_def)
qed

end
