(* ===== verification/Api.thy ===== *)
theory Api imports Job_View Listing begin

text \<open>
  The backend as one server: the routes of \<open>backend/cmd/api/main.go\<close>, the authentication of
  \<open>handler/middleware.go\<close>, the probes of \<open>handler/health.go\<close> and the decoding of requests in
  \<open>handler/jobs.go\<close>, over the handlers of the other theories. A request's path is the list of its
  segments, and clean (Go's \<open>ServeMux\<close> redirects the others). What is outside the repository is the
  record \<open>backend_env\<close>: the UUID parser, the JSON decoder (with the limits \<open>readJSON\<close> sets), and the
  orders Postgres answers in.
\<close>

section \<open>Requests and replies\<close>

record http_request =
  rq_method :: string
  rq_path :: "string list"
  rq_email :: string
  rq_query :: query_string
  rq_body :: string

record backend_env =
  parse_uuid :: "string \<Rightarrow> uuid option"
  decode_create :: "string \<Rightarrow> string + create_request"
  decode_patch :: "string \<Rightarrow> string + string"
  job_rows_order :: job_order
  model_rows_order :: "model_row list \<Rightarrow> model_row list"
  dataset_rows_order :: "dataset_row list \<Rightarrow> dataset_row list"

datatype payload =
    JobData job_row
  | ViewData job_view
  | JobsData "job_row listing"
  | ModelsData "model_row listing"
  | DatasetsData "dataset_row listing"
  | StatusData string
  | ChecksData string string
  | TextData string

definition replying :: "('a \<Rightarrow> payload) \<Rightarrow> (world, exn, 'a response) prog \<Rightarrow> (world, exn, payload response) prog" where
  "replying f m = bind m (\<lambda>x. ret (map_response f x))"

section \<open>Handlers of decoded requests\<close>

definition post_job :: "services \<Rightarrow> backend_env \<Rightarrow> uuid \<Rightarrow> string \<Rightarrow> (world, exn, job_row response) prog" where
  "post_job R E i body = (case decode_create E body of
     Inl e \<Rightarrow> ret (ErrorResponse 400 ''INVALID_REQUEST'' (''invalid request body: '' @ e))
   | Inr req \<Rightarrow> create_job R i req)"

definition validate_job_update :: "string \<Rightarrow> string option" where
  "validate_job_update action = (if action \<noteq> ''cancel''
     then Some (''unknown action '' @ go_quote action @ ''; only '' @ go_quote ''cancel'' @ '' is supported'') else None)"

definition with_uuid :: "backend_env \<Rightarrow> string \<Rightarrow> (uuid \<Rightarrow> (world, exn, 'a response) prog) \<Rightarrow> (world, exn, 'a response) prog" where
  "with_uuid E t f = (case parse_uuid E t of
     None \<Rightarrow> ret (ErrorResponse 400 ''INVALID_REQUEST'' ''invalid job ID'')
   | Some i \<Rightarrow> f i)"

definition patch_job :: "services \<Rightarrow> backend_env \<Rightarrow> string \<Rightarrow> string \<Rightarrow> (world, exn, job_row response) prog" where
  "patch_job R E t body = with_uuid E t (\<lambda>i. case decode_patch E body of
     Inl e \<Rightarrow> ret (ErrorResponse 400 ''INVALID_REQUEST'' (''invalid request body: '' @ e))
   | Inr action \<Rightarrow> (case validate_job_update action of
       Some msg \<Rightarrow> ret (ErrorResponse 422 ''INVALID_REQUEST'' msg)
     | None \<Rightarrow> cancel_job R i))"

text \<open>The probes; both dependencies are pinged whatever the first ping says.\<close>

definition ping_text :: "exn + unit \<Rightarrow> string" where
  "ping_text r = (case r of Inl e \<Rightarrow> exn_str e | Inr _ \<Rightarrow> ''ok'')"

definition readyz :: "services \<Rightarrow> (world, exn, payload response) prog" where
  "readyz R = bind (attempt (query R (\<lambda>_. ()))) (\<lambda>db. bind (attempt (query R (\<lambda>_. ()))) (\<lambda>redis.
     ret (DataResponse (if isl db \<or> isl redis then 503 else 200) (ChecksData (ping_text db) (ping_text redis)))))"

section \<open>Routing\<close>

text \<open>A pattern for GET also matches HEAD; a path that exists for other methods only is answered with 405.\<close>

definition is_get :: "string \<Rightarrow> bool" where
  "is_get m \<longleftrightarrow> m \<in> {''GET'', ''HEAD''}"

definition not_found :: "(world, exn, payload response) prog" where
  "not_found = ret (DataResponse 404 (TextData ''404 page not found''))"

definition bad_method :: "(world, exn, payload response) prog" where
  "bad_method = ret (DataResponse 405 (TextData ''Method Not Allowed''))"

definition get_only :: "string \<Rightarrow> (world, exn, payload response) prog \<Rightarrow> (world, exn, payload response) prog" where
  "get_only m p = (if is_get m then p else bad_method)"

definition route :: "services \<Rightarrow> backend_env \<Rightarrow> uuid \<Rightarrow> http_request \<Rightarrow> (world, exn, payload response) prog" where
  "route R E new rq = (let m = rq_method rq in case rq_path rq of
     [p] \<Rightarrow>
       if p = ''healthz'' then get_only m (ret (DataResponse 200 (StatusData ''ok'')))
       else if p = ''readyz'' then get_only m (readyz R)
       else if p = ''jobs'' then
         if m = ''POST'' then replying JobData (post_job R E new (rq_body rq))
         else get_only m (replying JobsData (list_jobs R (job_rows_order E) (rq_query rq)))
       else if p = ''models'' then get_only m (replying ModelsData (list_models R (model_rows_order E) (rq_query rq)))
       else if p = ''datasets'' then get_only m (replying DatasetsData (list_datasets R (dataset_rows_order E) (rq_query rq)))
       else not_found
   | [p, t] \<Rightarrow>
       if p = ''jobs'' \<and> t \<noteq> [] then
         if m = ''PATCH'' then replying JobData (patch_job R E t (rq_body rq))
         else get_only m (replying ViewData (with_uuid E t (get_job R)))
       else not_found
   | _ \<Rightarrow> not_found)"

definition is_probe :: "string list \<Rightarrow> bool" where
  "is_probe p \<longleftrightarrow> p = [''healthz''] \<or> p = [''readyz'']"

definition serve :: "services \<Rightarrow> backend_env \<Rightarrow> uuid \<Rightarrow> http_request \<Rightarrow> (world, exn, payload response) prog" where
  "serve R E new rq = (if is_probe (rq_path rq) then route R E new rq
     else if rq_email rq = [] then ret (ErrorResponse 401 ''UNAUTHORIZED'' ''Cloudflare Access authentication required'')
     else route R E new rq)"

section \<open>Readers\<close>

text \<open>
  What holds while others act holds while this process reads: a preorder on worlds that foreign steps
  respect is respected by every program whose calls are queries.
\<close>

locale reader = state_preorder P for P :: "world \<Rightarrow> world \<Rightarrow> bool" +
  fixes R :: services
  assumes P_interfere: "P w (interfere R w)"
begin

lemma reads_query: "keeps P (query R f)"
  using P_interfere by (auto simp: keeps_def query_def call_def Let_def split: fault.split)

lemma reads_attempt: "keeps P m \<Longrightarrow> keeps P (attempt m)"
  unfolding attempt_def by (intro resp_rules)

lemma reads_sum:
  "(\<And>e. keeps P (f e)) \<Longrightarrow> (\<And>y. keeps P (g y)) \<Longrightarrow> keeps P (case x of Inl e \<Rightarrow> f e | Inr y \<Rightarrow> g y)"
  by (cases x) simp_all

lemma reads_pair: "(\<And>a b. keeps P (f a b)) \<Longrightarrow> keeps P (case x of (a, b) \<Rightarrow> f a b)"
  by (cases x) simp

lemmas reads_rules = resp_ret resp_lift resp_bind resp_seq resp_if resp_option reads_query reads_attempt reads_sum reads_pair

lemma reads_get_job: "keeps P (get_job R i)"
  unfolding get_job_def call_get_def get_job_status_def by (intro reads_rules)

lemma reads_list_jobs: "keeps P (list_jobs R ord q)"
  unfolding list_jobs_def store_list_jobs_def by (intro reads_rules)

lemma reads_list: "keeps P (answer_list msg (list_rows R table status texts ord) parsed)"
  unfolding answer_list_def list_rows_def Let_def by (intro reads_rules)

lemma reads_readyz: "keeps P (readyz R)"
  unfolding readyz_def by (intro reads_rules)

lemma reads_replying: "keeps P m \<Longrightarrow> keeps P (replying f m)"
  unfolding replying_def by (intro reads_rules)

lemma reads_with_uuid: "(\<And>i. keeps P (f i)) \<Longrightarrow> keeps P (with_uuid E t f)"
  unfolding with_uuid_def by (intro reads_rules)

lemmas handler_rules = reads_rules reads_get_job reads_list_jobs reads_list reads_readyz reads_replying reads_with_uuid

end

text \<open>The two kinds of request that may write.\<close>

definition creates :: "backend_env \<Rightarrow> http_request \<Rightarrow> create_request \<Rightarrow> bool" where
  "creates E rq req \<longleftrightarrow> rq_method rq = ''POST'' \<and> rq_path rq = [''jobs'']
     \<and> decode_create E (rq_body rq) = Inr req \<and> validate_create_job req = None"

definition cancels :: "backend_env \<Rightarrow> http_request \<Rightarrow> uuid \<Rightarrow> bool" where
  "cancels E rq i \<longleftrightarrow> rq_method rq = ''PATCH'' \<and> (\<exists>t. rq_path rq = [''jobs'', t] \<and> parse_uuid E t = Some i)
     \<and> decode_patch E (rq_body rq) = Inr ''cancel''"

context reader begin

lemma keeps_route:
  assumes "\<And>req. creates E rq req \<Longrightarrow> keeps P (create_job R new req)"
    and "\<And>i. cancels E rq i \<Longrightarrow> keeps P (cancel_job R i)"
  shows "keeps P (route R E new rq)"
proof -
  have g: "keeps P (get_only m p)" if "keeps P p" for m p
    using that by (simp add: get_only_def bad_method_def resp_ret)
  have n: "keeps P not_found" by (simp add: not_found_def resp_ret)
  have c: "keeps P (post_job R E new (rq_body rq))" if "rq_method rq = ''POST''" "rq_path rq = [''jobs'']"
  proof (cases "decode_create E (rq_body rq)")
    case (Inr req)
    then show ?thesis
      using assms(1) that by (cases "validate_create_job req")
        (auto simp: post_job_def creates_def create_job_def resp_ret)
  qed (simp add: post_job_def resp_ret)
  have u: "keeps P (patch_job R E t (rq_body rq))" if "rq_method rq = ''PATCH''" "rq_path rq = [''jobs'', t]" for t
    using assms(2) that unfolding patch_job_def with_uuid_def
    by (auto simp: cancels_def validate_job_update_def resp_ret split: option.split sum.split)
  show ?thesis
    unfolding route_def Let_def list_models_def list_datasets_def
    by (auto split: list.split intro!: g n c u handler_rules)
qed

lemma keeps_serve:
  assumes "\<And>req. rq_email rq \<noteq> [] \<Longrightarrow> creates E rq req \<Longrightarrow> keeps P (create_job R new req)"
    and "\<And>i. rq_email rq \<noteq> [] \<Longrightarrow> cancels E rq i \<Longrightarrow> keeps P (cancel_job R i)"
  shows "keeps P (serve R E new rq)"
proof -
  have "keeps P (route R E new rq)" if "is_probe (rq_path rq) \<or> rq_email rq \<noteq> []"
    using that assms by (intro keeps_route) (auto simp: creates_def cancels_def is_probe_def)
  then show ?thesis by (simp add: serve_def resp_ret)
qed

end

sublocale guarantee \<subseteq> reads: reader "\<lambda>v w. G (sh v) (sh w)" R
  by unfold_locales (rule G_interfere)

context guarantee begin

lemma resp_serve: "keeps (\<lambda>v w. G (sh v) (sh w)) (serve R E new rq)"
  by (intro reads.keeps_serve resp_create_job resp_cancel_job)

end

section \<open>Who can write\<close>

text \<open>In a quiet world a reader changes nothing at all.\<close>

definition unmoved :: "world \<Rightarrow> world \<Rightarrow> bool" where
  "unmoved v w \<longleftrightarrow> (sched v = [] \<longrightarrow> w = v)"

interpretation unmoved: reader unmoved R for R
  by unfold_locales (auto simp: unmoved_def interfere_def next_slot_def)

text \<open>
  C20: only an authenticated request writes, and only in two ways: without interference, a request that
  changes anything in the shared state carries a user, and either posts a valid job or cancels one.
\<close>

theorem writes_need_user:
  assumes "sched w = []" and "sh (snd (serve R E new rq w)) \<noteq> sh w"
  shows "rq_email rq \<noteq> [] \<and> ((\<exists>req. creates E rq req) \<or> (\<exists>i. cancels E rq i))"
proof (rule ccontr)
  assume "\<not> ?thesis"
  then have "keeps unmoved (serve R E new rq)"
    by (intro unmoved.keeps_serve) auto
  from keepsD [OF this, of w] assms show False by (simp add: unmoved_def)
qed

definition sample_env :: backend_env where
  "sample_env = \<lparr>parse_uuid = uuid_of_text, decode_create = (\<lambda>_. Inr sample_request), decode_patch = (\<lambda>b. Inr b),
     job_rows_order = newest_first, model_rows_order = (\<lambda>ms. ms), dataset_rows_order = (\<lambda>ds. ds)\<rparr>"

definition post_request :: "string \<Rightarrow> http_request" where
  "post_request user = \<lparr>rq_method = ''POST'', rq_path = [''jobs''], rq_email = user, rq_query = [], rq_body = ''{}''\<rparr>"

lemma replying_world: "snd (replying f m w) = snd (m w)"
  by (simp add: replying_def bind_def ret_apply split: prod.split sum.split)

lemma serve_post:
  "snd (serve R sample_env i (post_request (c # cs)) w) = snd (create_job R i sample_request w)"
  by (simp add: serve_def is_probe_def route_def post_request_def replying_world post_job_def sample_env_def)

theorem writes_need_user_witness:
  "sh (snd (serve reference_services sample_env 7 (post_request ''a@b'') (idle_world [] [] []))) \<noteq> sh (idle_world [] [] [])
    \<and> sh (snd (serve reference_services sample_env 7 (post_request []) (idle_world [] [] []))) = sh (idle_world [] [] [])"
proof -
  let ?w = "idle_world [] [] []"
  have "rlists (rd (sh (snd (create_job reference_services 7 sample_request ?w)))) QUEUE_KEY \<noteq> rlists (rd (sh ?w)) QUEUE_KEY"
    using create_job_quiet(1) [OF _ sample_request_valid, of ?w 7 reference_services]
    by (simp add: create_ops_lists [OF redis_server_reference])
  then have "sh (snd (serve reference_services sample_env 7 (post_request ''a@b'') ?w)) \<noteq> sh ?w"
    unfolding serve_post by metis
  moreover have "sh (snd (serve reference_services sample_env 7 (post_request []) ?w)) = sh ?w"
    using writes_need_user [of ?w reference_services sample_env 7 "post_request []"] by (auto simp: post_request_def)
  ultimately show ?thesis by simp
qed

end
