(* ===== verification/System.thy ===== *)
theory System imports Register_Props Api begin

text \<open>
  The deployment as a whole. \<open>reach\<close> is the abstract system: atomic steps of anybody, in any order.
  \<open>deployment\<close> is the program: any number of runs of workers, registration scripts and requests to
  the backend, each in any world, so with any interference and any failures. Every run of a component
  is a sequence of abstract steps, and such steps are all that the slots of a world hold; so what is
  assumed of the others in the proofs about one component is what every component does.
\<close>

section \<open>The abstract system\<close>

inductive reach :: "services \<Rightarrow> shared \<Rightarrow> shared \<Rightarrow> bool" for R s where
  start: "reach R s s"
| step: "reach R s t \<Longrightarrow> reach R s (do_op R x t)"

inductive_cases reachE: "reach R s t"

lemma reach_trans: "reach R t u \<Longrightarrow> reach R s t \<Longrightarrow> reach R s u"
  by (induction rule: reach.induct) (auto intro: reach.step)

lemma reach_iff: "reach R s t \<longleftrightarrow> (\<exists>xs. t = do_ops R xs s)"
proof
  show "reach R s t \<Longrightarrow> \<exists>xs. t = do_ops R xs s"
  proof (induction rule: reach.induct)
    case start
    show ?case by (rule exI [of _ "[]"]) simp
  next
    case (step t x)
    then obtain xs where "t = do_ops R xs s" by blast
    then have "do_op R x t = do_ops R (xs @ [x]) s" by (simp add: do_ops_append del: do_op.simps)
    then show ?case by blast
  qed
  have "reach R s (do_ops R xs s)" for xs
    by (induction xs rule: rev_induct) (auto simp: do_ops_append simp del: do_op.simps intro: reach.intros)
  then show "\<exists>xs. t = do_ops R xs s \<Longrightarrow> reach R s t" by blast
qed

interpretation steps: guarantee R "reach R" for R
  by unfold_locales (auto intro: reach.start reach.step reach_trans simp del: do_op.simps)

text \<open>What every step keeps holds of all that can be reached.\<close>

context guarantee begin

lemma G_reach: "reach R s t \<Longrightarrow> G s t"
  by (induction rule: reach.induct) (auto intro: G_refl G_trans G_op simp del: do_op.simps)

lemma resp_register_model: "keeps (\<lambda>v w. G (sh v) (sh w)) (register_model_main R mi env repo rv display def)"
  unfolding register_model_main_def split_def
  by (intro prog_rules resp_call) (simp add: G_op del: do_op.simps)

end

lemma reach_keeps:
  assumes "reach R s t"
  shows "table_life (jobs s) (jobs t)" and "clock s \<le> clock t"
    and "jobs_wf s \<Longrightarrow> jobs_wf t" and "registry_ok (reg s) \<Longrightarrow> registry_ok (reg t)"
  using advance.G_reach [OF assms] wf.G_reach [OF assms] reg.G_reach [OF assms]
  by (simp_all add: jobs_advance_def keeps_wf_def keeps_registry_def)

section \<open>The deployment\<close>

inductive deployment :: "services \<Rightarrow> shared \<Rightarrow> shared \<Rightarrow> bool" for R s where
  idle: "deployment R s s"
| time: "deployment R s t \<Longrightarrow> deployment R s (do_op R (Tick n) t)"
| worker: "deployment R s (sh v) \<Longrightarrow> executor_contract R exec \<Longrightarrow> worker_run R cfg exec v = Some (r, w)
    \<Longrightarrow> deployment R s (sh w)"
| dataset: "deployment R s (sh v) \<Longrightarrow> deployment R s (sh (snd (register_dataset R sha env name p description v)))"
| model: "deployment R s (sh v) \<Longrightarrow> deployment R s (sh (snd (register_model_main R mi env repo rv display def v)))"
| request: "deployment R s (sh v) \<Longrightarrow> deployment R s (sh (snd (serve R E new rq v)))"

lemma worker_reach:
  assumes "executor_contract R exec" and "worker_run R cfg exec v = Some (r, w)"
  shows "reach R (sh v) (sh w)"
  using executor_contract.worker_run_keeps [OF assms(1) steps.state_preorder_axioms
      executor_contract.resp_iteration(2) [OF assms(1) steps.guarantee_axioms]
      executor_contract.resp_iteration(1) [OF assms(1) steps.guarantee_axioms] assms(2)] by simp

lemma deployment_reach:
  assumes "deployment R s t"
  shows "reach R s t"
  using assms
proof (induction rule: deployment.induct)
  case (worker v exec cfg r w)
  then show ?case using worker_reach reach_trans by blast
next
  case (dataset v sha env name p description)
  then show ?case using keepsD [OF steps.resp_register_dataset] reach_trans by blast
next
  case (model v mi env repo rv display def)
  then show ?case using keepsD [OF steps.resp_register_model] reach_trans by blast
next
  case (request v E new rq)
  then show ?case using keepsD [OF steps.resp_serve] reach_trans by blast
qed (simp_all add: reach.intros del: do_op.simps)

text \<open>
  C2: the deployment refines the abstract system, and keeps its invariants: whatever components run,
  with whatever interference and failures, the shared state they lead to is reached by atomic steps;
  each job has only moved along its life cycle, time did not run backwards, and the job table and
  the registry tables are as well-formed as they were.
\<close>

theorem deployment_refines_steps:
  assumes "deployment R s t"
  shows "(\<exists>xs. t = do_ops R xs s) \<and> table_life (jobs s) (jobs t) \<and> clock s \<le> clock t
    \<and> (jobs_wf s \<longrightarrow> jobs_wf t) \<and> (registry_ok (reg s) \<longrightarrow> registry_ok (reg t))"
  using deployment_reach [OF assms] reach_keeps reach_iff by blast

definition patch_request :: "uuid \<Rightarrow> http_request" where
  "patch_request i = \<lparr>rq_method = ''PATCH'', rq_path = [''jobs'', uuid_str i], rq_email = ''a@b'', rq_query = [], rq_body = ''cancel''\<rparr>"

lemma serve_patch: "snd (serve R sample_env new (patch_request i) w) = snd (cancel_job R i w)"
proof -
  have "uuid_str i \<noteq> []" by (simp add: uuid_str_def Let_def)
  then show ?thesis
    by (simp add: serve_def is_probe_def route_def patch_request_def replying_world patch_job_def with_uuid_def
        validate_job_update_def sample_env_def Let_def)
qed

theorem deployment_refines_steps_witness:
  "jobs_wf (sh (snd (cancel_job reference_services 7 (snd (create_job reference_services 7 sample_request (idle_world [] [] []))))))"
proof -
  let ?w = "idle_world [] [] []"
  have "deployment reference_services (sh ?w) (sh (snd (serve reference_services sample_env 7 (patch_request 7)
      (snd (serve reference_services sample_env 7 (post_request ''a@b'') ?w)))))"
    by (intro deployment.request deployment.idle)
  from deployment_refines_steps [OF this] show ?thesis by (simp add: jobs_wf_def rows_wf_def serve_post serve_patch)
qed

section \<open>Cancelling\<close>

text \<open>
  C19: a cancellation that is answered with success is final: the job's row is cancelled and its id no
  longer in the queue; whatever anybody does from then on, the row stays as it is; and any worker
  that still claims the id, from wherever it comes, acknowledges it and does nothing else.
\<close>

theorem cancel_is_final:
  assumes "redis_server R" and "sched w = []" and "job_at i (jobs (sh w)) = Some r" and "r_status r \<in> {QUEUED, RUNNING}"
    and "unmarshal_ok (r_hyperparameters r)"
  shows "\<exists>row w'. cancel_job R i w = (Inr (DataResponse 200 row), w') \<and> r_status row = CANCELLED
    \<and> uuid_str i \<notin> set (rlists (rd (sh w')) QUEUE_KEY)
    \<and> (\<forall>t. deployment R (sh w') t \<longrightarrow> job_at i (jobs t) = Some row)
    \<and> (\<forall>v j raw exec. deployment R (sh w') (sh v) \<and> sched v = [] \<and> uuid_of_text raw = Some i
          \<and> row_to_job row = Inr j \<longrightarrow> process R exec raw v = (Inr (), after R [Ack raw] v))"
proof -
  let ?row = "r\<lparr>r_status := CANCELLED, r_updated_at := clock (sh w)\<rparr>" and ?w = "after R [BackendCancel i, BackendDequeue i] w"
  note c = cancel_quiet [OF assms(2-5)]
  have q: "uuid_str i \<notin> set (rlists (rd (sh ?w)) QUEUE_KEY)"
    by (simp add: redis_server.dequeue_lists [OF assms(1)])
  have fin: "job_at i (jobs t) = Some ?row" if d: "deployment R (sh ?w) t" for t
  proof -
    obtain r' where "job_at i (jobs t) = Some r'" "life\<^sup>*\<^sup>* ?row r'"
      using reach_keeps(1) [OF deployment_reach [OF d]] c(2) by (elim table_lifeD)
    then show ?thesis using life_star_terminal [of ?row r'] by (simp add: terminal_status_def)
  qed
  have "process R exec raw v = (Inr (), after R [Ack raw] v)"
    if "deployment R (sh ?w) (sh v)" "sched v = []" "uuid_of_text raw = Some i" "row_to_job ?row = Inr j" for v j raw exec
  proof (rule process_terminal [OF that(3,2)])
    show "db_get_job i (jobs (sh v)) = Inr (Some j)" using fin [OF that(1)] that(4) by (simp add: db_get_job_def)
    show "job_state j \<in> TERMINAL_STATUSES" using row_to_job_fields [OF that(4)] by (simp add: TERMINAL_STATUSES_def)
  qed
  with c q fin show ?thesis by (intro exI [of _ ?row] exI [of _ ?w]) simp
qed

theorem cancel_is_final_witness:
  "\<exists>row w'. cancel_job reference_services 1 (idle_world [sample_row 1 QUEUED ''ds/a.csv''] [uuid_str 1] []) = (Inr (DataResponse 200 row), w')
    \<and> rlists (rd (sh w')) QUEUE_KEY = [] \<and> job_at 1 (jobs (sh (snd (create_job reference_services 7 sample_request w')))) = Some row"
proof -
  let ?w = "idle_world [sample_row 1 QUEUED ''ds/a.csv''] [uuid_str 1] []"
  obtain row w' where c: "cancel_job reference_services 1 ?w = (Inr (DataResponse 200 row), w')"
      "\<forall>t. deployment reference_services (sh w') t \<longrightarrow> job_at 1 (jobs t) = Some row"
    using cancel_is_final [OF redis_server_reference, of ?w 1 "sample_row 1 QUEUED ''ds/a.csv''"] by (auto simp: sample_row_ok)
  have "deployment reference_services (sh w') (sh (snd (serve reference_services sample_env 7 (post_request ''a@b'') w')))"
    by (intro deployment.request deployment.idle)
  then have "deployment reference_services (sh w') (sh (snd (create_job reference_services 7 sample_request w')))"
    by (simp only: serve_post)
  moreover have "w' = after reference_services [BackendCancel 1, BackendDequeue 1] ?w"
    using cancel_quiet(1) [of ?w 1 "sample_row 1 QUEUED ''ds/a.csv''" reference_services] c(1) by (simp add: sample_row_ok)
  then have "rlists (rd (sh w')) QUEUE_KEY = []"
    by (simp add: redis_server.dequeue_lists [OF redis_server_reference])
  ultimately show ?thesis using c by blast
qed

end
