(* ===== verification/End_To_End.thy ===== *)
theory End_To_End imports Production System begin

text \<open>
  One job through the whole system: posted to the backend, claimed by a worker, trained, uploaded,
  closed, and read back through the backend. Each component's behaviour is the one its own theory
  proves; here the steps they make on the shared state are put in sequence.
\<close>

section \<open>The steps of the executor on the rest of the state\<close>

lemma put_ops:
  "\<forall>x \<in> set ups. is_put x \<Longrightarrow> jobs (do_ops R ups s) = jobs s \<and> reg (do_ops R ups s) = reg s
     \<and> rd (do_ops R ups s) = rd s \<and> clock (do_ops R ups s) = clock s"
  by (induction ups arbitrary: s) (auto simp: is_put_def split: op.splits)

lemma beats_kept:
  "reg (do_ops R (concat (replicate n (beat_ops i))) s) = reg s"
  "clock (do_ops R (concat (replicate n (beat_ops i))) s) = clock s"
  by (induction n arbitrary: s) (simp_all add: do_ops_append beat_ops_def)

lemma beats_lists: "redis_server R \<Longrightarrow> rlists (rd (do_ops R (concat (replicate n (beat_ops i))) s)) = rlists (rd s)"
  by (induction n arbitrary: s) (simp_all add: do_ops_append beat_ops_def redis_server.publish_lists)

lemma beats_row:
  "job_at i (jobs s) = Some r \<Longrightarrow> r_status r = RUNNING \<Longrightarrow>
     job_at i (jobs (do_ops R (concat (replicate (Suc n) (beat_ops i))) s)) = Some (r\<lparr>r_updated_at := clock s\<rparr>)"
proof (induction n arbitrary: s r)
  case 0
  then show ?case using job_at_id [OF 0(1)] by (simp add: beat_ops_jobs)
next
  case (Suc n)
  let ?s = "do_ops R (beat_ops i) s" and ?r = "r\<lparr>r_updated_at := clock s\<rparr>"
  have "job_at i (jobs ?s) = Some ?r" "clock ?s = clock s"
    using Suc.prems job_at_id [OF Suc.prems(1)] by (simp_all add: beat_ops_jobs)
  with Suc.IH [of ?s ?r] Suc.prems(2) show ?case by (simp add: do_ops_append)
qed

section \<open>Requests\<close>

lemma serve_creates:
  "creates E rq req \<Longrightarrow> rq_email rq \<noteq> [] \<Longrightarrow> serve R E i rq w = replying JobData (create_job R i req) w"
  by (simp add: creates_def serve_def is_probe_def route_def post_job_def)

definition get_request :: "string \<Rightarrow> string \<Rightarrow> http_request" where
  "get_request user t = \<lparr>rq_method = ''GET'', rq_path = [''jobs'', t], rq_email = user, rq_query = [], rq_body = []\<rparr>"

lemma serve_get:
  "user \<noteq> [] \<Longrightarrow> t \<noteq> [] \<Longrightarrow> parse_uuid E t = Some i \<Longrightarrow>
     serve R E new (get_request user t) w = replying ViewData (get_job R i) w"
  by (simp add: serve_def is_probe_def route_def get_request_def get_only_def is_get_def with_uuid_def)

section \<open>The worker's part\<close>

text \<open>The claim and the start of the job at the head of the queue.\<close>

lemma claim_quiet:
  assumes "redis_server R" and "sched v = []" and "0 < n" and "rlists (rd (sh v)) QUEUE_KEY = xs @ [x]"
  shows "rq_claim R n v = (Inr (Some x), after R [Claim] v)"
  using assms(2-4) by (simp add: rq_claim_def claim_once_def call_quiet after_def on_redis_def redis_server.claim_list [OF assms(1,4)])

lemma claimed_and_started:
  assumes R: "redis_server R" and q: "rlists (rd (sh v)) QUEUE_KEY = xs @ [uuid_str i]"
    and row: "job_at i (jobs (sh v)) = Some r" "r_status r = QUEUED"
    and s: "s = after R (start_ops i) (after R [Claim] v)"
  shows "sched s = sched v" "disk s = disk v" "clock (sh s) = clock (sh v)" "objects (sh s) = objects (sh v)"
    and "job_at i (jobs (sh s)) = Some (r\<lparr>r_status := RUNNING, r_updated_at := clock (sh v)\<rparr>)"
    and "rlists (rd (sh s)) QUEUE_KEY = xs"
    and "rlists (rd (sh s)) PROCESSING_KEY = uuid_str i # rlists (rd (sh v)) PROCESSING_KEY"
  using row job_at_id [OF row(1)]
  by (simp_all add: s after_disk start_ops_jobs redis_server.start_ops_lists [OF R] redis_server.claim_list [OF R q])
    (simp_all add: start_ops_def)

text \<open>Beats and uploads touch nothing but the time stamp of the row and the objects.\<close>

lemma beaten_and_uploaded:
  assumes R: "redis_server R" and row: "job_at i (jobs s) = Some r" "r_status r = RUNNING" "r_updated_at r = clock s"
    and puts: "\<forall>x \<in> set ups. is_put x" and t: "t = do_ops R (concat (replicate n (beat_ops i)) @ ups) s"
  shows "job_at i (jobs t) = Some r" "clock t = clock s" "rlists (rd t) = rlists (rd s)"
proof -
  let ?b = "do_ops R (concat (replicate n (beat_ops i))) s"
  have "t = do_ops R ups ?b" by (simp only: t do_ops_append)
  note p = put_ops [OF puts, of R ?b, folded this]
  have same: "r\<lparr>r_updated_at := clock s\<rparr> = r" using row(3) by simp
  have "job_at i (jobs ?b) = Some r"
  proof (cases n)
    case 0
    then show ?thesis using row(1) by simp
  next
    case (Suc k)
    show ?thesis using beats_row [OF row(1,2), of R k] unfolding same Suc .
  qed
  then show "job_at i (jobs t) = Some r" "clock t = clock s" "rlists (rd t) = rlists (rd s)"
    using p by (simp_all del: replicate.simps add: beats_kept beats_lists [OF R])
qed

text \<open>A job at the head of the queue that a worker takes from its claim to its acknowledgement.\<close>

lemma iteration_completes:
  assumes R: "redis_server R" "s3_server (s3 R)" and v: "sched v = []" "0 < queue_block_seconds cfg"
      "clock (sh v) - t0 < seconds (reconcile_interval_seconds cfg)"
    and q: "rlists (rd (sh v)) QUEUE_KEY = xs @ [uuid_str i]"
    and row: "job_at i (jobs (sh v)) = Some r" "r_status r = QUEUED" "row_to_job r = Inr j"
    and gates: "preflight (sh v) j = Inr m" "validate_dataset_format (dataset_path j) = Inr (Some f)"
    and data: "s3_get (s3 R) bucket (dataset_path j) (objects (sh v)) = Some bytes"
    and cache: "\<forall>u. disk u = disk v \<longrightarrow> mc_ensure hub cache m u = (Inr mp, u\<lparr>disk := d0\<rparr>)"
    and disk: "disk_wf d0" "fresh_tmp root tmp" "plain root" "is_dir d0 root"
    and train: "trainer_writes train R j k Q content" "Q \<noteq> {}" "\<forall>q \<in> Q. good_rel q"
  shows "\<exists>w. worker_iteration R cfg (caching_executor R bucket hub cache tmp train) t0 v = (Inr t0, w)
    \<and> sched w = [] \<and> clock (sh w) = clock (sh v)
    \<and> job_at i (jobs (sh w)) = Some (r\<lparr>r_status := COMPLETED, r_checkpoint_path := Some (checkpoint_prefix j), r_updated_at := clock (sh v)\<rparr>)
    \<and> rlists (rd (sh w)) QUEUE_KEY = xs
    \<and> rlists (rd (sh w)) PROCESSING_KEY = filter (\<lambda>x. x \<noteq> uuid_str i) (rlists (rd (sh v)) PROCESSING_KEY)
    \<and> (\<forall>b key. s3_get (s3 R) b key (objects (sh w)) =
         (if b = bucket \<and> key \<in> (\<lambda>q. checkpoint_prefix j @ posix_text q) ` Q
          then Some (content (path_parts (drop (length (checkpoint_prefix j)) key)))
          else s3_get (s3 R) b key (objects (sh v))))
    \<and> (\<forall>x. plain x \<longrightarrow> file_at (disk w) x = file_at d0 x)"
proof -
  have i: "job_id j = i" using row_to_job_fields [OF row(3)] job_at_id [OF row(1)] by simp
  let ?c = "after R [Claim] v" and ?exec = "caching_executor R bucket hub cache tmp train"
    and ?b = "beat_ops i" and ?pre = "checkpoint_prefix j"
  note claim = claim_quiet [OF R(1) v(1,2) q]
  have same: "preflight (sh ?c) j = Inr m" using gates(1) by (simp add: preflight_def)
  define s where "s = after R (start_ops i) ?c"
  note s = claimed_and_started [OF R(1) q row(1,2) s_def]
  have sq: "sched s = []" using s(1) v(1) by simp
  have mc: "mc_ensure hub cache m s = (Inr mp, s\<lparr>disk := d0\<rparr>)" using cache s(2) by simp
  have ds: "s3_get (s3 R) bucket (dataset_path j) (objects (sh s)) = Some bytes" using data s(4) by simp
  obtain d ups where x: "?exec j m (heartbeat_of R j) s
        = (Inr ?pre, (after R (concat (replicate (Suc (Suc k)) ?b) @ ups) s)\<lparr>disk := d\<rparr>)"
      "\<forall>x \<in> set ups. is_put x"
      "\<forall>b key. s3_get (s3 R) b key (objects (do_ops R (concat (replicate (Suc (Suc k)) ?b) @ ups) (sh s))) =
         (if b = bucket \<and> key \<in> (\<lambda>q. ?pre @ posix_text q) ` Q
          then Some (content (path_parts (drop (length ?pre) key)))
          else s3_get (s3 R) b key (objects (sh s)))"
      "\<forall>x. plain x \<longrightarrow> file_at d x = file_at d0 x"
    using caching_chain [OF R(2) sq mc disk gates(2) ds train, unfolded i] by blast
  define u where "u = (after R (concat (replicate (Suc (Suc k)) ?b) @ ups) s)\<lparr>disk := d\<rparr>"
  have sh_u: "sh u = do_ops R (concat (replicate (Suc (Suc k)) ?b) @ ups) (sh s)" "sched u = []" "disk u = d"
    using sq by (simp_all add: u_def after_def del: replicate.simps)
  have u: "job_at i (jobs (sh u)) = Some (r\<lparr>r_status := RUNNING, r_updated_at := clock (sh v)\<rparr>)"
      "clock (sh u) = clock (sh v)" "rlists (rd (sh u)) = rlists (rd (sh s))"
    using beaten_and_uploaded [OF R(1) s(5) _ _ x(2) sh_u(1)] s(3) by simp_all
  let ?w = "after R (complete_ops (uuid_str i) i ?pre) u"
  have proc: "process R ?exec (uuid_str i) ?c = (Inr (), ?w)"
    by (rule process_completes [where exec = ?exec and w = ?c and w' = u and R = R, OF uuid_of_text_uuid_str _ _ _ same x(1) [folded u_def, unfolded s_def]])
      (use v(1) row sh_u(2) in \<open>simp_all add: db_get_job_def active_status row_to_job_fields [OF row(3)]\<close>)
  have w: "clock (sh ?w) = clock (sh v)" "sched ?w = []" "disk ?w = d" "objects (sh ?w) = objects (sh u)"
    using u(2) sh_u(2,3) by (simp_all add: complete_ops_def after_disk)
  have "worker_iteration R cfg ?exec t0 v = (Inr t0, ?w)"
    using v(3) w(1) by (simp add: worker_iteration_code bind_def seq_def claim proc monotonic_apply ret_apply)
  moreover have "job_at i (jobs (sh ?w)) = Some (r\<lparr>r_status := COMPLETED, r_checkpoint_path := Some ?pre, r_updated_at := clock (sh v)\<rparr>)"
    using u(1,2) job_at_id [OF row(1)] by (simp add: complete_ops_jobs)
  moreover have "rlists (rd (sh ?w)) QUEUE_KEY = xs"
      "rlists (rd (sh ?w)) PROCESSING_KEY = filter (\<lambda>x. x \<noteq> uuid_str i) (rlists (rd (sh v)) PROCESSING_KEY)"
    using u(3) s(6,7) by (simp_all add: redis_server.complete_ops_lists [OF R(1)])
  ultimately show ?thesis using w x(3,4) s(4) sh_u(1) by (intro exI [of _ ?w]) (simp del: replicate.simps)
qed

lemma marshal_preflight:
  "row_to_job (created_row i req now) = Inr j \<Longrightarrow> job_id j = i \<and> base_model j = cr_base_model req \<and> dataset_path j = cr_dataset_path req"
  using row_to_job_fields [of "created_row i req now" j] by (simp add: created_row_def)

text \<open>What a later request for a completed job answers, whatever has been done since.\<close>

lemma completed_view:
  assumes "job_at i (jobs s) = Some fin" and "r_status fin = COMPLETED" and "unmarshal_ok (r_hyperparameters fin)"
    and "deployment R s (sh u)" and "sched u = []" "parse_uuid E t = Some i" "t \<noteq> []" "user \<noteq> []"
  shows "serve R E new (get_request user t) u = (Inr (DataResponse 200 (ViewData (row_view fin))), u)"
proof -
  obtain r' where "job_at i (jobs (sh u)) = Some r'" "life\<^sup>*\<^sup>* fin r'"
    using reach_keeps(1) [OF deployment_reach [OF assms(4)]] assms(1) by (elim table_lifeD)
  then have "job_at i (jobs (sh u)) = Some fin"
    using life_star_terminal [of fin r'] assms(2) by (simp add: terminal_status_def)
  then have "get_job R i u = (Inr (DataResponse 200 (view_of R i fin (sh u))), u)"
    by (rule get_job_quiet [OF assms(5)]) (rule assms(3))
  then show ?thesis
    unfolding serve_get [OF assms(8,7,6)]
    by (simp add: replying_def bind_def ret_apply view_of_terminal is_active_status_def assms(2))
qed

text \<open>A posted job some time later.\<close>

lemma posted:
  assumes R: "redis_server R" and w: "sched w = []" "creates E rq req" "rq_email rq \<noteq> []" "i \<notin> set (map r_id (jobs (sh w)))"
      "unmarshal_ok (marshal_hyperparameters req)" "rlists (rd (sh w)) QUEUE_KEY = []"
    and v: "sh v = do_op R (Tick n) (sh (snd (serve R E i rq w)))"
  shows "serve R E i rq w = (Inr (DataResponse 201 (JobData (created_row i req (clock (sh w))))), after R (create_ops i req) w)"
    and "rlists (rd (sh v)) QUEUE_KEY = [] @ [uuid_str i]" "job_at i (jobs (sh v)) = Some (created_row i req (clock (sh w)))"
    and "objects (sh v) = objects (sh w)" "reg (sh v) = reg (sh w)"
proof -
  let ?w1 = "after R (create_ops i req) w"
  have valid: "validate_create_job req = None" using w(2) by (simp add: creates_def)
  note c = create_job_quiet [OF w(1) valid w(4), of R]
  show run: "serve R E i rq w = (Inr (DataResponse 201 (JobData (created_row i req (clock (sh w))))), ?w1)"
    unfolding serve_creates [OF w(2,3)] by (simp add: replying_def bind_def c(1) ret_apply)
  have "sh v = (sh ?w1)\<lparr>clock := clock (sh ?w1) + int n\<rparr>" using v run by simp
  then show "rlists (rd (sh v)) QUEUE_KEY = [] @ [uuid_str i]" "job_at i (jobs (sh v)) = Some (created_row i req (clock (sh w)))"
      "objects (sh v) = objects (sh w)" "reg (sh v) = reg (sh w)"
    using c(2) w(6) by (simp_all add: create_ops_lists [OF R]) (simp_all add: create_ops_def)
qed

text \<open>
  C3: a job goes through the whole system. An authenticated valid request is answered with the queued job;
  a worker's next iteration, at any later time, claims it, trains it with a trainer that writes the files
  \<open>Q\<close>, and closes it: the row is completed with its checkpoint path, the id is in neither list, the object
  store has exactly those files below the path as new objects, the worker's disk is as it was once the
  model was cached, and from then on every authenticated request for the job is answered with that row.
\<close>

theorem job_end_to_end:
  assumes R: "redis_server R" "s3_server (s3 R)"
    and post: "sched w = []" "creates E rq req" "rq_email rq \<noteq> []" "i \<notin> set (map r_id (jobs (sh w)))"
      "unmarshal_ok (marshal_hyperparameters req)" "rlists (rd (sh w)) QUEUE_KEY = []"
    and worker: "sh v = do_op R (Tick n) (sh (snd (serve R E i rq w)))" "sched v = []" "0 < queue_block_seconds cfg"
      "clock (sh v) - t0 < seconds (reconcile_interval_seconds cfg)"
    and gates: "validate_dataset_format (cr_dataset_path req) = Inr (Some f)"
      "db_get_model_meta (cr_base_model req) (models (reg (sh w))) = Some m"
      "check_model_fits (param_count m) (vram_hint m) = Inr ()"
    and data: "s3_get (s3 R) bucket (cr_dataset_path req) (objects (sh w)) = Some bytes"
    and cache: "\<forall>u. disk u = disk v \<longrightarrow> mc_ensure hub cache m u = (Inr mp, u\<lparr>disk := d0\<rparr>)"
    and disk: "disk_wf d0" "fresh_tmp root tmp" "plain root" "is_dir d0 root"
    and train: "\<forall>j. job_id j = i \<longrightarrow> trainer_writes train R j k Q content" "Q \<noteq> {}" "\<forall>q \<in> Q. good_rel q"
  defines "pre \<equiv> ''checkpoints/'' @ uuid_str i @ ''/''"
  shows "\<exists>row w1 w2 fin. serve R E i rq w = (Inr (DataResponse 201 (JobData row)), w1) \<and> r_status row = QUEUED
    \<and> worker_iteration R cfg (caching_executor R bucket hub cache tmp train) t0 v = (Inr t0, w2)
    \<and> job_at i (jobs (sh w2)) = Some fin
    \<and> fin = row\<lparr>r_status := COMPLETED, r_checkpoint_path := Some pre, r_updated_at := clock (sh v)\<rparr>
    \<and> rlists (rd (sh w2)) QUEUE_KEY = [] \<and> uuid_str i \<notin> set (rlists (rd (sh w2)) PROCESSING_KEY)
    \<and> (\<forall>b key. s3_get (s3 R) b key (objects (sh w2)) =
         (if b = bucket \<and> key \<in> (\<lambda>q. pre @ posix_text q) ` Q
          then Some (content (path_parts (drop (length pre) key))) else s3_get (s3 R) b key (objects (sh w))))
    \<and> (\<forall>x. plain x \<longrightarrow> file_at (disk w2) x = file_at d0 x)
    \<and> (\<forall>u t user new. deployment R (sh w2) (sh u) \<and> sched u = [] \<and> parse_uuid E t = Some i \<and> t \<noteq> [] \<and> user \<noteq> []
         \<longrightarrow> serve R E new (get_request user t) u = (Inr (DataResponse 200 (ViewData (row_view fin))), u))"
proof -
  let ?row = "created_row i req (clock (sh w))" and ?w1 = "after R (create_ops i req) w"
  note run = posted(1) [OF R(1) post worker(1)] and v = posted(2-) [OF R(1) post worker(1)]
  obtain j where j: "row_to_job ?row = Inr j" using created_row_decodes by blast
  note jf = marshal_preflight [OF j]
  have pf: "preflight (sh v) j = Inr m"
    using gates by (simp add: preflight_def gate_def jf v(4))
  have pre: "checkpoint_prefix j = pre" by (simp add: checkpoint_prefix_def pre_def jf)
  have q: "r_status ?row = QUEUED" "r_hyperparameters ?row = marshal_hyperparameters req" by (simp_all add: created_row_def)
  have ds: "validate_dataset_format (dataset_path j) = Inr (Some f)"
      "s3_get (s3 R) bucket (dataset_path j) (objects (sh v)) = Some bytes" "trainer_writes train R j k Q content"
    using gates(1) data train(1) by (simp_all add: jf v(3))
  let ?fin = "?row\<lparr>r_status := COMPLETED, r_checkpoint_path := Some pre, r_updated_at := clock (sh v)\<rparr>"
  obtain w2 where w2: "worker_iteration R cfg (caching_executor R bucket hub cache tmp train) t0 v = (Inr t0, w2)"
      "job_at i (jobs (sh w2)) = Some ?fin" "rlists (rd (sh w2)) QUEUE_KEY = []"
      "rlists (rd (sh w2)) PROCESSING_KEY = filter (\<lambda>x. x \<noteq> uuid_str i) (rlists (rd (sh v)) PROCESSING_KEY)"
      "\<forall>b key. s3_get (s3 R) b key (objects (sh w2)) =
         (if b = bucket \<and> key \<in> (\<lambda>q. pre @ posix_text q) ` Q
          then Some (content (path_parts (drop (length pre) key))) else s3_get (s3 R) b key (objects (sh w)))"
      "\<forall>x. plain x \<longrightarrow> file_at (disk w2) x = file_at d0 x"
    using iteration_completes [OF R worker(2-4) v(1,2) q(1) j pf ds(1,2) cache disk ds(3) train(2,3), unfolded pre v(3)]
    by blast
  have view: "serve R E new (get_request user t) u = (Inr (DataResponse 200 (ViewData (row_view ?fin))), u)"
    if "deployment R (sh w2) (sh u)" "sched u = []" "parse_uuid E t = Some i" "t \<noteq> []" "user \<noteq> []" for u t user new
    by (rule completed_view [OF w2(2) _ _ that]) (use post(5) q(2) in simp_all)
  have "uuid_str i \<notin> set (rlists (rd (sh w2)) PROCESSING_KEY)" by (simp add: w2(4))
  then show ?thesis
    using run q(1) w2(1-3,5,6) view by (intro exI [of _ ?row] exI [of _ ?w1] exI [of _ w2] exI [of _ ?fin]) blast
qed

definition posting_world :: world where
  "posting_world = (idle_world [] [] [])\<lparr>sh := (sh (idle_world [] [] []))\<lparr>objects := [((''crucible'', ''ds/a.csv''), ''3'')]\<rparr>\<rparr>"

definition training_world :: world where
  "training_world = \<lparr>sh = do_op reference_services (Tick 5000000)
       (sh (snd (serve reference_services sample_env 7 (post_request ''a@b'') posting_world))),
     sched = [], disk = sample_disk, stop = False\<rparr>"

lemma posting_world_simps:
  "sched posting_world = []" "jobs (sh posting_world) = []" "rlists (rd (sh posting_world)) QUEUE_KEY = []"
  "models (reg (sh posting_world)) = sample_models" "objects (sh posting_world) = [((''crucible'', ''ds/a.csv''), ''3'')]"
  by (simp_all add: posting_world_def idle_world_def)

lemma sample_post: "creates sample_env (post_request ''a@b'') sample_request" "rq_email (post_request ''a@b'') \<noteq> []"
  by (simp_all add: creates_def post_request_def sample_env_def sample_request_valid)

lemma sample_unmarshals: "unmarshal_ok (marshal_hyperparameters sample_request)"
  by (simp add: sample_request_def marshal_hyperparameters_def unmarshal_ok_def field_ok_def Let_def lower_def lower_char_def
    ord_of_def float64_ok_def int64_ok_def float64_limit_def json_of_float_def)

lemma stub_adapter_path: "posix_text [''STUB_ADAPTER.txt''] = ''STUB_ADAPTER.txt''" "good_rel [''STUB_ADAPTER.txt'']"
  by (simp_all add: posix_text_def good_rel_def good_name_def dot_def dotdot_def slash_def)

lemma sample_disk_facts: "disk_wf sample_disk" "plain [''tmp'']" "is_dir sample_disk [''tmp'']"
  using sample_ready by (simp_all add: disk_wf_def sample_disk_def plain_def dotdot_def ready_dir_def)

theorem job_end_to_end_witness:
  "\<exists>w2 fin. worker_iteration reference_services sample_config
        (caching_executor reference_services ''crucible'' local_hub ''/cache'' (long_tmp [''tmp'']) stub_train)
        (clock (sh training_world)) training_world = (Inr (clock (sh training_world)), w2)
    \<and> job_at 7 (jobs (sh w2)) = Some fin \<and> r_status fin = COMPLETED
    \<and> s3_get (s3 reference_services) ''crucible'' (''checkpoints/'' @ uuid_str 7 @ ''/'' @ ''STUB_ADAPTER.txt'') (objects (sh w2))
        = Some (''stub adapter for job '' @ uuid_str 7 @ ''; replaced by the Phase 5C trainer'' @ [CHR 0x0A])
    \<and> (\<exists>u. serve reference_services sample_env 8 (get_request ''a@b'' (uuid_str 7)) (w2\<lparr>sched := []\<rparr>)
        = (Inr (DataResponse 200 (ViewData (row_view fin))), u))"
proof -
  let ?w = posting_world and ?v = training_world and ?n = "''STUB_ADAPTER.txt''"
  let ?m = "\<lparr>hf_repo_id = ''org/model'', revision = ''main'', param_count = Some 7000000000, vram_hint = Some ''comfortable''\<rparr>"
  note w = posting_world_simps
  have v: "sh ?v = do_op reference_services (Tick 5000000) (sh (snd (serve reference_services sample_env 7 (post_request ''a@b'') ?w)))"
      "sched ?v = []" "0 < queue_block_seconds sample_config"
      "clock (sh ?v) - clock (sh ?v) < seconds (reconcile_interval_seconds sample_config)"
    by (simp_all add: training_world_def sample_config_def seconds_def)
  have g: "validate_dataset_format (cr_dataset_path sample_request) = Inr (Some ''csv'')" by code_simp
  have m: "db_get_model_meta (cr_base_model sample_request) (models (reg (sh ?w))) = Some ?m" "check_model_fits (param_count ?m) (vram_hint ?m) = Inr ()"
    by (simp_all add: w(4) sample_models_def db_get_model_meta_def sample_request_def check_model_fits_def TIGHT_MAX_PARAMS_def)
  have o: "s3_get (s3 reference_services) ''crucible'' (cr_dataset_path sample_request) (objects (sh ?w)) = Some ''3''"
    by (simp add: reference_get w(5) sample_request_def)
  have c: "\<forall>u. disk u = disk ?v \<longrightarrow> mc_ensure local_hub ''/cache'' ?m u
      = (Inr (str_path (''/cache'' @ ''/models--'' @ ''org/model'' @ ''/snapshots/'' @ ''main'')), u\<lparr>disk := sample_disk\<rparr>)"
    by (auto simp: mc_ensure_def local_hub_def try_except_def bind_def ret_apply training_world_def)
  have t: "\<forall>j. job_id j = 7 \<longrightarrow> trainer_writes stub_train reference_services j 1 {[?n]}
      (\<lambda>_. ''stub adapter for job '' @ uuid_str 7 @ ''; replaced by the Phase 5C trainer'' @ [CHR 0x0A])"
    using stub_train_writes by metis
  have q: "{[?n]} \<noteq> {}" "\<forall>q \<in> {[?n]}. good_rel q" by (simp_all add: stub_adapter_path)
  have id: "parse_uuid sample_env (uuid_str 7) = Some 7" "uuid_str 7 \<noteq> []"
    by (simp add: sample_env_def) (simp add: uuid_str_def Let_def)
  obtain row w2 where e: "worker_iteration reference_services sample_config
        (caching_executor reference_services ''crucible'' local_hub ''/cache'' (long_tmp [''tmp'']) stub_train)
        (clock (sh ?v)) ?v = (Inr (clock (sh ?v)), w2)"
      "job_at 7 (jobs (sh w2)) = Some (row\<lparr>r_status := COMPLETED, r_checkpoint_path := Some (''checkpoints/'' @ uuid_str 7 @ ''/''), r_updated_at := clock (sh ?v)\<rparr>)"
      "\<forall>b key. s3_get (s3 reference_services) b key (objects (sh w2)) =
         (if b = ''crucible'' \<and> key \<in> (\<lambda>q. (''checkpoints/'' @ uuid_str 7 @ ''/'') @ posix_text q) ` {[?n]}
          then Some (''stub adapter for job '' @ uuid_str 7 @ ''; replaced by the Phase 5C trainer'' @ [CHR 0x0A])
          else s3_get (s3 reference_services) b key (objects (sh ?w)))"
      "\<forall>u t user new. deployment reference_services (sh w2) (sh u) \<and> sched u = [] \<and> parse_uuid sample_env t = Some 7 \<and> t \<noteq> [] \<and> user \<noteq> []
         \<longrightarrow> serve reference_services sample_env new (get_request user t) u = (Inr (DataResponse 200 (ViewData (row_view
           (row\<lparr>r_status := COMPLETED, r_checkpoint_path := Some (''checkpoints/'' @ uuid_str 7 @ ''/''), r_updated_at := clock (sh ?v)\<rparr>)))), u)"
    using job_end_to_end [OF redis_server_reference reference_services_s3 w(1) sample_post _ sample_unmarshals w(3) v g m o c
      sample_disk_facts(1) long_tmp_fresh sample_disk_facts(2,3) t q]
    unfolding w(2) by (simp del: posix_text_def) blast
  have "serve reference_services sample_env 8 (get_request ''a@b'' (uuid_str 7)) (w2\<lparr>sched := []\<rparr>) = (Inr (DataResponse 200 (ViewData (row_view
           (row\<lparr>r_status := COMPLETED, r_checkpoint_path := Some (''checkpoints/'' @ uuid_str 7 @ ''/''), r_updated_at := clock (sh ?v)\<rparr>)))), w2\<lparr>sched := []\<rparr>)"
    using e(4) id by (simp add: deployment.idle)
  then show ?thesis using e(1-3) stub_adapter_path(1) by (intro exI [of _ w2]) auto
qed

end
