(* ===== verification/Job_Contract.thy ===== *)
theory Job_Contract imports Repository begin

text \<open>
  \<open>crucible_worker/repository.py\<close>: what the docstrings of the protocol \<open>JobRepository\<close> promise to the
  processor and the reconciler. \<open>phase\<close> is the abstract state of one
  job: what a client of the protocol can rely on, and no more (when a finished job was last touched is
  left open). The contract is stated for good states, in which no call fails, and for jobs that exist.
  \<open>PostgresJobRepository\<close> (\<open>db.py\<close>) meets it; so does the fake the tests use (\<open>Fake_Repository\<close>).
\<close>

section \<open>The abstract job\<close>

text \<open>The times are those of the creation and of the last sign of life.\<close>

datatype phase = Queued int int | Running int int | Completed string | Failed string | Cancelled

fun start_phase :: "int \<Rightarrow> phase \<Rightarrow> phase" where
  "start_phase now (Queued c u) = Running c now"
| "start_phase now p = p"

fun beat_phase :: "int \<Rightarrow> phase \<Rightarrow> phase" where
  "beat_phase now (Running c u) = Running c now"
| "beat_phase now p = p"

fun complete_phase :: "string \<Rightarrow> phase \<Rightarrow> phase" where
  "complete_phase path (Running c u) = Completed path"
| "complete_phase path p = p"

fun fail_phase :: "string \<Rightarrow> phase \<Rightarrow> phase" where
  "fail_phase msg (Running c u) = Failed msg"
| "fail_phase msg p = p"

fun reset_phase :: "int \<Rightarrow> phase \<Rightarrow> phase" where
  "reset_phase now (Running c u) = Queued c now"
| "reset_phase now p = p"

fun stale_phase :: "int \<Rightarrow> phase \<Rightarrow> bool" where
  "stale_phase cutoff (Running c u) = (u < cutoff)"
| "stale_phase cutoff p = False"

fun orphan_phase :: "int \<Rightarrow> phase \<Rightarrow> bool" where
  "orphan_phase cutoff (Queued c u) = (c < cutoff \<and> u < cutoff)"
| "orphan_phase cutoff p = False"

definition phase_of :: "job_status \<Rightarrow> int \<Rightarrow> int \<Rightarrow> string option \<Rightarrow> string option \<Rightarrow> phase" where
  "phase_of st c u ckpt err = (case st of
     QUEUED \<Rightarrow> Queued c u | RUNNING \<Rightarrow> Running c u
   | COMPLETED \<Rightarrow> Completed (case ckpt of None \<Rightarrow> [] | Some p \<Rightarrow> p)
   | FAILED \<Rightarrow> Failed (case err of None \<Rightarrow> [] | Some m \<Rightarrow> m)
   | CANCELLED \<Rightarrow> Cancelled)"

definition job_phase :: "job \<Rightarrow> phase" where
  "job_phase j = phase_of (job_state j) (created_at j) (updated_at j) (checkpoint_path j) (error_message j)"

definition row_phase :: "job_row \<Rightarrow> phase" where
  "row_phase r = phase_of (r_status r) (r_created_at r) (r_updated_at r) (r_checkpoint_path r) (r_error_message r)"

text \<open>The calls that change a job, and what each makes of its phase.\<close>

datatype job_call = Start uuid | Beat uuid | Complete uuid string | Fail uuid string | Reset uuid

fun call_target :: "job_call \<Rightarrow> uuid" where
  "call_target (Start i) = i"
| "call_target (Beat i) = i"
| "call_target (Complete i p) = i"
| "call_target (Fail i m) = i"
| "call_target (Reset i) = i"

fun call_phase :: "int \<Rightarrow> job_call \<Rightarrow> phase \<Rightarrow> phase" where
  "call_phase now (Start i) = start_phase now"
| "call_phase now (Beat i) = beat_phase now"
| "call_phase now (Complete i p) = complete_phase p"
| "call_phase now (Fail i m) = fail_phase m"
| "call_phase now (Reset i) = reset_phase now"

fun do_call :: "'s job_repository \<Rightarrow> job_call \<Rightarrow> ('s, exn, unit) prog" where
  "do_call repo (Start i) = jr_mark_running repo i"
| "do_call repo (Beat i) = jr_heartbeat repo i"
| "do_call repo (Complete i p) = jr_mark_completed repo i p"
| "do_call repo (Fail i m) = jr_mark_failed repo i m"
| "do_call repo (Reset i) = jr_reset_to_queued repo i"

definition after_call :: "int \<Rightarrow> job_call \<Rightarrow> (uuid \<Rightarrow> phase option) \<Rightarrow> uuid \<Rightarrow> phase option" where
  "after_call now c ph = ph(call_target c := map_option (call_phase now c) (ph (call_target c)))"

section \<open>The contract\<close>

locale job_repository_contract =
  fixes repo :: "'s job_repository"
    and good :: "'s \<Rightarrow> bool"
    and phases :: "'s \<Rightarrow> uuid \<Rightarrow> phase option"
    and allowed :: "'s \<Rightarrow> string \<Rightarrow> model_meta option"
    and now :: "'s \<Rightarrow> int"
  assumes get_job: "good s \<Longrightarrow> \<exists>j. jr_get_job repo i s = (Inr j, s) \<and> map_option job_phase j = phases s i
      \<and> (\<forall>x. j = Some x \<longrightarrow> job_id x = i)"
    and get_model_meta: "good s \<Longrightarrow> jr_get_model_meta repo m s = (Inr (allowed s m), s)"
    and call: "good s \<Longrightarrow> phases s (call_target c) \<noteq> None \<Longrightarrow>
      \<exists>s'. do_call repo c s = (Inr (), s') \<and> good s' \<and> phases s' = after_call (now s) c (phases s)
        \<and> allowed s' = allowed s \<and> now s' = now s"
    and find_stale_running: "good s \<Longrightarrow> \<exists>is. jr_find_stale_running repo n s = (Inr is, s) \<and> distinct is
      \<and> set is = {i. \<exists>p. phases s i = Some p \<and> stale_phase (now s - seconds n) p}"
    and find_orphan_queued: "good s \<Longrightarrow> \<exists>is. jr_find_orphan_queued repo n s = (Inr is, s) \<and> distinct is
      \<and> set is = {i. \<exists>p. phases s i = Some p \<and> orphan_phase (now s - seconds n) p}"
begin

text \<open>A sequence of calls is the sequence of its changes.\<close>

lemma calls:
  assumes "good s" and "\<forall>c \<in> set cs. phases s (call_target c) \<noteq> None"
  shows "\<exists>s'. for_each (do_call repo) cs s = (Inr (), s') \<and> good s' \<and> now s' = now s \<and> allowed s' = allowed s
    \<and> phases s' = fold (after_call (now s)) cs (phases s)"
  using assms
proof (induction cs arbitrary: s)
  case Nil
  then show ?case by (simp add: ret_apply)
next
  case (Cons c cs)
  then obtain s1 where s1: "do_call repo c s = (Inr (), s1)" "good s1" "phases s1 = after_call (now s) c (phases s)"
      "allowed s1 = allowed s" "now s1 = now s"
    using call [of s c] by auto
  have "\<forall>d \<in> set cs. phases s1 (call_target d) \<noteq> None"
    using Cons.prems(2) by (auto simp: s1(3) after_call_def)
  from Cons.IH [OF s1(2) this] show ?case
    using s1 by (auto simp: seq_def bind_def)
qed

end

section \<open>Postgres meets the contract\<close>

definition decodable :: "job_row \<Rightarrow> bool" where
  "decodable r = (case row_to_job r of Inl _ \<Rightarrow> False | Inr _ \<Rightarrow> True)"

definition good_world :: "world \<Rightarrow> bool" where
  "good_world w \<longleftrightarrow> sched w = [] \<and> distinct (map r_id (jobs (sh w))) \<and> list_all decodable (jobs (sh w))"

definition world_phases :: "world \<Rightarrow> uuid \<Rightarrow> phase option" where
  "world_phases w i = map_option row_phase (job_at i (jobs (sh w)))"

lemma row_to_job_phase: "row_to_job r = Inr j \<Longrightarrow> job_phase j = row_phase r"
  by (auto simp: row_to_job_def Let_def job_phase_def row_phase_def split: sum.splits)

lemma decodable_update:
  "decodable (r\<lparr>r_status := st\<rparr>) = decodable r" "decodable (r\<lparr>r_updated_at := t\<rparr>) = decodable r"
  "decodable (r\<lparr>r_checkpoint_path := p\<rparr>) = decodable r" "decodable (r\<lparr>r_error_message := m\<rparr>) = decodable r"
  by (simp_all add: decodable_def row_to_job_def Let_def split: sum.split)

lemma decodable_statements:
  assumes "list_all decodable rows"
  shows "list_all decodable (db_mark_running t i rows)" "list_all decodable (db_heartbeat t i rows)"
    "list_all decodable (db_mark_completed t i p rows)" "list_all decodable (db_mark_failed t i m rows)"
    "list_all decodable (db_reset_to_queued t i rows)"
  using assms by (auto simp: db_update_defs sql_update_def list_all_iff decodable_update)

lemma row_phase_statements:
  "row_phase (if r_id r = i \<and> r_status r = QUEUED then r\<lparr>r_status := RUNNING, r_updated_at := t\<rparr> else r)
     = (if r_id r = i then start_phase t (row_phase r) else row_phase r)"
  "row_phase (if r_id r = i \<and> r_status r = RUNNING then r\<lparr>r_updated_at := t\<rparr> else r)
     = (if r_id r = i then beat_phase t (row_phase r) else row_phase r)"
  "row_phase (if r_id r = i \<and> r_status r = RUNNING
       then r\<lparr>r_status := COMPLETED, r_checkpoint_path := Some p, r_updated_at := t\<rparr> else r)
     = (if r_id r = i then complete_phase p (row_phase r) else row_phase r)"
  "row_phase (if r_id r = i \<and> r_status r = RUNNING
       then r\<lparr>r_status := FAILED, r_error_message := Some m, r_updated_at := t\<rparr> else r)
     = (if r_id r = i then fail_phase m (row_phase r) else row_phase r)"
  "row_phase (if r_id r = i \<and> r_status r = RUNNING then r\<lparr>r_status := QUEUED, r_updated_at := t\<rparr> else r)
     = (if r_id r = i then reset_phase t (row_phase r) else row_phase r)"
  by (cases "r_status r"; simp add: row_phase_def phase_of_def)+

lemma after_call_rows:
  "after_call t c (\<lambda>i. map_option row_phase (job_at i rows)) j =
     map_option (\<lambda>r. if r_id r = call_target c then call_phase t c (row_phase r) else row_phase r) (job_at j rows)"
  using job_at_id [of j rows] by (cases "job_at j rows") (auto simp: after_call_def)

lemma postgres_call:
  assumes "good_world w"
  shows "\<exists>w'. do_call (postgres_repository R) c w = (Inr (), w') \<and> good_world w'
    \<and> world_phases w' = after_call (clock (sh w)) c (world_phases w)
    \<and> reg (sh w') = reg (sh w) \<and> clock (sh w') = clock (sh w)"
  using assms
  by (cases c) (simp_all add: postgres_repository_def repo_defs quiet_perform good_world_def decodable_statements
      world_phases_def [abs_def] option.map_comp o_def fun_eq_iff after_call_rows row_phase_statements
      cong: if_cong)

lemma found_ids:
  assumes "distinct (map r_id rows)" and "\<And>r. r \<in> set rows \<Longrightarrow> P r \<longleftrightarrow> Q (row_phase r)"
  shows "distinct (map r_id (filter P rows))"
    and "set (map r_id (filter P rows)) = {i. \<exists>p. map_option row_phase (job_at i rows) = Some p \<and> Q p}"
proof -
  show "distinct (map r_id (filter P rows))" using assms(1) by (simp add: distinct_map_filter)
  show "set (map r_id (filter P rows)) = {i. \<exists>p. map_option row_phase (job_at i rows) = Some p \<and> Q p}"
  proof (intro set_eqI iffI)
    fix i assume "i \<in> set (map r_id (filter P rows))"
    then obtain r where "r \<in> set rows" "P r" "i = r_id r" by auto
    then show "i \<in> {i. \<exists>p. map_option row_phase (job_at i rows) = Some p \<and> Q p}"
      using job_at_distinct [OF assms(1)] assms(2) by auto
  next
    fix i assume "i \<in> {i. \<exists>p. map_option row_phase (job_at i rows) = Some p \<and> Q p}"
    then obtain r where r: "job_at i rows = Some r" "Q (row_phase r)" by auto
    then show "i \<in> set (map r_id (filter P rows))"
      using job_at_mem [OF r(1)] job_at_id [OF r(1)] assms(2) by auto
  qed
qed

interpretation postgres: job_repository_contract "postgres_repository R" good_world world_phases
    "\<lambda>w m. db_get_model_meta m (models (reg (sh w)))" "\<lambda>w. clock (sh w)" for R
proof (unfold_locales, goal_cases)
  case (1 w i)
  show ?case
  proof (cases "job_at i (jobs (sh w))")
    case None
    then show ?thesis using 1
      by (simp add: good_world_def postgres_repository_def repo_get_job_def bind_def query_quiet db_get_job_def lift_sum_apply world_phases_def)
  next
    case (Some r)
    then have "decodable r" using 1 job_at_mem [OF Some] by (simp add: good_world_def list_all_iff)
    then obtain j where "row_to_job r = Inr j" by (auto simp: decodable_def split: sum.splits)
    then show ?thesis using 1 Some row_to_job_phase [of r j] row_to_job_fields [of r j] job_at_id [OF Some]
      by (simp add: good_world_def postgres_repository_def repo_get_job_def bind_def query_quiet db_get_job_def lift_sum_apply world_phases_def)
  qed
next
  case (2 w m)
  then show ?case by (simp add: good_world_def postgres_repository_def repo_get_model_meta_def query_quiet)
next
  case (3 w c)
  then show ?case using postgres_call [of w R c] by fastforce
next
  case (4 w n)
  have "is_stale_running (clock (sh w)) n r = stale_phase (clock (sh w) - seconds n) (row_phase r)" for r
    by (cases "r_status r") (simp_all add: is_stale_running_def row_phase_def phase_of_def)
  then show ?case using 4 found_ids [of "jobs (sh w)" "is_stale_running (clock (sh w)) n"]
    by (simp add: good_world_def postgres_repository_def repo_find_stale_running_def query_quiet db_find_stale_running_def world_phases_def)
next
  case (5 w n)
  have "is_orphan_candidate (clock (sh w)) n r = orphan_phase (clock (sh w) - seconds n) (row_phase r)" for r
    by (cases "r_status r") (simp_all add: is_orphan_candidate_def row_phase_def phase_of_def)
  then show ?case using 5 found_ids [of "jobs (sh w)" "is_orphan_candidate (clock (sh w)) n"]
    by (simp add: good_world_def postgres_repository_def repo_find_orphan_queued_def query_quiet db_find_orphan_queued_def world_phases_def)
qed

end
