(* ===== verification/Fake_Repository.thy ===== *)
theory Fake_Repository imports Job_Contract Processor_Props begin

text \<open>
  \<open>FakeJobRepository\<close> of \<open>worker/tests/conftest.py\<close>, the in-memory repository the tests of the processor
  and the reconciler run on: a dictionary of jobs, one of models, and a log of the calls. It meets the
  same contract as Postgres, so what a test observes of the phases of jobs is what production does.
\<close>

record fake_repo =
  fk_jobs :: "(uuid \<times> job) list"
  fk_models :: "(string \<times> model_meta) list"
  fk_calls :: "(string \<times> uuid) list"
  fk_clock :: int

text \<open>A method logs its call, then looks the job up, then changes it in place.\<close>

definition fake_change :: "string \<Rightarrow> (int \<Rightarrow> job \<Rightarrow> job) \<Rightarrow> uuid \<Rightarrow> (fake_repo, exn, unit) prog" where
  "fake_change name f i s =
     (let s1 = s\<lparr>fk_calls := fk_calls s @ [(name, i)]\<rparr> in
      case map_of (fk_jobs s) i of
        None \<Rightarrow> (Inl (KeyError (uuid_str i)), s1)
      | Some _ \<Rightarrow> (Inr (), s1\<lparr>fk_jobs := map (\<lambda>(k, j). (k, if k = i then f (fk_clock s) j else j)) (fk_jobs s)\<rparr>))"

definition fake_start :: "int \<Rightarrow> job \<Rightarrow> job" where
  "fake_start now j = (if job_state j = QUEUED then j\<lparr>job_state := RUNNING, updated_at := now\<rparr> else j)"

definition fake_beat :: "int \<Rightarrow> job \<Rightarrow> job" where
  "fake_beat now j = (if job_state j = RUNNING then j\<lparr>updated_at := now\<rparr> else j)"

definition fake_complete :: "string \<Rightarrow> int \<Rightarrow> job \<Rightarrow> job" where
  "fake_complete path now j = (if job_state j = RUNNING then j\<lparr>job_state := COMPLETED, checkpoint_path := Some path\<rparr> else j)"

definition fake_fail :: "string \<Rightarrow> int \<Rightarrow> job \<Rightarrow> job" where
  "fake_fail msg now j = (if job_state j = RUNNING then j\<lparr>job_state := FAILED, error_message := Some msg\<rparr> else j)"

definition fake_reset :: "int \<Rightarrow> job \<Rightarrow> job" where
  "fake_reset now j = (if job_state j = RUNNING then j\<lparr>job_state := QUEUED, updated_at := now\<rparr> else j)"

definition fake_find :: "(int \<Rightarrow> job \<Rightarrow> bool) \<Rightarrow> int \<Rightarrow> (fake_repo, exn, uuid list) prog" where
  "fake_find P n s = (Inr (map fst (filter (\<lambda>(k, j). P (fk_clock s - seconds n) j) (fk_jobs s))), s)"

definition fake_repository :: "fake_repo job_repository" where
  "fake_repository = \<lparr>
     jr_get_job = (\<lambda>i s. (Inr (map_of (fk_jobs s) i), s)),
     jr_get_model_meta = (\<lambda>m s. (Inr (map_of (fk_models s) m), s)),
     jr_mark_running = fake_change ''mark_running'' fake_start,
     jr_heartbeat = fake_change ''heartbeat'' fake_beat,
     jr_mark_completed = (\<lambda>i path. fake_change ''mark_completed'' (fake_complete path) i),
     jr_mark_failed = (\<lambda>i msg. fake_change ''mark_failed'' (fake_fail msg) i),
     jr_reset_to_queued = fake_change ''reset_to_queued'' fake_reset,
     jr_find_stale_running = fake_find (\<lambda>cutoff j. job_state j = RUNNING \<and> updated_at j < cutoff),
     jr_find_orphan_queued = fake_find (\<lambda>cutoff j. job_state j = QUEUED \<and> created_at j < cutoff \<and> updated_at j < cutoff)\<rparr>"

section \<open>The fake meets the contract\<close>

definition good_fake :: "fake_repo \<Rightarrow> bool" where
  "good_fake s \<longleftrightarrow> distinct (map fst (fk_jobs s)) \<and> list_all (\<lambda>(k, j). job_id j = k) (fk_jobs s)"

definition fake_phases :: "fake_repo \<Rightarrow> uuid \<Rightarrow> phase option" where
  "fake_phases s i = map_option job_phase (map_of (fk_jobs s) i)"

lemma map_of_change: "map_of (map (\<lambda>(k, j). (k, if k = i then f j else j)) kvs) x = map_option (\<lambda>j. if x = i then f j else j) (map_of kvs x)"
  by (induction kvs) auto

lemma fake_change_ok:
  assumes "good_fake s" and "map_of (fk_jobs s) (call_target c) \<noteq> None"
    and "\<And>j. job_id (f (fk_clock s) j) = job_id j" and "\<And>j. job_phase (f (fk_clock s) j) = call_phase (fk_clock s) c (job_phase j)"
  shows "\<exists>s'. fake_change name f (call_target c) s = (Inr (), s') \<and> good_fake s'
    \<and> fake_phases s' = after_call (fk_clock s) c (fake_phases s) \<and> fk_models s' = fk_models s \<and> fk_clock s' = fk_clock s"
proof -
  define kvs where "kvs = map (\<lambda>(k, j). (k, if k = call_target c then f (fk_clock s) j else j)) (fk_jobs s)"
  have k: "map fst kvs = map fst (fk_jobs s)" by (auto simp: kvs_def)
  have "list_all (\<lambda>(k, j). job_id j = k) kvs"
    using assms(1,3) by (auto simp: kvs_def good_fake_def list_all_iff)
  then have "good_fake (s\<lparr>fk_calls := fk_calls s @ [(name, call_target c)], fk_jobs := kvs\<rparr>)"
    using assms(1) k by (simp add: good_fake_def)
  moreover have "map_option job_phase (map_of kvs i) = after_call (fk_clock s) c (fake_phases s) i" for i
    by (cases "map_of (fk_jobs s) i") (auto simp: kvs_def map_of_change after_call_def fake_phases_def assms(4))
  ultimately show ?thesis
    using assms(2) by (auto simp: fake_change_def kvs_def fake_phases_def [abs_def] fun_eq_iff)
qed

lemmas fake_job_defs = fake_start_def fake_beat_def fake_complete_def fake_fail_def fake_reset_def

lemma fake_phase_changes:
  "job_phase (fake_start t j) = start_phase t (job_phase j)" "job_phase (fake_beat t j) = beat_phase t (job_phase j)"
  "job_phase (fake_complete p t j) = complete_phase p (job_phase j)" "job_phase (fake_fail m t j) = fail_phase m (job_phase j)"
  "job_phase (fake_reset t j) = reset_phase t (job_phase j)"
  by (cases "job_state j"; simp add: job_phase_def phase_of_def fake_job_defs)+

lemma fake_found:
  assumes "good_fake s" and "\<And>j. P (fk_clock s - seconds n) j = Q (job_phase j)"
  shows "\<exists>is. fake_find P n s = (Inr is, s) \<and> distinct is \<and> set is = {i. \<exists>p. fake_phases s i = Some p \<and> Q p}"
proof -
  let ?is = "map fst (filter (\<lambda>(k, j). P (fk_clock s - seconds n) j) (fk_jobs s))"
  have d: "distinct (map fst (fk_jobs s))" using assms(1) by (simp add: good_fake_def)
  then have "distinct ?is" by (simp add: distinct_map_filter)
  moreover have "set ?is = {i. \<exists>p. fake_phases s i = Some p \<and> Q p}"
    using d by (force simp: fake_phases_def assms(2))
  ultimately show ?thesis by (simp add: fake_find_def)
qed

lemma fake_call:
  "\<exists>name f. do_call fake_repository c = fake_change name f (call_target c)
     \<and> (\<forall>t j. job_id (f t j) = job_id j \<and> job_phase (f t j) = call_phase t c (job_phase j))"
proof -
  have i: "job_id (fake_start t j) = job_id j" "job_id (fake_beat t j) = job_id j" "job_id (fake_complete p t j) = job_id j"
      "job_id (fake_fail m t j) = job_id j" "job_id (fake_reset t j) = job_id j" for t j p m
    by (simp_all add: fake_job_defs)
  show ?thesis
    by (cases c; fastforce simp: fake_repository_def i fake_phase_changes)
qed

interpretation fake: job_repository_contract fake_repository good_fake fake_phases "\<lambda>s m. map_of (fk_models s) m" fk_clock
proof (unfold_locales, goal_cases)
  case (1 s i)
  then show ?case
    by (auto simp: fake_repository_def fake_phases_def good_fake_def list_all_iff dest!: map_of_SomeD)
next
  case (2 s m)
  then show ?case by (simp add: fake_repository_def)
next
  case (3 s c)
  then have "map_of (fk_jobs s) (call_target c) \<noteq> None" by (simp add: fake_phases_def)
  moreover obtain name f where f: "do_call fake_repository c = fake_change name f (call_target c)"
      "\<forall>t j. job_id (f t j) = job_id j \<and> job_phase (f t j) = call_phase t c (job_phase j)"
    using fake_call by blast
  ultimately show ?case using fake_change_ok [of s c f name] 3(1) by auto
next
  case (4 s n)
  have "(job_state j = RUNNING \<and> updated_at j < fk_clock s - seconds n) = stale_phase (fk_clock s - seconds n) (job_phase j)" for j
    by (cases "job_state j") (simp_all add: job_phase_def phase_of_def)
  then show ?case using fake_found [OF 4, of "\<lambda>cutoff j. job_state j = RUNNING \<and> updated_at j < cutoff"] by (simp add: fake_repository_def)
next
  case (5 s n)
  have "(job_state j = QUEUED \<and> created_at j < fk_clock s - seconds n \<and> updated_at j < fk_clock s - seconds n)
      = orphan_phase (fk_clock s - seconds n) (job_phase j)" for j
    by (cases "job_state j") (simp_all add: job_phase_def phase_of_def)
  then show ?case using fake_found [OF 5, of "\<lambda>cutoff j. job_state j = QUEUED \<and> created_at j < cutoff \<and> updated_at j < cutoff"]
    by (simp add: fake_repository_def)
qed

section \<open>Postgres and the fake side by side\<close>

text \<open>
  The repository of the tests simulates the one in production: from states that agree on the phases of
  the jobs and on the time, the same calls on jobs that exist succeed on both and lead to states that agree
  again, on every job that is read, and on what is stale and what may be an orphan for every age.
\<close>

theorem fake_simulates_postgres:
  assumes "good_world w" and "good_fake f" and "world_phases w = fake_phases f" and "clock (sh w) = fk_clock f"
    and "\<forall>c \<in> set cs. world_phases w (call_target c) \<noteq> None"
  shows "\<exists>w' f'. for_each (do_call (postgres_repository R)) cs w = (Inr (), w')
    \<and> for_each (do_call fake_repository) cs f = (Inr (), f') \<and> world_phases w' = fake_phases f'
    \<and> (\<forall>i. \<exists>a b. jr_get_job (postgres_repository R) i w' = (Inr a, w') \<and> jr_get_job fake_repository i f' = (Inr b, f')
         \<and> map_option job_phase a = map_option job_phase b)
    \<and> (\<forall>n. \<exists>xs ys. jr_find_stale_running (postgres_repository R) n w' = (Inr xs, w')
         \<and> jr_find_stale_running fake_repository n f' = (Inr ys, f') \<and> mset xs = mset ys)
    \<and> (\<forall>n. \<exists>xs ys. jr_find_orphan_queued (postgres_repository R) n w' = (Inr xs, w')
         \<and> jr_find_orphan_queued fake_repository n f' = (Inr ys, f') \<and> mset xs = mset ys)"
proof -
  obtain w' where w': "for_each (do_call (postgres_repository R)) cs w = (Inr (), w')" "good_world w'"
      "clock (sh w') = clock (sh w)" "world_phases w' = fold (after_call (clock (sh w))) cs (world_phases w)"
    using postgres.calls [OF assms(1,5), of R] by blast
  obtain f' where f': "for_each (do_call fake_repository) cs f = (Inr (), f')" "good_fake f'"
      "fk_clock f' = fk_clock f" "fake_phases f' = fold (after_call (fk_clock f)) cs (fake_phases f)"
    using fake.calls [OF assms(2), of cs] assms(3,5) by auto
  have same: "world_phases w' = fake_phases f'" "clock (sh w') = fk_clock f'"
    using w' f' assms(3,4) by simp_all
  have m: "mset xs = mset ys" if "distinct xs" "distinct ys" "set xs = set ys" for xs ys :: "uuid list"
    using that by (simp add: set_eq_iff_mset_eq_distinct)
  have "\<exists>a b. jr_get_job (postgres_repository R) i w' = (Inr a, w') \<and> jr_get_job fake_repository i f' = (Inr b, f')
      \<and> map_option job_phase a = map_option job_phase b" for i
    using postgres.get_job [OF w'(2), of R i] fake.get_job [OF f'(2), of i] same(1) by auto
  moreover have "\<exists>xs ys. jr_find_stale_running (postgres_repository R) n w' = (Inr xs, w')
      \<and> jr_find_stale_running fake_repository n f' = (Inr ys, f') \<and> mset xs = mset ys" for n
    using postgres.find_stale_running [OF w'(2), of R n] fake.find_stale_running [OF f'(2), of n] same
    by (auto intro!: m)
  moreover have "\<exists>xs ys. jr_find_orphan_queued (postgres_repository R) n w' = (Inr xs, w')
      \<and> jr_find_orphan_queued fake_repository n f' = (Inr ys, f') \<and> mset xs = mset ys" for n
    using postgres.find_orphan_queued [OF w'(2), of R n] fake.find_orphan_queued [OF f'(2), of n] same
    by (auto intro!: m)
  ultimately show ?thesis using w'(1) f'(1) same(1) by blast
qed

definition sample_fake :: fake_repo where
  "sample_fake = \<lparr>fk_jobs = [(1, sample_job 1 QUEUED ''ds/a.csv'')], fk_models = [], fk_calls = [], fk_clock = 100\<rparr>"

theorem fake_simulates_postgres_witness:
  "\<exists>w' f'. for_each (do_call (postgres_repository reference_services)) [Start 1, Complete 1 ''checkpoints/1/'']
        (sample_world [sample_row 1 QUEUED ''ds/a.csv''] []) = (Inr (), w')
    \<and> for_each (do_call fake_repository) [Start 1, Complete 1 ''checkpoints/1/''] sample_fake = (Inr (), f')
    \<and> world_phases w' 1 = fake_phases f' 1"
proof -
  let ?w = "sample_world [sample_row 1 QUEUED ''ds/a.csv''] []" and ?cs = "[Start 1, Complete 1 ''checkpoints/1/'']"
  have r: "row_to_job (sample_row 1 QUEUED ''ds/a.csv'') = Inr (sample_job 1 QUEUED ''ds/a.csv'')"
    using sample_get_job [of 1 QUEUED "''ds/a.csv''" "[]"] by (simp add: db_get_job_def split: sum.splits)
  have g: "good_world ?w" by (simp add: good_world_def decodable_def r)
  have f: "good_fake sample_fake" by (simp add: good_fake_def sample_fake_def)
  have p: "world_phases ?w = fake_phases sample_fake"
    using row_to_job_phase [OF r] by (auto simp: fun_eq_iff world_phases_def fake_phases_def sample_fake_def job_at_def)
  have "\<forall>c \<in> set ?cs. world_phases ?w (call_target c) \<noteq> None" by (simp add: world_phases_def)
  from fake_simulates_postgres [OF g f p _ this, of reference_services] show ?thesis
    by (auto simp: sample_fake_def)
qed

end
