(* ===== verification/Worker_Contract.thy ===== *)
theory Worker_Contract imports Job_Contract Processor_Spec Reconciler begin

text \<open>
  What the processor and the reconciler do over any collaborators that keep their contracts. A \<open>board\<close> is
  the abstract state all of them share: the phases and the specifications of the jobs, the ids that are
  pending and in flight, the allow-list and the time. \<open>processed\<close> and \<open>swept\<close> say what a job's processing
  and a sweep make of a board; the locale proves it once, and is interpreted on the production
  collaborators here and on the fakes of the tests in \<open>Test_Bench\<close>.
\<close>

section \<open>Boards\<close>

record board =
  bd_phases :: "uuid \<Rightarrow> phase option"
  bd_specs :: "uuid \<Rightarrow> (string \<times> string) option"
  bd_pending :: "string multiset"
  bd_flying :: "string multiset"
  bd_allowed :: "string \<Rightarrow> model_meta option"
  bd_now :: int

definition call_board :: "job_call \<Rightarrow> board \<Rightarrow> board" where
  "call_board c b = b\<lparr>bd_phases := after_call (bd_now b) c (bd_phases b)\<rparr>"

definition ack_board :: "string \<Rightarrow> board \<Rightarrow> board" where
  "ack_board raw b = b\<lparr>bd_flying := filter_mset (\<lambda>x. x \<noteq> raw) (bd_flying b)\<rparr>"

definition requeue_board :: "string \<Rightarrow> board \<Rightarrow> board" where
  "requeue_board raw b = b\<lparr>bd_pending := add_mset raw (bd_pending b), bd_flying := filter_mset (\<lambda>x. x \<noteq> raw) (bd_flying b)\<rparr>"

text \<open>Processing an id, with an executor that ends job \<open>i\<close> in \<open>v i\<close>.\<close>

fun finished :: "phase \<Rightarrow> bool" where
  "finished (Queued c u) = False"
| "finished (Running c u) = False"
| "finished p = True"

definition outcome :: "(uuid \<Rightarrow> exn + string) \<Rightarrow> uuid \<Rightarrow> exn + model_meta \<Rightarrow> job_call" where
  "outcome v i g = (case g of
     Inl e \<Rightarrow> Fail i (failure_message e)
   | Inr m \<Rightarrow> (case v i of Inl e \<Rightarrow> Fail i (failure_message e) | Inr ckpt \<Rightarrow> Complete i ckpt))"

definition processed :: "(uuid \<Rightarrow> exn + string) \<Rightarrow> string \<Rightarrow> board \<Rightarrow> board" where
  "processed v raw b = ack_board raw (case uuid_of_text raw of
     None \<Rightarrow> b
   | Some i \<Rightarrow> (case (bd_phases b i, bd_specs b i) of
       (Some p, Some (model, path)) \<Rightarrow>
         if finished p then b
         else call_board (outcome v i (gate (bd_allowed b) model path)) (call_board (Start i) b)
     | _ \<Rightarrow> b))"

text \<open>A sweep: the abandoned jobs go back to the queue, then the lost ones.\<close>

definition abandoned :: "int \<Rightarrow> board \<Rightarrow> uuid set" where
  "abandoned v b = {i. \<exists>p. bd_phases b i = Some p \<and> stale_phase (bd_now b - seconds v) p}"

definition recovered :: "uuid set \<Rightarrow> board \<Rightarrow> board" where
  "recovered A b = b\<lparr>bd_phases := (\<lambda>i. if i \<in> A then map_option (reset_phase (bd_now b)) (bd_phases b i) else bd_phases b i),
     bd_pending := bd_pending b + image_mset uuid_str (mset_set A),
     bd_flying := filter_mset (\<lambda>x. x \<notin> uuid_str ` A) (bd_flying b)\<rparr>"

definition lost :: "int \<Rightarrow> board \<Rightarrow> uuid set" where
  "lost g b = {i. (\<exists>p. bd_phases b i = Some p \<and> orphan_phase (bd_now b - seconds g) p)
     \<and> uuid_str i \<notin># bd_pending b + bd_flying b}"

definition requeued :: "uuid set \<Rightarrow> board \<Rightarrow> board" where
  "requeued L b = b\<lparr>bd_pending := bd_pending b + image_mset uuid_str (mset_set L),
     bd_flying := filter_mset (\<lambda>x. x \<notin> uuid_str ` L) (bd_flying b)\<rparr>"

definition swept :: "int \<Rightarrow> int \<Rightarrow> board \<Rightarrow> reconcile_stats \<times> board" where
  "swept v g b = (let A = abandoned v b; b1 = recovered A b; L = lost g b1
     in (\<lparr>abandoned_running = card A, orphaned_queued = card L\<rparr>, requeued L b1))"

lemma call_board_fields [simp]:
  "bd_phases (call_board c b) = after_call (bd_now b) c (bd_phases b)" "bd_specs (call_board c b) = bd_specs b"
  "bd_pending (call_board c b) = bd_pending b" "bd_flying (call_board c b) = bd_flying b"
  "bd_allowed (call_board c b) = bd_allowed b" "bd_now (call_board c b) = bd_now b"
  by (simp_all add: call_board_def)

text \<open>A heartbeat between the start and the end of a job leaves no trace once the job is closed.\<close>

lemma close_after_beat:
  "complete_phase path (beat_phase t p) = complete_phase path p" "fail_phase m (beat_phase t p) = fail_phase m p"
  by (cases p; simp)+

lemma beat_twice: "beat_phase t (beat_phase t p) = beat_phase t p"
  by (cases p) simp_all

lemma call_board_beat:
  "call_board (Complete i path) (call_board (Beat i) b) = call_board (Complete i path) b"
  "call_board (Fail i m) (call_board (Beat i) b) = call_board (Fail i m) b"
  "call_board (Beat i) (call_board (Beat i) b) = call_board (Beat i) b"
  by (simp_all add: call_board_def after_call_def option.map_comp o_def close_after_beat beat_twice)

lemma after_call_defined [simp]:
  "after_call t c ph i = None \<longleftrightarrow> ph i = None" "(\<exists>p. after_call t c ph i = Some p) \<longleftrightarrow> (\<exists>p. ph i = Some p)"
  by (auto simp: after_call_def)

text \<open>The sweep's loops, one job at a time.\<close>

lemma filter_filter_mset: "filter_mset P (filter_mset Q M) = filter_mset (\<lambda>x. Q x \<and> P x) M"
  by (induction M) auto

lemma recover_fold:
  "distinct xs \<Longrightarrow> fold (\<lambda>i b. requeue_board (uuid_str i) (call_board (Reset i) b)) xs b = recovered (set xs) b"
proof (induction xs arbitrary: b)
  case Nil
  then show ?case by (simp add: recovered_def)
next
  case (Cons i xs)
  then show ?case
    by (auto simp: recovered_def requeue_board_def call_board_def after_call_def fun_eq_iff filter_filter_mset
        intro!: filter_mset_cong)
qed

lemma requeue_fold: "distinct xs \<Longrightarrow> fold (\<lambda>i. requeue_board (uuid_str i)) xs b = requeued (set xs) b"
proof (induction xs arbitrary: b)
  case Nil
  then show ?case by (simp add: requeued_def)
next
  case (Cons i xs)
  then show ?case
    by (auto simp: requeued_def requeue_board_def filter_filter_mset intro!: filter_mset_cong)
qed

text \<open>A sweep leaves finished jobs alone.\<close>

lemma finished_not_stale: "finished p \<Longrightarrow> \<not> stale_phase t p"
  by (cases p) simp_all

lemma swept_finished: "bd_phases b i = Some p \<Longrightarrow> finished p \<Longrightarrow> bd_phases (snd (swept v g b)) i = Some p"
  by (auto simp: swept_def Let_def requeued_def recovered_def abandoned_def finished_not_stale)

text \<open>Any sequence of calls on the two classes, as \<open>main.run\<close> builds them over the same collaborators.\<close>

datatype worker_call = Process string | Reconcile int int

fun work :: "'s job_processor \<Rightarrow> worker_call \<Rightarrow> ('s, exn, reconcile_stats option) prog" where
  "work p (Process raw) = seq (processor_process p raw) (ret None)"
| "work p (Reconcile v g) = bind (reconciler_reconcile \<lparr>rc_repo = jp_repo p, rc_queue = jp_queue p, rc_status = jp_status p,
     rc_visibility_timeout_seconds = v, rc_orphan_grace_seconds = g\<rparr>) (\<lambda>st. ret (Some st))"

fun work_all :: "'s job_processor \<Rightarrow> worker_call list \<Rightarrow> ('s, exn, reconcile_stats option list) prog" where
  "work_all p [] = ret []"
| "work_all p (c # cs) = bind (work p c) (\<lambda>x. bind (work_all p cs) (\<lambda>xs. ret (x # xs)))"

fun worked :: "(uuid \<Rightarrow> exn + string) \<Rightarrow> worker_call list \<Rightarrow> board \<Rightarrow> reconcile_stats option list \<times> board" where
  "worked v [] b = ([], b)"
| "worked v (Process raw # cs) b = (case worked v cs (processed v raw b) of (xs, b') \<Rightarrow> (None # xs, b'))"
| "worked v (Reconcile t g # cs) b = (case swept t g b of (st, b1) \<Rightarrow>
     (case worked v cs b1 of (xs, b') \<Rightarrow> (Some st # xs, b')))"

section \<open>The contract\<close>

definition leads :: "('s \<Rightarrow> bool) \<Rightarrow> ('s \<Rightarrow> board) \<Rightarrow> ('s, exn, 'a) prog \<Rightarrow> 's \<Rightarrow> exn + 'a \<Rightarrow> board \<Rightarrow> bool" where
  "leads good board m s r b \<longleftrightarrow> (\<exists>s'. m s = (r, s') \<and> good s' \<and> board s' = b)"

lemma leads_bind:
  "leads good board m s (Inr x) b \<Longrightarrow> (\<And>s'. good s' \<Longrightarrow> board s' = b \<Longrightarrow> leads good board (f x) s' r b') \<Longrightarrow>
     leads good board (bind m f) s r b'"
  by (auto simp: leads_def bind_def)

lemma leads_seq:
  "leads good board m s (Inr x) b \<Longrightarrow> (\<And>s'. good s' \<Longrightarrow> board s' = b \<Longrightarrow> leads good board n s' r b') \<Longrightarrow>
     leads good board (seq m n) s r b'"
  unfolding seq_def by (rule leads_bind)

lemma leads_bind_raise: "leads good board m s (Inl e) b \<Longrightarrow> leads good board (bind m f) s (Inl e) b"
  by (auto simp: leads_def bind_def)

lemma leads_ret: "good s \<Longrightarrow> leads good board (ret x) s (Inr x) (board s)"
  by (simp add: leads_def ret_apply)

text \<open>An executor that ends job \<open>i\<close> in \<open>v i\<close> and touches the state only through the heartbeat.\<close>

definition passive_executor :: "(uuid \<Rightarrow> exn + string) \<Rightarrow> 's job_executor \<Rightarrow> bool" where
  "passive_executor v exec \<longleftrightarrow> (\<forall>i e. v i = Inl e \<longrightarrow> is_exception e)
     \<and> (\<forall>I j m hb s. (\<forall>t. I t \<longrightarrow> (\<exists>t'. hb t = (Inr (), t') \<and> I t')) \<longrightarrow> I s \<longrightarrow>
          (\<exists>s'. exec j m hb s = (v (job_id j), s') \<and> I s'))"

text \<open>What follows the gates of a run.\<close>

definition train_and_close :: "'s job_processor \<Rightarrow> job \<Rightarrow> model_meta \<Rightarrow> ('s, exn, unit) prog" where
  "train_and_close p j m = bind (jp_executor p j m (processor_heartbeat p j)) (\<lambda>ckpt.
     seq (jr_mark_completed (jp_repo p) (job_id j) ckpt) (jp_status p (uuid_str (job_id j)) (status_value COMPLETED) True))"

locale worker_contract =
  job_repository_contract repo good "\<lambda>s. bd_phases (board s)" "\<lambda>s. bd_allowed (board s)" "\<lambda>s. bd_now (board s)"
  for repo :: "'s job_repository" and good :: "'s \<Rightarrow> bool" and board :: "'s \<Rightarrow> board" +
  fixes queue :: "'s work_queue" and status :: "'s status_publisher"
  assumes call_frame: "good s \<Longrightarrow> bd_phases (board s) (call_target c) \<noteq> None \<Longrightarrow>
      board (snd (do_call repo c s)) = call_board c (board s)"
    and job_spec: "good s \<Longrightarrow> jr_get_job repo i s = (Inr (Some j), s) \<Longrightarrow>
      bd_specs (board s) i = Some (base_model j, dataset_path j)"
    and publish: "good s \<Longrightarrow> leads good board (status jid st b) s (Inr ()) (board s)"
    and ack: "good s \<Longrightarrow> leads good board (wq_ack queue jid) s (Inr ()) (ack_board jid (board s))"
    and requeue: "good s \<Longrightarrow> leads good board (wq_requeue queue jid) s (Inr ()) (requeue_board jid (board s))"
    and queued_ids: "good s \<Longrightarrow> wq_queued_ids queue s = (Inr (set_mset (bd_pending (board s))), s)"
    and in_flight_ids: "good s \<Longrightarrow> wq_in_flight_ids queue s = (Inr (set_mset (bd_flying (board s))), s)"
begin

lemma call_leads:
  assumes "good s" and "bd_phases (board s) (call_target c) \<noteq> None"
  shows "leads good board (do_call repo c) s (Inr ()) (call_board c (board s))"
  using call [OF assms] call_frame [OF assms] by (auto simp: leads_def)

lemma call_publish_leads:
  assumes "good s" and "bd_phases (board s) (call_target c) \<noteq> None"
  shows "leads good board (seq (do_call repo c) (status jid st b)) s (Inr ()) (call_board c (board s))"
proof (rule leads_seq [OF call_leads [OF assms]])
  fix t assume t: "good t" "board t = call_board c (board s)"
  show "leads good board (status jid st b) t (Inr ()) (call_board c (board s))"
    using publish [OF t(1), of jid st b] by (simp add: t(2))
qed

lemma close_leads:
  assumes "good s" and "bd_phases (board s) (call_target c) \<noteq> None"
  shows "leads good board (seq (do_call repo c) (seq (status jid st b) (wq_ack queue raw))) s (Inr ())
    (ack_board raw (call_board c (board s)))"
proof -
  have "leads good board (seq (seq (do_call repo c) (status jid st b)) (wq_ack queue raw)) s (Inr ())
      (ack_board raw (call_board c (board s)))"
  proof (rule leads_seq [OF call_publish_leads [OF assms]])
    fix t assume t: "good t" "board t = call_board c (board s)"
    show "leads good board (wq_ack queue raw) t (Inr ()) (ack_board raw (call_board c (board s)))"
      using ack [OF t(1), of raw] by (simp add: t(2))
  qed
  then show ?thesis by (simp add: seq_def bind_assoc)
qed

text \<open>Processing an id.\<close>

lemma heartbeat_board:
  assumes "good t" and "board t = b \<or> board t = call_board (Beat (job_id j)) b" and "bd_phases b (job_id j) \<noteq> None"
  shows "leads good board (processor_heartbeat \<lparr>jp_repo = repo, jp_queue = queue, jp_status = status, jp_executor = exec\<rparr> j) t
    (Inr ()) (call_board (Beat (job_id j)) b)"
proof -
  have d: "bd_phases (board t) (call_target (Beat (job_id j))) \<noteq> None"
    using assms(2,3) by auto
  have "call_board (Beat (job_id j)) (board t) = call_board (Beat (job_id j)) b"
    using assms(2) by (auto simp: call_board_beat)
  then show ?thesis
    using call_publish_leads [OF assms(1) d, of "uuid_str (job_id j)" "status_value RUNNING" False]
    by (simp add: processor_heartbeat_def)
qed

text \<open>The run up to the gates, and what follows them.\<close>

lemma run_to_gate:
  assumes s: "good s" "bd_phases (board s) (job_id j) \<noteq> None" and p: "jp_repo p = repo" "jp_status p = status"
  shows "\<exists>t. good t \<and> board t = call_board (Start (job_id j)) (board s)
    \<and> processor_run p j s = (case gate (bd_allowed (board s)) (base_model j) (dataset_path j) of
        Inl e \<Rightarrow> (Inl e, t) | Inr m \<Rightarrow> train_and_close p j m t)"
proof -
  let ?i = "job_id j" and ?g = "gate (bd_allowed (board s)) (base_model j) (dataset_path j)"
  let ?start = "seq (jr_mark_running repo ?i) (status (uuid_str ?i) (status_value RUNNING) False)"
  let ?rest = "seq (lift_sum (validate_dataset_format (dataset_path j)))
    (bind (jr_get_model_meta repo (base_model j)) (\<lambda>m. case m of
       None \<Rightarrow> raise (not_allowed_error (base_model j))
     | Some model \<Rightarrow> seq (lift_sum (check_model_fits (param_count model) (vram_hint model))) (train_and_close p j model)))"
  obtain t where t: "?start s = (Inr (), t)" "good t" "board t = call_board (Start ?i) (board s)"
    using call_publish_leads [of s "Start ?i" "uuid_str ?i" "status_value RUNNING" False] s by (auto simp: leads_def)
  have "processor_run p j = seq ?start ?rest"
    by (simp only: processor_run_def train_and_close_def p seq_def bind_assoc)
  then have "processor_run p j s = ?rest t" by (simp only: seq_Inr [where m = ?start and s = s, OF t(1)])
  also have "\<dots> = (case ?g of Inl e \<Rightarrow> (Inl e, t) | Inr m \<Rightarrow> train_and_close p j m t)"
    using get_model_meta [OF t(2), of "base_model j"] t(3)
    by (auto simp: gate_def seq_def bind_def lift_sum_apply raise_apply split: sum.split option.split)
  finally show ?thesis using t(2,3) by blast
qed

lemma train_board:
  assumes t: "good t" "board t = b" "bd_phases b (job_id j) \<noteq> None" and x: "passive_executor v exec"
    and p: "p = \<lparr>jp_repo = repo, jp_queue = queue, jp_status = status, jp_executor = exec\<rparr>"
  shows "case v (job_id j) of
      Inl e \<Rightarrow> \<exists>b'. (b' = b \<or> b' = call_board (Beat (job_id j)) b) \<and> leads good board (train_and_close p j m) t (Inl e) b'
    | Inr ckpt \<Rightarrow> leads good board (train_and_close p j m) t (Inr ()) (call_board (Complete (job_id j) ckpt) b)"
proof -
  let ?i = "job_id j"
  define I where "I u \<longleftrightarrow> good u \<and> (board u = b \<or> board u = call_board (Beat ?i) b)" for u
  have "\<exists>u'. processor_heartbeat p j u = (Inr (), u') \<and> I u'" if "I u" for u
    using heartbeat_board [of u b j exec] that t(3) unfolding p by (auto simp: I_def leads_def)
  moreover have "I t" using t by (simp add: I_def)
  ultimately obtain u where "exec j m (processor_heartbeat p j) t = (v ?i, u)" "I u"
    using x unfolding passive_executor_def by blast
  then have u: "exec j m (processor_heartbeat p j) t = (v ?i, u)" "good u" "board u = b \<or> board u = call_board (Beat ?i) b"
    by (simp_all add: I_def)
  show ?thesis
  proof (cases "v ?i")
    case (Inl e)
    then show ?thesis using u by (auto simp: leads_def bind_def train_and_close_def p)
  next
    case (Inr ckpt)
    have "leads good board (seq (do_call repo (Complete ?i ckpt)) (status (uuid_str ?i) (status_value COMPLETED) True)) u (Inr ())
        (call_board (Complete ?i ckpt) (board u))"
      using u(2,3) t(3) by (intro call_publish_leads) auto
    moreover have "call_board (Complete ?i ckpt) (board u) = call_board (Complete ?i ckpt) b"
      using u(3) by (auto simp: call_board_beat)
    ultimately show ?thesis using u(1) Inr by (simp add: leads_def bind_def train_and_close_def p)
  qed
qed

lemma run_board:
  assumes s: "good s" "bd_phases (board s) (job_id j) \<noteq> None" and x: "passive_executor v exec"
    and b1: "b1 = call_board (Start (job_id j)) (board s)" and g: "g = gate (bd_allowed (board s)) (base_model j) (dataset_path j)"
    and p: "p = \<lparr>jp_repo = repo, jp_queue = queue, jp_status = status, jp_executor = exec\<rparr>"
  shows "case g of
      Inl e \<Rightarrow> leads good board (processor_run p j) s (Inl e) b1
    | Inr m \<Rightarrow> (case v (job_id j) of
        Inl e \<Rightarrow> \<exists>b. (b = b1 \<or> b = call_board (Beat (job_id j)) b1) \<and> leads good board (processor_run p j) s (Inl e) b
      | Inr ckpt \<Rightarrow> leads good board (processor_run p j) s (Inr ()) (call_board (Complete (job_id j) ckpt) b1))"
proof -
  obtain t where t: "good t" "board t = b1"
      "processor_run p j s = (case g of Inl e \<Rightarrow> (Inl e, t) | Inr m \<Rightarrow> train_and_close p j m t)"
    using run_to_gate [OF s, of p] unfolding p b1 g by auto
  have d: "bd_phases b1 (job_id j) \<noteq> None" using s(2) by (simp add: b1)
  show ?thesis
  proof (cases g)
    case (Inl e)
    then show ?thesis using t by (simp add: leads_def)
  next
    case (Inr m)
    then show ?thesis
      using train_board [OF t(1,2) d x p, of m] t(3) by (auto simp: leads_def split: sum.splits)
  qed
qed

lemma try_leads:
  assumes "leads good board m s (Inl e) b" and "h e = Some p"
    and "\<And>t. good t \<Longrightarrow> board t = b \<Longrightarrow> leads good board p t r b'"
  shows "leads good board (try_else m h n) s r b'"
  using assms by (auto simp: leads_def try_else_def)

lemma fail_board:
  assumes "good t" and "bd_phases (board t) i \<noteq> None"
  shows "leads good board (processor_fail \<lparr>jp_repo = repo, jp_queue = queue, jp_status = status, jp_executor = exec\<rparr> raw i msg) t
    (Inr ()) (ack_board raw (call_board (Fail i msg) (board t)))"
  using close_leads [of t "Fail i msg" "uuid_str i" "status_value FAILED" True raw] assms
  by (simp add: processor_fail_def)

lemma handler_board:
  assumes "is_rejection e \<or> is_exception e" and "good t" and "bd_phases (board t) i \<noteq> None"
  shows "\<exists>p. processor_handler \<lparr>jp_repo = repo, jp_queue = queue, jp_status = status, jp_executor = exec\<rparr> raw i e = Some p
    \<and> leads good board p t (Inr ()) (ack_board raw (call_board (Fail i (failure_message e)) (board t)))"
  using assms fail_board [OF assms(2,3)] by (auto simp: processor_handler_def failure_message_def)

lemma active_board:
  assumes s: "good s" "bd_phases (board s) (job_id j) \<noteq> None" and x: "passive_executor v exec"
  shows "leads good board (try_else (processor_run \<lparr>jp_repo = repo, jp_queue = queue, jp_status = status, jp_executor = exec\<rparr> j)
      (processor_handler \<lparr>jp_repo = repo, jp_queue = queue, jp_status = status, jp_executor = exec\<rparr> raw (job_id j)) (wq_ack queue raw)) s
    (Inr ()) (ack_board raw (call_board (outcome v (job_id j) (gate (bd_allowed (board s)) (base_model j) (dataset_path j)))
      (call_board (Start (job_id j)) (board s))))"
    (is "leads good board (try_else (processor_run ?p j) ?h _) s _ (ack_board raw (call_board (outcome v ?i ?g) ?b))")
proof -
  have d: "bd_phases ?b ?i \<noteq> None" using s(2) by simp
  have fails: "leads good board (try_else (processor_run ?p j) ?h (wq_ack queue raw)) s (Inr ())
      (ack_board raw (call_board (Fail ?i (failure_message e)) ?b))"
    if r: "leads good board (processor_run ?p j) s (Inl e) b" "b = ?b \<or> b = call_board (Beat ?i) ?b"
      and e: "is_rejection e \<or> is_exception e" for e b
  proof -
    obtain t where t: "processor_run ?p j s = (Inl e, t)" "good t" "board t = b" using r(1) by (auto simp: leads_def)
    have dt: "bd_phases (board t) ?i \<noteq> None" using r(2) d t(3) by auto
    obtain p where "?h e = Some p" "leads good board p t (Inr ()) (ack_board raw (call_board (Fail ?i (failure_message e)) (board t)))"
      using handler_board [OF e t(2) dt] by blast
    moreover have "call_board (Fail ?i (failure_message e)) (board t) = call_board (Fail ?i (failure_message e)) ?b"
      using r(2) t(3) by (auto simp: call_board_beat)
    ultimately show ?thesis using t(1) by (simp add: leads_def try_else_def)
  qed
  note run = run_board [OF s x refl refl refl]
  show ?thesis
  proof (cases ?g)
    case (Inl e)
    then show ?thesis using run fails [of e ?b] gate_rejects [OF Inl] by (simp add: outcome_def)
  next
    case (Inr m)
    show ?thesis
    proof (cases "v ?i")
      case (Inl e)
      moreover have "is_exception e" using x Inl unfolding passive_executor_def by blast
      ultimately show ?thesis using run fails [of e] Inr by (auto simp: outcome_def)
    next
      case (Inr ckpt)
      then have "leads good board (processor_run ?p j) s (Inr ()) (call_board (Complete ?i ckpt) ?b)"
        using run \<open>?g = Inr m\<close> by simp
      then show ?thesis using ack Inr \<open>?g = Inr m\<close> by (fastforce simp: leads_def try_else_def outcome_def)
    qed
  qed
qed

lemma finished_iff: "finished (job_phase j) \<longleftrightarrow> job_state j \<in> TERMINAL_STATUSES"
  by (cases "job_state j") (simp_all add: job_phase_def phase_of_def TERMINAL_STATUSES_def)

lemma process_board:
  assumes s: "good s" and x: "passive_executor v exec"
  shows "leads good board (processor_process \<lparr>jp_repo = repo, jp_queue = queue, jp_status = status, jp_executor = exec\<rparr> raw) s
    (Inr ()) (processed v raw (board s))"
proof (cases "uuid_of_text raw")
  case None
  then show ?thesis using ack [OF s] by (simp add: processor_process_def processed_def)
next
  case (Some i)
  obtain found where f: "jr_get_job repo i s = (Inr found, s)" "map_option job_phase found = bd_phases (board s) i"
      "\<forall>j. found = Some j \<longrightarrow> job_id j = i"
    using get_job [OF s, of i] by blast
  show ?thesis
  proof (cases found)
    case None
    then show ?thesis using f ack [OF s, of raw] Some
      by (simp add: processor_process_def processed_def leads_def bind_def)
  next
    case j: (Some j)
    then have b: "bd_phases (board s) i = Some (job_phase j)" "bd_specs (board s) i = Some (base_model j, dataset_path j)" "job_id j = i"
      using f job_spec [OF s, of i j] by auto
    show ?thesis
    proof (cases "job_state j \<in> TERMINAL_STATUSES")
      case True
      then show ?thesis using f(1) ack [OF s, of raw] Some j b
        by (simp add: processor_process_def processed_def leads_def bind_def finished_iff)
    next
      case False
      then show ?thesis using f(1) active_board [of s j v exec raw] s x Some j b
        by (simp add: processor_process_def processed_def leads_def bind_def finished_iff)
    qed
  qed
qed

text \<open>A sweep.\<close>

lemma recover_board:
  assumes "good s" and "\<forall>i \<in> set xs. bd_phases (board s) i \<noteq> None"
  shows "leads good board (for_each (reconciler_recover \<lparr>rc_repo = repo, rc_queue = queue, rc_status = status,
      rc_visibility_timeout_seconds = v, rc_orphan_grace_seconds = g\<rparr>) xs) s (Inr ())
    (fold (\<lambda>i b. requeue_board (uuid_str i) (call_board (Reset i) b)) xs (board s))"
  using assms
proof (induction xs arbitrary: s)
  case Nil
  then show ?case by (simp add: leads_ret)
next
  case (Cons i xs)
  let ?c = "\<lparr>rc_repo = repo, rc_queue = queue, rc_status = status, rc_visibility_timeout_seconds = v, rc_orphan_grace_seconds = g\<rparr>"
  have "leads good board (seq (seq (do_call repo (Reset i)) (status (uuid_str i) (status_value QUEUED) False))
      (wq_requeue queue (uuid_str i))) s (Inr ()) (requeue_board (uuid_str i) (call_board (Reset i) (board s)))"
  proof (rule leads_seq [OF call_publish_leads])
    fix t assume t: "good t" "board t = call_board (Reset i) (board s)"
    show "leads good board (wq_requeue queue (uuid_str i)) t (Inr ()) (requeue_board (uuid_str i) (call_board (Reset i) (board s)))"
      using requeue [OF t(1), of "uuid_str i"] by (simp add: t(2))
  qed (use Cons.prems in simp_all)
  then have r: "leads good board (reconciler_recover ?c i) s (Inr ()) (requeue_board (uuid_str i) (call_board (Reset i) (board s)))"
    by (simp add: reconciler_recover_def seq_def bind_assoc)
  have "leads good board (seq (reconciler_recover ?c i) (for_each (reconciler_recover ?c) xs)) s (Inr ())
      (fold (\<lambda>i b. requeue_board (uuid_str i) (call_board (Reset i) b)) (i # xs) (board s))"
  proof (rule leads_seq [OF r])
    fix t assume t: "good t" "board t = requeue_board (uuid_str i) (call_board (Reset i) (board s))"
    have "\<forall>k \<in> set xs. bd_phases (board t) k \<noteq> None"
      using Cons.prems(2) by (auto simp: t(2) requeue_board_def)
    from Cons.IH [OF t(1) this] show "leads good board (for_each (reconciler_recover ?c) xs) t (Inr ())
      (fold (\<lambda>i b. requeue_board (uuid_str i) (call_board (Reset i) b)) (i # xs) (board s))" by (simp add: t(2))
  qed
  then show ?case by simp
qed

lemma requeue_missing_board:
  "good s \<Longrightarrow> leads good board (requeue_missing queue live n xs) s (Inr (n + length (filter (\<lambda>i. uuid_str i \<notin> live) xs)))
     (fold (\<lambda>i. requeue_board (uuid_str i)) (filter (\<lambda>i. uuid_str i \<notin> live) xs) (board s))"
proof (induction xs arbitrary: n s)
  case Nil
  then show ?case by (simp add: leads_ret)
next
  case (Cons i xs)
  show ?case
  proof (cases "uuid_str i \<in> live")
    case True
    then show ?thesis using Cons by simp
  next
    case False
    have "leads good board (seq (wq_requeue queue (uuid_str i)) (requeue_missing queue live (Suc n) xs)) s
        (Inr (n + length (filter (\<lambda>i. uuid_str i \<notin> live) (i # xs))))
        (fold (\<lambda>i. requeue_board (uuid_str i)) (filter (\<lambda>i. uuid_str i \<notin> live) (i # xs)) (board s))"
    proof (rule leads_seq [OF requeue [OF Cons.prems]])
      fix t assume t: "good t" "board t = requeue_board (uuid_str i) (board s)"
      show "leads good board (requeue_missing queue live (Suc n) xs) t
          (Inr (n + length (filter (\<lambda>i. uuid_str i \<notin> live) (i # xs))))
          (fold (\<lambda>i. requeue_board (uuid_str i)) (filter (\<lambda>i. uuid_str i \<notin> live) (i # xs)) (board s))"
        using Cons.IH [OF t(1), of "Suc n"] False by (simp add: t(2))
    qed
    then show ?thesis using False by simp
  qed
qed

lemma abandoned_board:
  assumes "good s"
  shows "leads good board (reconciler_abandoned \<lparr>rc_repo = repo, rc_queue = queue, rc_status = status,
      rc_visibility_timeout_seconds = v, rc_orphan_grace_seconds = g\<rparr>) s
    (Inr (card (abandoned v (board s)))) (recovered (abandoned v (board s)) (board s))"
proof -
  obtain xs where xs: "jr_find_stale_running repo v s = (Inr xs, s)" "distinct xs" "set xs = abandoned v (board s)"
    using find_stale_running [OF assms, of v] by (auto simp: abandoned_def)
  have "\<forall>i \<in> set xs. bd_phases (board s) i \<noteq> None" by (auto simp: xs(3) abandoned_def)
  from recover_board [OF assms this, of v g] show ?thesis
    using xs(1,2) recover_fold [OF xs(2), of "board s"] distinct_card [OF xs(2)]
    by (auto simp: reconciler_abandoned_def leads_def bind_def seq_def ret_apply xs(3) [symmetric])
qed

lemma orphaned_board:
  assumes "good s"
  shows "leads good board (reconciler_orphaned \<lparr>rc_repo = repo, rc_queue = queue, rc_status = status,
      rc_visibility_timeout_seconds = v, rc_orphan_grace_seconds = g\<rparr>) s
    (Inr (card (lost g (board s)))) (requeued (lost g (board s)) (board s))"
proof -
  obtain xs where xs: "jr_find_orphan_queued repo g s = (Inr xs, s)" "distinct xs"
      "set xs = {i. \<exists>p. bd_phases (board s) i = Some p \<and> orphan_phase (bd_now (board s) - seconds g) p}"
    using find_orphan_queued [OF assms, of g] by auto
  let ?live = "set_mset (bd_pending (board s)) \<union> set_mset (bd_flying (board s))"
  let ?ys = "filter (\<lambda>i. uuid_str i \<notin> ?live) xs"
  have ys: "distinct ?ys" "set ?ys = lost g (board s)" using xs(2,3) by (auto simp: lost_def)
  have "requeued {} b = b" for b by (simp add: requeued_def)
  then show ?thesis
    using xs(1) requeue_missing_board [OF assms, of ?live 0 xs] requeue_fold [OF ys(1), of "board s"]
      distinct_card [OF ys(1)] ys(2) assms
    by (auto simp: reconciler_orphaned_def leads_def bind_def ret_apply queued_ids in_flight_ids)
qed

lemma reconcile_board:
  assumes "good s"
  shows "leads good board (reconciler_reconcile \<lparr>rc_repo = repo, rc_queue = queue, rc_status = status,
      rc_visibility_timeout_seconds = v, rc_orphan_grace_seconds = g\<rparr>) s
    (Inr (fst (swept v g (board s)))) (snd (swept v g (board s)))"
proof -
  obtain t where t: "reconciler_abandoned \<lparr>rc_repo = repo, rc_queue = queue, rc_status = status,
      rc_visibility_timeout_seconds = v, rc_orphan_grace_seconds = g\<rparr> s = (Inr (card (abandoned v (board s))), t)"
      "good t" "board t = recovered (abandoned v (board s)) (board s)"
    using abandoned_board [OF assms, of v g] by (auto simp: leads_def)
  from orphaned_board [OF t(2), of v g] show ?thesis
    by (auto simp: reconciler_reconcile_def swept_def Let_def leads_def bind_def ret_apply t(1,3))
qed

lemma work_board:
  assumes "passive_executor v exec"
  shows "good s \<Longrightarrow> leads good board (work_all \<lparr>jp_repo = repo, jp_queue = queue, jp_status = status, jp_executor = exec\<rparr> cs) s
    (Inr (fst (worked v cs (board s)))) (snd (worked v cs (board s)))"
proof (induction cs arbitrary: s)
  case Nil
  then show ?case by (simp add: leads_ret)
next
  case (Cons c cs)
  show ?case
  proof (cases c)
    case (Process raw)
    then show ?thesis
      using process_board [OF Cons.prems assms, of raw] Cons.IH
      by (fastforce simp: leads_def bind_def seq_def ret_apply split: prod.split)
  next
    case (Reconcile t g)
    then show ?thesis
      using reconcile_board [OF Cons.prems, of t g] Cons.IH
      by (fastforce simp: leads_def bind_def seq_def ret_apply split: prod.split)
  qed
qed

end

section \<open>The production collaborators keep it\<close>

definition row_spec :: "job_row \<Rightarrow> string \<times> string" where
  "row_spec r = (r_base_model r, r_dataset_path r)"

definition board_of_world :: "world \<Rightarrow> board" where
  "board_of_world w = \<lparr>bd_phases = world_phases w,
     bd_specs = (\<lambda>i. map_option row_spec (job_at i (jobs (sh w)))),
     bd_pending = mset (rlists (rd (sh w)) QUEUE_KEY), bd_flying = mset (rlists (rd (sh w)) PROCESSING_KEY),
     bd_allowed = (\<lambda>m. db_get_model_meta m (models (reg (sh w)))), bd_now = clock (sh w)\<rparr>"

lemma board_of_world_fields [simp]:
  "bd_phases (board_of_world w) = world_phases w" "bd_now (board_of_world w) = clock (sh w)"
  "bd_allowed (board_of_world w) = (\<lambda>m. db_get_model_meta m (models (reg (sh w))))"
  by (simp_all add: board_of_world_def)

fun call_op :: "job_call \<Rightarrow> op" where
  "call_op (Start i) = MarkRunning i"
| "call_op (Beat i) = Heartbeat i"
| "call_op (Complete i path) = MarkCompleted i path"
| "call_op (Fail i msg) = MarkFailed i msg"
| "call_op (Reset i) = ResetToQueued i"

lemma postgres_do_call: "do_call (postgres_repository R) c = perform R (call_op c)"
  by (cases c) (simp_all add: postgres_methods repo_defs)

lemma call_op_frame:
  "rd (do_op R (call_op c) s) = rd s" "reg (do_op R (call_op c) s) = reg s" "clock (do_op R (call_op c) s) = clock s"
  "map_option row_spec (job_at i (jobs (do_op R (call_op c) s))) = map_option row_spec (job_at i (jobs s))"
proof -
  show "rd (do_op R (call_op c) s) = rd s" "reg (do_op R (call_op c) s) = reg s" "clock (do_op R (call_op c) s) = clock s"
    by (cases c; simp)+
  have k: "row_spec (r\<lparr>r_status := st\<rparr>) = row_spec r" "row_spec (r\<lparr>r_updated_at := t\<rparr>) = row_spec r"
      "row_spec (r\<lparr>r_checkpoint_path := q\<rparr>) = row_spec r" "row_spec (r\<lparr>r_error_message := q\<rparr>) = row_spec r" for r st t q
    by (simp_all add: row_spec_def)
  show "map_option row_spec (job_at i (jobs (do_op R (call_op c) s))) = map_option row_spec (job_at i (jobs s))"
    by (cases c; simp add: option.map_comp; rule option.map_cong0; simp add: k)
qed

lemma postgres_board:
  assumes "good_world w"
  shows "board_of_world (snd (do_call (postgres_repository R) c w)) = call_board c (board_of_world w)"
proof -
  have q: "sched w = []" using assms by (simp add: good_world_def)
  obtain w' where "do_call (postgres_repository R) c w = (Inr (), w')" "world_phases w' = after_call (clock (sh w)) c (world_phases w)"
    using postgres_call [OF assms, of R c] by blast
  then show ?thesis
    by (auto simp: board_of_world_def call_board_def postgres_do_call quiet_perform [OF q] after_def call_op_frame)
qed

lemma row_to_job_spec: "row_to_job r = Inr j \<Longrightarrow> row_spec r = (base_model j, dataset_path j)"
  by (auto simp: row_to_job_def Let_def row_spec_def split: sum.splits)

sublocale redis_server \<subseteq> prod: worker_contract "postgres_repository R" good_world board_of_world "redis_queue R n" "publish R" for n
proof (intro worker_contract.intro worker_contract_axioms.intro, goal_cases)
  case 1
  then show ?case using postgres.job_repository_contract_axioms [of R] by simp
next
  case (2 w c)
  then show ?case by (simp add: postgres_board)
next
  case (3 w i j)
  then obtain r where "job_at i (jobs (sh w)) = Some r" "row_to_job r = Inr j"
    by (auto simp: good_world_def postgres_methods repo_get_job_def bind_def query_quiet db_get_job_def lift_sum_apply
        split: option.splits sum.splits)
  then show ?case using row_to_job_spec [of r j] by (simp add: board_of_world_def)
next
  case (4 w jid st b)
  then show ?case
    by (auto simp: leads_def good_world_def publish_def quiet_perform board_of_world_def after_def publish_lists world_phases_def fun_eq_iff)
next
  case (5 w jid)
  then show ?case
    by (auto simp: leads_def good_world_def redis_methods rq_ack_def quiet_perform board_of_world_def after_def
        world_phases_def fun_eq_iff ack_board_def ack_lists)
next
  case (6 w jid)
  then show ?case
    by (auto simp: leads_def good_world_def redis_methods rq_requeue_def quiet_perform board_of_world_def after_def
        world_phases_def fun_eq_iff requeue_board_def requeue_lists)
next
  case (7 w)
  then show ?case
    by (simp add: good_world_def redis_methods rq_queued_ids_def query_quiet board_of_world_def queue_id_sets)
next
  case (8 w)
  then show ?case
    by (simp add: good_world_def redis_methods rq_in_flight_ids_def query_quiet board_of_world_def queue_id_sets)
qed

end
