(* ===== verification/Test_Bench.thy ===== *)
theory Test_Bench imports Fake_Repository Worker_Contract Executor begin

text \<open>
  The bench the tests of the processor and the reconciler are run on (\<open>worker/tests/conftest.py\<close>): the
  in-memory repository beside a fake Redis, whose queue and publisher are the classes of the worker. It
  keeps the same contract as the production collaborators, so that every sequence of calls ends alike on
  both.
\<close>

record bench =
  bn_repo :: fake_repo
  bn_redis :: redis

definition on_repo :: "(fake_repo, exn, 'a) prog \<Rightarrow> (bench, exn, 'a) prog" where
  "on_repo m s = (case m (bn_repo s) of (r, f) \<Rightarrow> (r, s\<lparr>bn_repo := f\<rparr>))"

definition bench_repository :: "bench job_repository" where
  "bench_repository = \<lparr>
     jr_get_job = (\<lambda>i. on_repo (jr_get_job fake_repository i)),
     jr_get_model_meta = (\<lambda>m. on_repo (jr_get_model_meta fake_repository m)),
     jr_mark_running = (\<lambda>i. on_repo (jr_mark_running fake_repository i)),
     jr_heartbeat = (\<lambda>i. on_repo (jr_heartbeat fake_repository i)),
     jr_mark_completed = (\<lambda>i path. on_repo (jr_mark_completed fake_repository i path)),
     jr_mark_failed = (\<lambda>i msg. on_repo (jr_mark_failed fake_repository i msg)),
     jr_reset_to_queued = (\<lambda>i. on_repo (jr_reset_to_queued fake_repository i)),
     jr_find_stale_running = (\<lambda>n. on_repo (jr_find_stale_running fake_repository n)),
     jr_find_orphan_queued = (\<lambda>n. on_repo (jr_find_orphan_queued fake_repository n))\<rparr>"

text \<open>The clients of the fake server \<open>T\<close>; \<open>claim\<close> answers at once when no other client pushes.\<close>

definition on_fakeredis :: "(redis \<Rightarrow> redis) \<Rightarrow> (bench, exn, unit) prog" where
  "on_fakeredis f s = (Inr (), s\<lparr>bn_redis := f (bn_redis s)\<rparr>)"

definition bench_queue :: "services \<Rightarrow> bench work_queue" where
  "bench_queue T = \<lparr>
     wq_claim = (\<lambda>s. case queue_claim T (bn_redis s) of (x, q) \<Rightarrow> (Inr x, s\<lparr>bn_redis := q\<rparr>)),
     wq_ack = (\<lambda>jid. on_fakeredis (queue_ack T jid)), wq_requeue = (\<lambda>jid. on_fakeredis (queue_requeue T jid)),
     wq_queued_ids = (\<lambda>s. (Inr (queued_ids T (bn_redis s)), s)),
     wq_in_flight_ids = (\<lambda>s. (Inr (in_flight_ids T (bn_redis s)), s))\<rparr>"

definition bench_status :: "services \<Rightarrow> bench status_publisher" where
  "bench_status T jid st is_terminal s =
     on_fakeredis (status_publish T (fk_clock (bn_repo s)) jid st is_terminal) s"

definition bench_processor :: "services \<Rightarrow> bench job_executor \<Rightarrow> bench job_processor" where
  "bench_processor T exec = \<lparr>jp_repo = bench_repository, jp_queue = bench_queue T, jp_status = bench_status T, jp_executor = exec\<rparr>"

section \<open>The bench keeps the contract\<close>

definition good_bench :: "bench \<Rightarrow> bool" where
  "good_bench s \<longleftrightarrow> good_fake (bn_repo s)"

definition job_spec :: "job \<Rightarrow> string \<times> string" where
  "job_spec j = (base_model j, dataset_path j)"

definition board_of_bench :: "bench \<Rightarrow> board" where
  "board_of_bench s = \<lparr>bd_phases = fake_phases (bn_repo s),
     bd_specs = (\<lambda>i. map_option job_spec (map_of (fk_jobs (bn_repo s)) i)),
     bd_pending = mset (rlists (bn_redis s) QUEUE_KEY), bd_flying = mset (rlists (bn_redis s) PROCESSING_KEY),
     bd_allowed = (\<lambda>m. map_of (fk_models (bn_repo s)) m), bd_now = fk_clock (bn_repo s)\<rparr>"

lemma board_of_bench_fields [simp]:
  "bd_phases (board_of_bench s) = fake_phases (bn_repo s)" "bd_now (board_of_bench s) = fk_clock (bn_repo s)"
  "bd_allowed (board_of_bench s) = map_of (fk_models (bn_repo s))"
  by (simp_all add: board_of_bench_def)

lemma bench_do_call: "do_call bench_repository c = on_repo (do_call fake_repository c)"
  by (cases c) (simp_all add: bench_repository_def)

lemma fake_job_spec:
  "job_spec (fake_start t j) = job_spec j" "job_spec (fake_beat t j) = job_spec j" "job_spec (fake_complete p t j) = job_spec j"
  "job_spec (fake_fail m t j) = job_spec j" "job_spec (fake_reset t j) = job_spec j"
  by (simp_all add: job_spec_def fake_job_defs)

lemma fake_change_spec:
  assumes "\<And>j. job_spec (f (fk_clock s) j) = job_spec j"
  shows "map_option job_spec (map_of (fk_jobs (snd (fake_change name f i s))) k) = map_option job_spec (map_of (fk_jobs s) k)"
  by (cases "map_of (fk_jobs s) k")
    (auto simp: fake_change_def Let_def map_of_change assms split: option.split)

lemma fake_call_spec:
  "map_option job_spec (map_of (fk_jobs (snd (do_call fake_repository c s))) k) = map_option job_spec (map_of (fk_jobs s) k)"
  by (cases c) (simp_all add: fake_repository_def fake_change_spec fake_job_spec)

lemma bench_call:
  assumes "good_bench s" and "fake_phases (bn_repo s) (call_target c) \<noteq> None"
  obtains f where "do_call fake_repository c (bn_repo s) = (Inr (), f)" "do_call bench_repository c s = (Inr (), s\<lparr>bn_repo := f\<rparr>)"
    "good_fake f" "fake_phases f = after_call (fk_clock (bn_repo s)) c (fake_phases (bn_repo s))"
    "fk_models f = fk_models (bn_repo s)" "fk_clock f = fk_clock (bn_repo s)"
proof -
  obtain name g where g: "do_call fake_repository c = fake_change name g (call_target c)"
      "\<forall>t j. job_id (g t j) = job_id j \<and> job_phase (g t j) = call_phase t c (job_phase j)"
    using fake_call by blast
  have "map_of (fk_jobs (bn_repo s)) (call_target c) \<noteq> None" using assms(2) by (simp add: fake_phases_def)
  then obtain f where "fake_change name g (call_target c) (bn_repo s) = (Inr (), f)" "good_fake f"
      "fake_phases f = after_call (fk_clock (bn_repo s)) c (fake_phases (bn_repo s))"
      "fk_models f = fk_models (bn_repo s)" "fk_clock f = fk_clock (bn_repo s)"
    using fake_change_ok [of "bn_repo s" c g name] assms(1) g(2) by (auto simp: good_bench_def)
  then show ?thesis by (intro that [of f]) (simp_all add: g(1) bench_do_call on_repo_def)
qed

lemma bench_job_contract:
  "job_repository_contract bench_repository good_bench (\<lambda>s. bd_phases (board_of_bench s))
     (\<lambda>s. bd_allowed (board_of_bench s)) (\<lambda>s. bd_now (board_of_bench s))"
proof (unfold_locales, goal_cases)
  case (1 s i)
  then show ?case using fake.get_job [of "bn_repo s" i] by (auto simp: bench_repository_def on_repo_def good_bench_def)
next
  case (2 s m)
  then show ?case using fake.get_model_meta [of "bn_repo s" m] by (simp add: bench_repository_def on_repo_def good_bench_def)
next
  case (3 s c)
  then obtain f where "do_call bench_repository c s = (Inr (), s\<lparr>bn_repo := f\<rparr>)" "good_fake f"
      "fake_phases f = after_call (fk_clock (bn_repo s)) c (fake_phases (bn_repo s))"
      "fk_models f = fk_models (bn_repo s)" "fk_clock f = fk_clock (bn_repo s)"
    using bench_call [of s c] by auto
  then show ?case by (simp add: good_bench_def)
next
  case (4 s n)
  then show ?case
    using fake.find_stale_running [of "bn_repo s" n] by (auto simp: bench_repository_def on_repo_def good_bench_def)
next
  case (5 s n)
  then show ?case
    using fake.find_orphan_queued [of "bn_repo s" n] by (auto simp: bench_repository_def on_repo_def good_bench_def)
qed

lemmas bench_defs = leads_def good_bench_def bench_queue_def on_fakeredis_def board_of_bench_def

sublocale redis_server \<subseteq> bench: worker_contract bench_repository good_bench board_of_bench "bench_queue R" "bench_status R"
proof (intro worker_contract.intro worker_contract_axioms.intro bench_job_contract, goal_cases)
  case (1 s c)
  then obtain f where f: "do_call fake_repository c (bn_repo s) = (Inr (), f)" "do_call bench_repository c s = (Inr (), s\<lparr>bn_repo := f\<rparr>)"
      "fake_phases f = after_call (fk_clock (bn_repo s)) c (fake_phases (bn_repo s))"
      "fk_models f = fk_models (bn_repo s)" "fk_clock f = fk_clock (bn_repo s)"
    using bench_call [of s c] by auto
  have "map_option job_spec (map_of (fk_jobs f) k) = map_option job_spec (map_of (fk_jobs (bn_repo s)) k)" for k
    using fake_call_spec [of c "bn_repo s" k] f(1) by simp
  then show ?case using f by (simp add: board_of_bench_def call_board_def)
next
  case (2 s i j)
  then show ?case
    by (auto simp: bench_repository_def on_repo_def fake_repository_def board_of_bench_def job_spec_def)
next
  case (3 s jid st b)
  then show ?case by (simp add: bench_defs bench_status_def publish_lists)
next
  case (4 s jid)
  then show ?case by (simp add: bench_defs ack_board_def ack_lists)
next
  case (5 s jid)
  then show ?case by (simp add: bench_defs requeue_board_def requeue_lists)
next
  case (6 s)
  then show ?case by (simp add: bench_defs queue_id_sets)
next
  case (7 s)
  then show ?case by (simp add: bench_defs queue_id_sets)
qed

section \<open>What a test shows of production\<close>

lemma passive_stub: "passive_executor (\<lambda>i. Inr (''checkpoints/'' @ uuid_str i @ ''/'')) stub_executor"
  unfolding passive_executor_def stub_executor_def checkpoint_prefix_def
  by (fastforce simp: seq_def bind_def ret_apply)

context redis_server begin

lemma production_work:
  assumes "passive_executor v exec" and "good_world w"
  shows "\<exists>w'. work_all (new_job_processor R n exec) cs w = (Inr (fst (worked v cs (board_of_world w))), w')
    \<and> board_of_world w' = snd (worked v cs (board_of_world w))"
  using prod.work_board [OF assms] by (auto simp: leads_def new_job_processor_def)

lemma bench_work:
  assumes "passive_executor v exec" and "good_bench b"
  shows "\<exists>b'. work_all (bench_processor R exec) cs b = (Inr (fst (worked v cs (board_of_bench b))), b')
    \<and> board_of_bench b' = snd (worked v cs (board_of_bench b))"
  using bench.work_board [OF assms] by (auto simp: leads_def bench_processor_def)

end

text \<open>
  C4: what the tests show holds in production: from a bench and a world that agree on their boards (the
  phases and specifications of the jobs, the ids queued and in flight, the allow-list, the time), any
  sequence of calls to the processor and the reconciler returns on both, with the same statistics, and
  leads to the same board, the one the abstract specification computes. The executor may end each job as it
  likes and beats as often as it likes.
\<close>

theorem tests_carry_over:
  assumes "redis_server R" and "redis_server T" and "passive_executor v exec" and "passive_executor v exec'"
    and "good_world w" and "good_bench b" and "board_of_world w = board_of_bench b"
  shows "\<exists>rs w' b'. work_all (new_job_processor R n exec) cs w = (Inr rs, w')
    \<and> work_all (bench_processor T exec') cs b = (Inr rs, b')
    \<and> board_of_world w' = board_of_bench b' \<and> worked v cs (board_of_bench b) = (rs, board_of_bench b')"
  using redis_server.production_work [OF assms(1,3,5), of n cs] redis_server.bench_work [OF assms(2,4,6), of cs]
  by (auto simp: assms(7) prod_eq_iff)

definition sample_bench :: bench where
  "sample_bench = \<lparr>bn_repo = \<lparr>fk_jobs = [(1, sample_job 1 QUEUED ''ds/a.csv'')],
       fk_models = [(''org/model'', \<lparr>hf_repo_id = ''org/model'', revision = ''main'',
          param_count = Some 7000000000, vram_hint = Some ''comfortable''\<rparr>)], fk_calls = [], fk_clock = 100\<rparr>,
     bn_redis = sample_redis\<rparr>"

lemma sample_boards: "board_of_world (sample_world [sample_row 1 QUEUED ''ds/a.csv''] []) = board_of_bench sample_bench"
proof -
  have r: "row_to_job (sample_row 1 QUEUED ''ds/a.csv'') = Inr (sample_job 1 QUEUED ''ds/a.csv'')"
    using sample_get_job [of 1 QUEUED "''ds/a.csv''" "[]"] by (simp add: db_get_job_def split: sum.splits)
  have "db_get_model_meta m sample_models = map_of (fk_models (bn_repo sample_bench)) m" for m
    by (simp add: sample_bench_def sample_models_def db_get_model_meta_def)
  then show ?thesis
    using row_to_job_phase [OF r] row_to_job_spec [OF r]
    by (auto simp: board_of_world_def board_of_bench_def sample_bench_def fun_eq_iff world_phases_def fake_phases_def job_at_def job_spec_def)
qed

theorem tests_carry_over_witness:
  "\<exists>rs w' b'. work_all (new_job_processor reference_services 5 stub_executor) [Process (uuid_str 1), Reconcile 60 30]
        (sample_world [sample_row 1 QUEUED ''ds/a.csv''] []) = (Inr rs, w')
    \<and> work_all (bench_processor reference_services stub_executor) [Process (uuid_str 1), Reconcile 60 30] sample_bench = (Inr rs, b')
    \<and> world_phases w' 1 = Some (Completed (''checkpoints/'' @ uuid_str 1 @ ''/'')) \<and> world_phases w' = fake_phases (bn_repo b')"
proof -
  let ?w = "sample_world [sample_row 1 QUEUED ''ds/a.csv''] []" and ?v = "\<lambda>i. Inr (''checkpoints/'' @ uuid_str i @ ''/'') :: exn + string"
  have r: "row_to_job (sample_row 1 QUEUED ''ds/a.csv'') = Inr (sample_job 1 QUEUED ''ds/a.csv'')"
    using sample_get_job [of 1 QUEUED "''ds/a.csv''" "[]"] by (simp add: db_get_job_def split: sum.splits)
  have g: "good_world ?w" "good_bench sample_bench"
    by (simp_all add: good_world_def decodable_def r good_bench_def good_fake_def sample_bench_def)
  have m: "gate (\<lambda>m. db_get_model_meta m sample_models) ''org/model'' ''ds/a.csv'' = Inr x" if "preflight (sh ?w) (sample_job 1 QUEUED ''ds/a.csv'') = Inr x" for x
    using that by (simp add: preflight_def sample_job_def)
  let ?b = "board_of_world ?w" and ?ckpt = "''checkpoints/'' @ uuid_str 1 @ ''/''"
  have b: "bd_phases ?b 1 = Some (Queued 1 2)" "bd_allowed ?b = (\<lambda>m. db_get_model_meta m sample_models)"
      "bd_specs ?b 1 = Some (''org/model'', ''ds/a.csv'')"
    by (simp_all add: board_of_world_def world_phases_def row_spec_def, simp_all add: sample_row_def row_phase_def phase_of_def)
  have "processed ?v (uuid_str 1) ?b = ack_board (uuid_str 1) (call_board (Complete 1 ?ckpt) (call_board (Start 1) ?b))"
    using m [OF sample_preflight_csv] by (simp add: processed_def b outcome_def del: board_of_world_fields)
  then have "bd_phases (processed ?v (uuid_str 1) ?b) 1 = Some (Completed ?ckpt)"
    using b(1) by (simp add: ack_board_def after_call_def del: board_of_world_fields)
  then have "bd_phases (snd (swept 60 30 (processed ?v (uuid_str 1) ?b))) 1 = Some (Completed ?ckpt)"
    by (rule swept_finished) simp
  then have "bd_phases (snd (worked ?v [Process (uuid_str 1), Reconcile 60 30] ?b)) 1 = Some (Completed ?ckpt)"
    by (simp add: case_prod_beta)
  moreover obtain rs w' b' where t:
      "work_all (new_job_processor reference_services 5 stub_executor) [Process (uuid_str 1), Reconcile 60 30] ?w = (Inr rs, w')"
      "work_all (bench_processor reference_services stub_executor) [Process (uuid_str 1), Reconcile 60 30] sample_bench = (Inr rs, b')"
      "board_of_world w' = board_of_bench b'"
      "worked ?v [Process (uuid_str 1), Reconcile 60 30] (board_of_bench sample_bench) = (rs, board_of_bench b')"
    using tests_carry_over [OF redis_server_reference redis_server_reference passive_stub passive_stub g sample_boards,
        of 5 "[Process (uuid_str 1), Reconcile 60 30]"] by blast
  ultimately have "fake_phases (bn_repo b') 1 = Some (Completed ?ckpt)"
    by (simp add: sample_boards del: worked.simps)
  moreover have "world_phases w' = fake_phases (bn_repo b')"
    using arg_cong [where f = bd_phases, OF t(3)] by simp
  ultimately show ?thesis using t(1,2) by auto
qed

end
