(* ===== verification/Unit_Tests.thy ===== *)
theory Unit_Tests imports Test_Bench "HOL-Library.Sublist" begin

text \<open>
  The tests of the processor and the reconciler (\<open>worker/tests/test_processor.py\<close>,
  \<open>worker/tests/test_reconciler.py\<close>), run on the model of the bench they use: what the authors of
  the code expect of it is what the definitions compute. With \<open>tests_carry_over\<close> of \<open>Test_Bench\<close> each
  outcome is one of production, too.
\<close>

section \<open>The sample values\<close>

text \<open>\<open>2e-4\<close> is the double \<open>7378697629483821 / 2 ^ 65\<close>; \<open>ts\<close> is the \<open>now()\<close> of the call, \<open>new\<close> its \<open>uuid4()\<close>.\<close>

definition make_job ::
  "int \<Rightarrow> uuid \<Rightarrow> job_status \<Rightarrow> string \<Rightarrow> string \<Rightarrow> uuid option \<Rightarrow> int option \<Rightarrow> int option \<Rightarrow> job" where
  "make_job ts new status model path jid created updated =
     \<lparr>job_id = (case jid of None \<Rightarrow> new | Some i \<Rightarrow> i), job_state = status, base_model = model, dataset_path = path,
      hyperparams = \<lparr>learning_rate = JFloat 7378697629483821 (- 65), epochs = JInt 3, batch_size = JInt 2,
        lora_rank = JInt 16, lora_alpha = JFloat 1 5\<rparr>,
      checkpoint_path = None, error_message = None,
      created_at = (case created of None \<Rightarrow> ts | Some t \<Rightarrow> t), updated_at = (case updated of None \<Rightarrow> ts | Some t \<Rightarrow> t)\<rparr>"

definition test_model :: string where
  "test_model = ''mistralai/Mistral-7B-Instruct-v0.2''"

definition comfortable_model :: "string \<Rightarrow> model_meta" where
  "comfortable_model repo = \<lparr>hf_repo_id = repo, revision = ''deadbeef'', param_count = Some 7000000000,
     vram_hint = Some ''comfortable''\<rparr>"

text \<open>\<open>self.jobs[job.id] = job\<close>: a key that is there keeps its place.\<close>

definition dict_set :: "'k \<Rightarrow> 'v \<Rightarrow> ('k \<times> 'v) list \<Rightarrow> ('k \<times> 'v) list" where
  "dict_set k v kvs = (if k \<in> fst ` set kvs then map (\<lambda>(x, y). (x, if x = k then v else y)) kvs else kvs @ [(k, v)])"

definition add_job :: "job \<Rightarrow> fake_repo \<Rightarrow> fake_repo" where
  "add_job j s = s\<lparr>fk_jobs := dict_set (job_id j) j (fk_jobs s)\<rparr>"

definition add_model :: "model_meta \<Rightarrow> fake_repo \<Rightarrow> fake_repo" where
  "add_model m s = s\<lparr>fk_models := dict_set (hf_repo_id m) m (fk_models s)\<rparr>"

definition method_calls :: "string \<Rightarrow> fake_repo \<Rightarrow> uuid list" where
  "method_calls name s = map snd (filter (\<lambda>(f, i). f = name) (fk_calls s))"

lemma map_of_dict_set: "map_of (dict_set k v kvs) = (map_of kvs)(k \<mapsto> v)"
proof -
  have a: "map_of (kvs @ [(k, v)]) = (map_of kvs)(k \<mapsto> v)" if "k \<notin> fst ` set kvs"
    using that by (induction kvs) (auto simp: fun_eq_iff)
  have b: "map_of (map (\<lambda>(x, y). (x, if x = k then v else y)) kvs) x
      = (if x = k then map_option (\<lambda>_. v) (map_of kvs k) else map_of kvs x)" for x
    by (induction kvs) auto
  show ?thesis
    using a b map_of_eq_None_iff [of kvs k] unfolding dict_set_def by (auto simp: fun_eq_iff)
qed

lemma good_add_job: "good_fake s \<Longrightarrow> good_fake (add_job j s)"
  by (fastforce simp: good_fake_def add_job_def dict_set_def list_all_iff comp_def case_prod_beta)

section \<open>The fixtures\<close>

text \<open>The fake server is any one with the documented behaviour; the tests start at time \<open>t0\<close>, in 2026.\<close>

definition t0 :: int where
  "t0 = 1775520000000000"

definition fresh_bench :: bench where
  "fresh_bench = \<lparr>bn_repo = \<lparr>fk_jobs = [], fk_models = [], fk_calls = [], fk_clock = t0\<rparr>,
     bn_redis = \<lparr>rlists = (\<lambda>_. []), rhashes = (\<lambda>_. None)\<rparr>\<rparr>"

definition with_job :: "job \<Rightarrow> bench \<Rightarrow> bench" where
  "with_job j s = s\<lparr>bn_repo := add_job j (bn_repo s)\<rparr>"

definition with_model :: "model_meta \<Rightarrow> bench \<Rightarrow> bench" where
  "with_model m s = s\<lparr>bn_repo := add_model m (bn_repo s)\<rparr>"

definition pushed :: "services \<Rightarrow> string \<Rightarrow> string \<Rightarrow> bench \<Rightarrow> bench" where
  "pushed T key jid s = s\<lparr>bn_redis := lpush T key jid (bn_redis s)\<rparr>"

definition simulate_claim :: "services \<Rightarrow> string \<Rightarrow> bench \<Rightarrow> bench" where
  "simulate_claim T jid = pushed T PROCESSING_KEY jid"

definition stored :: "uuid \<Rightarrow> bench \<Rightarrow> job option" where
  "stored i s = map_of (fk_jobs (bn_repo s)) i"

text \<open>\<open>fake_redis.hget(key, field)\<close>.\<close>

definition live_status :: "services \<Rightarrow> uuid \<Rightarrow> bench \<Rightarrow> string option" where
  "live_status T i s = (case hgetall T (fk_clock (bn_repo s)) (status_key (uuid_str i)) (bn_redis s) of
     None \<Rightarrow> None | Some h \<Rightarrow> h ''status'')"

definition raising_executor :: "bench job_executor" where
  "raising_executor j m hb = raise (RuntimeError ''cuda exploded'')"

text \<open>A test of the processor: its job, its model, its executor.\<close>

definition processed_bench ::
  "services \<Rightarrow> bench job_executor \<Rightarrow> string \<Rightarrow> bench \<Rightarrow> (exn + unit) \<times> bench" where
  "processed_bench T exec raw s = processor_process (bench_processor T exec) raw (simulate_claim T raw s)"

definition queued_job :: "uuid \<Rightarrow> job" where
  "queued_job i = make_job t0 i QUEUED test_model ''datasets/demo/abc123.csv'' None None None"

lemmas test_setup = processed_bench_def simulate_claim_def pushed_def with_model_def with_job_def fresh_bench_def
  add_job_def add_model_def dict_set_def make_job_def queued_job_def comfortable_model_def stored_def

lemmas bench_run = bench_processor_def processor_process_def processor_run_def processor_fail_def
  processor_handler_def processor_heartbeat_def bench_repository_def bench_queue_def bench_status_def on_repo_def
  on_fakeredis_def fake_repository_def fake_change_def fake_job_defs bind_def seq_def try_else_def lift_sum_def
  ret_apply raise_apply TERMINAL_STATUSES_def check_model_fits_def TIGHT_MAX_PARAMS_def

lemma csv_supported: "validate_dataset_format ''datasets/demo/abc123.csv'' = Inr (Some ''csv'')"
  by code_simp

lemma txt_unsupported:
  "validate_dataset_format ''datasets/demo/x.txt'' = Inl (unsupported_format_error ''txt'' ''datasets/demo/x.txt'')"
  by code_simp

lemma malformed_id: "uuid_of_text ''not-a-uuid'' = None"
  by code_simp

lemma sublist_between: "sublist ys (xs @ ys @ zs)"
  unfolding sublist_def by blast

lemma txt_in_message: "sublist ''txt'' (exn_str (unsupported_format_error ''txt'' ''datasets/demo/x.txt''))"
  by code_simp

lemma allow_list_in_message: "sublist ''allow-list'' (exn_str (not_allowed_error m))"
  using sublist_between [of "''allow-list''" "''base model '' @ repr_str m @ '' is not in the ''" "[]"]
  by (simp add: not_allowed_error_def)

lemma rejections: "is_rejection (unsupported_format_error f p)" "is_rejection (not_allowed_error m)"
  by (simp_all add: unsupported_format_error_def not_allowed_error_def)

lemma cuda_in_message: "sublist ''cuda exploded'' ''worker error: cuda exploded''"
  by code_simp

text \<open>A test of the reconciler: the age of its job in seconds, and the sweep.\<close>

definition aged :: "job_status \<Rightarrow> int \<Rightarrow> uuid \<Rightarrow> job" where
  "aged st n i = make_job t0 i st test_model ''datasets/demo/abc123.csv'' None (Some (t0 - seconds n)) (Some (t0 - seconds n))"

definition reconciled_bench :: "services \<Rightarrow> bench \<Rightarrow> (exn + reconcile_stats) \<times> bench" where
  "reconciled_bench T = reconciler_reconcile \<lparr>rc_repo = bench_repository, rc_queue = bench_queue T, rc_status = bench_status T,
     rc_visibility_timeout_seconds = 15 * 60, rc_orphan_grace_seconds = 60\<rparr>"

lemmas sweep_run = reconciled_bench_def reconciler_reconcile_def reconciler_abandoned_def reconciler_orphaned_def
  reconciler_recover_def fake_find_def aged_def seconds_def

context redis_server begin

lemma live_status_published:
  "live_status R i s = published_status (fk_clock (bn_repo s)) (uuid_str i) (bn_redis s)"
  by (simp add: live_status_def published_status_def hgetall_doc split: option.split)

lemma published_ack: "published_status t jid (queue_ack R raw s) = published_status t jid s"
  by (simp add: published_status_def live_hash_def queue_ack_def lrem_all_doc)

lemmas observe = live_status_published published_ack publish_read queue_id_sets publish_lists
  ack_lists requeue_lists lpush_doc

section \<open>The tests of the processor\<close>

lemma test_completes_valid_job:
  "\<exists>s. processed_bench R stub_executor (uuid_str i)
       (with_model (comfortable_model test_model) (with_job (queued_job i) fresh_bench)) = (Inr (), s)
     \<and> map_option job_state (stored i s) = Some COMPLETED
     \<and> map_option checkpoint_path (stored i s) = Some (Some (checkpoint_prefix (queued_job i)))
     \<and> in_flight_ids R (bn_redis s) = {} \<and> live_status R i s = Some ''completed''
     \<and> method_calls ''heartbeat'' (bn_repo s) = [i]"
  by (simp add: test_setup bench_run csv_supported stub_executor_def observe method_calls_def checkpoint_prefix_def)

lemma test_cancelled_job_is_skipped:
  "\<exists>s. processed_bench R stub_executor (uuid_str i)
       (with_job (make_job t0 i CANCELLED test_model ''datasets/demo/abc123.csv'' None None None) fresh_bench) = (Inr (), s)
     \<and> method_calls ''mark_running'' (bn_repo s) = [] \<and> map_option job_state (stored i s) = Some CANCELLED
     \<and> in_flight_ids R (bn_redis s) = {}"
  by (simp add: test_setup bench_run observe method_calls_def)

lemma test_unsupported_dataset_fails_job:
  "\<exists>s. processed_bench R stub_executor (uuid_str i)
       (with_model (comfortable_model test_model)
         (with_job (make_job t0 i QUEUED test_model ''datasets/demo/x.txt'' None None None) fresh_bench)) = (Inr (), s)
     \<and> map_option job_state (stored i s) = Some FAILED
     \<and> (\<exists>msg. map_option error_message (stored i s) = Some (Some msg) \<and> sublist ''txt'' msg)
     \<and> in_flight_ids R (bn_redis s) = {} \<and> live_status R i s = Some ''failed''"
  by (simp add: test_setup bench_run txt_unsupported rejections observe txt_in_message)

lemma test_unknown_model_fails_job:
  "\<exists>s. processed_bench R stub_executor (uuid_str i) (with_job (queued_job i) fresh_bench) = (Inr (), s)
     \<and> map_option job_state (stored i s) = Some FAILED
     \<and> (\<exists>msg. map_option error_message (stored i s) = Some (Some msg) \<and> sublist ''allow-list'' msg)
     \<and> in_flight_ids R (bn_redis s) = {}"
  by (simp add: test_setup bench_run csv_supported rejections observe allow_list_in_message)

lemma test_oversized_model_fails_job:
  "\<exists>s. processed_bench R stub_executor (uuid_str i)
       (with_model \<lparr>hf_repo_id = test_model, revision = ''rev'', param_count = Some 70000000000, vram_hint = Some ''unsupported''\<rparr>
         (with_job (queued_job i) fresh_bench)) = (Inr (), s)
     \<and> map_option job_state (stored i s) = Some FAILED \<and> in_flight_ids R (bn_redis s) = {}"
  by (simp add: test_setup bench_run csv_supported observe)

lemma test_malformed_job_id_is_discarded:
  "\<exists>s. processed_bench R stub_executor ''not-a-uuid'' fresh_bench = (Inr (), s)
     \<and> in_flight_ids R (bn_redis s) = {} \<and> fk_calls (bn_repo s) = []"
  by (simp add: test_setup bench_run malformed_id observe)

lemma test_missing_job_is_acked:
  "\<exists>s. processed_bench R stub_executor (uuid_str i) fresh_bench = (Inr (), s) \<and> in_flight_ids R (bn_redis s) = {}"
  by (simp add: test_setup bench_run observe)

lemma test_executor_failure_marks_job_failed:
  "\<exists>s. processed_bench R raising_executor (uuid_str i)
       (with_model (comfortable_model test_model) (with_job (queued_job i) fresh_bench)) = (Inr (), s)
     \<and> map_option job_state (stored i s) = Some FAILED
     \<and> (\<exists>msg. map_option error_message (stored i s) = Some (Some msg) \<and> sublist ''cuda exploded'' msg)
     \<and> in_flight_ids R (bn_redis s) = {}"
  by (simp add: test_setup bench_run csv_supported raising_executor_def observe cuda_in_message)

section \<open>The tests of the reconciler\<close>

lemma test_abandoned_running_job_is_requeued:
  "\<exists>stats s. reconciled_bench R (with_job (aged RUNNING (20 * 60) i) fresh_bench) = (Inr stats, s)
     \<and> abandoned_running stats = 1 \<and> map_option job_state (stored i s) = Some QUEUED
     \<and> queued_ids R (bn_redis s) = {uuid_str i}"
  by (simp add: sweep_run bench_run test_setup observe)

lemma test_live_running_job_is_left_alone:
  "\<exists>stats s. reconciled_bench R (with_job (aged RUNNING 0 i) fresh_bench) = (Inr stats, s)
     \<and> abandoned_running stats = 0 \<and> map_option job_state (stored i s) = Some RUNNING \<and> queued_ids R (bn_redis s) = {}"
  by (simp add: sweep_run bench_run test_setup observe)

lemma test_orphan_queued_job_is_requeued:
  "\<exists>stats s. reconciled_bench R (with_job (aged QUEUED (5 * 60) i) fresh_bench) = (Inr stats, s)
     \<and> orphaned_queued stats = 1 \<and> queued_ids R (bn_redis s) = {uuid_str i}"
  by (simp add: sweep_run bench_run test_setup observe)

lemma test_queued_job_already_in_redis_is_not_requeued:
  "\<exists>stats s. reconciled_bench R (pushed R QUEUE_KEY (uuid_str i) (with_job (aged QUEUED (5 * 60) i) fresh_bench)) = (Inr stats, s)
     \<and> orphaned_queued stats = 0 \<and> lrange R QUEUE_KEY 0 (- 1) (bn_redis s) = [uuid_str i]"
  by (simp add: sweep_run bench_run test_setup observe list_docs)

lemma test_queued_job_in_flight_is_not_requeued:
  "\<exists>stats s. reconciled_bench R (simulate_claim R (uuid_str i) (with_job (aged QUEUED (5 * 60) i) fresh_bench)) = (Inr stats, s)
     \<and> orphaned_queued stats = 0 \<and> queued_ids R (bn_redis s) = {}"
  by (simp add: sweep_run bench_run test_setup observe)

lemma test_fresh_queued_job_within_grace_is_ignored:
  "\<exists>stats s. reconciled_bench R (with_job (aged QUEUED 0 i) fresh_bench) = (Inr stats, s)
     \<and> orphaned_queued stats = 0 \<and> queued_ids R (bn_redis s) = {}"
  by (simp add: sweep_run bench_run test_setup observe)

end

end
