(* ===== verification/Backend_Start.thy ===== *)
theory Backend_Start imports Config begin

text \<open>
  How the backend starts and stops: \<open>backend/internal/config/config.go\<close>, the constructors
  \<open>NewPool\<close> of \<open>db/postgres.go\<close> and \<open>NewClient\<close> of \<open>queue/redis.go\<close>, and \<open>main\<close> of
  \<open>backend/cmd/api/main.go\<close> from the environment to the exit code. The drivers (pgx, go-redis) are
  a record of functions; how the HTTP server ends is an argument. \<open>Api\<close> models what it serves.
\<close>

section \<open>The configuration\<close>

record backend_config =
  bc_port :: string
  bc_database_url :: string
  bc_redis_url :: string
  bc_garage_endpoint :: string
  bc_garage_access_key :: string
  bc_garage_secret_key :: string
  bc_garage_bucket :: string

text \<open>\<open>os.Getenv\<close>: the empty text for a variable that is not set.\<close>

definition go_getenv :: "environ \<Rightarrow> string \<Rightarrow> string" where
  "go_getenv env key = (case env key of None \<Rightarrow> [] | Some v \<Rightarrow> v)"

text \<open>The closure \<open>get\<close>, with the list it appends to handed through.\<close>

definition get_required :: "environ \<Rightarrow> string \<Rightarrow> string list \<Rightarrow> string \<times> string list" where
  "get_required env key missing =
     (let v = go_getenv env key in if v = [] then (v, missing @ [key]) else (v, missing))"

definition backend_load :: "environ \<Rightarrow> string + backend_config" where
  "backend_load env =
     (let (db, m1) = get_required env ''DATABASE_URL'' [];
          (redis, m2) = get_required env ''REDIS_URL'' m1;
          (endpoint, m3) = get_required env ''GARAGE_ENDPOINT'' m2;
          (access, m4) = get_required env ''GARAGE_ACCESS_KEY'' m3;
          (secret, m5) = get_required env ''GARAGE_SECRET_KEY'' m4;
          (bucket, missing) = get_required env ''GARAGE_BUCKET'' m5
      in if missing \<noteq> [] then Inl (''missing required environment variables: '' @ join '', '' missing)
         else let port = go_getenv env ''PORT'' in
           Inr \<lparr>bc_port = (if port = [] then ''8080'' else port), bc_database_url = db, bc_redis_url = redis,
             bc_garage_endpoint = endpoint, bc_garage_access_key = access,
             bc_garage_secret_key = secret, bc_garage_bucket = bucket\<rparr>)"

lemma go_getenv_code: "go_getenv env key = env_get env key []"
  by (simp add: go_getenv_def env_get_def)

lemma get_required_code:
  "get_required env key missing =
     (env_get env key [], missing @ (if env_present env key then [] else [key]))"
  by (simp add: get_required_def go_getenv_code env_present_def)

text \<open>Both loaders ask for the same variables in the same order.\<close>

lemma missing_env_code:
  "missing_env env = (if env_present env ''DATABASE_URL'' then [] else [''DATABASE_URL''])
     @ (if env_present env ''REDIS_URL'' then [] else [''REDIS_URL''])
     @ (if env_present env ''GARAGE_ENDPOINT'' then [] else [''GARAGE_ENDPOINT''])
     @ (if env_present env ''GARAGE_ACCESS_KEY'' then [] else [''GARAGE_ACCESS_KEY''])
     @ (if env_present env ''GARAGE_SECRET_KEY'' then [] else [''GARAGE_SECRET_KEY''])
     @ (if env_present env ''GARAGE_BUCKET'' then [] else [''GARAGE_BUCKET''])"
  by (simp add: missing_env_def REQUIRED_ENV_def)

lemma backend_load_code:
  "backend_load env =
     (if missing_env env \<noteq> []
      then Inl (''missing required environment variables: '' @ join '', '' (missing_env env))
      else Inr \<lparr>bc_port = (if env_get env ''PORT'' [] = [] then ''8080'' else env_get env ''PORT'' []),
        bc_database_url = env_get env ''DATABASE_URL'' [], bc_redis_url = env_get env ''REDIS_URL'' [],
        bc_garage_endpoint = env_get env ''GARAGE_ENDPOINT'' [],
        bc_garage_access_key = env_get env ''GARAGE_ACCESS_KEY'' [],
        bc_garage_secret_key = env_get env ''GARAGE_SECRET_KEY'' [],
        bc_garage_bucket = env_get env ''GARAGE_BUCKET'' []\<rparr>)"
  unfolding missing_env_code
  by (simp only: backend_load_def get_required_code Let_def prod.case append_assoc append_Nil go_getenv_code
      env_present_def if_not_P not_not simp_thms)

section \<open>The connections\<close>

record ('c, 'p, 'o, 'q) drivers =
  parse_pool_config :: "string \<Rightarrow> string + 'c"
  set_max_conns :: "nat \<Rightarrow> 'c \<Rightarrow> 'c"
  open_pool :: "'c \<Rightarrow> string + 'p"
  ping_pool :: "'p \<Rightarrow> string option"
  parse_redis_url :: "string \<Rightarrow> string + 'o"
  open_redis :: "'o \<Rightarrow> 'q"
  ping_redis :: "'q \<Rightarrow> string option"

datatype resource = Pool | Redis

datatype api_event =
    Opened resource
  | Closed resource
  | Logged string string
  | Listening string
  | ShutDown

definition maxConns :: nat where
  "maxConns = 10"

definition new_pool :: "('c, 'p, 'o, 'q) drivers \<Rightarrow> string \<Rightarrow> (string + 'p) \<times> api_event list" where
  "new_pool d databaseURL = (case parse_pool_config d databaseURL of
     Inl e \<Rightarrow> (Inl (''parse database URL: '' @ e), [])
   | Inr cfg \<Rightarrow> (case open_pool d (set_max_conns d maxConns cfg) of
       Inl e \<Rightarrow> (Inl (''open connection pool: '' @ e), [])
     | Inr pool \<Rightarrow> (case ping_pool d pool of
         Some e \<Rightarrow> (Inl (''ping database: '' @ e), [Opened Pool, Closed Pool])
       | None \<Rightarrow> (Inr pool, [Opened Pool]))))"

definition new_client :: "('c, 'p, 'o, 'q) drivers \<Rightarrow> string \<Rightarrow> (string + 'q) \<times> api_event list" where
  "new_client d redisURL = (case parse_redis_url d redisURL of
     Inl e \<Rightarrow> (Inl (''parse redis URL: '' @ e), [])
   | Inr opts \<Rightarrow> (let client = open_redis d opts in
       case ping_redis d client of
         Some e \<Rightarrow> (Inl (''ping redis: '' @ e), [Opened Redis, Closed Redis])
       | None \<Rightarrow> (Inr client, [Opened Redis])))"

section \<open>From the environment to the exit code\<close>

text \<open>
  How the \<open>select\<close> of \<open>main\<close> goes on: a signal cancelled the context, or \<open>ListenAndServe\<close> returned an
  error; and what \<open>Shutdown\<close> says. A deferred call does not run on \<open>os.Exit\<close>.
\<close>

datatype server_end = SignalReceived | ServerFailed string

definition run_server :: "server_end \<Rightarrow> string option \<Rightarrow> string \<Rightarrow> api_event list" where
  "run_server ends shutdown addr =
     [Logged ''server starting'' addr, Listening addr]
     @ (case ends of SignalReceived \<Rightarrow> [Logged ''shutting down'' []] | ServerFailed e \<Rightarrow> [Logged ''server error'' e])
     @ [ShutDown] @ (case shutdown of None \<Rightarrow> [] | Some e \<Rightarrow> [Logged ''graceful shutdown failed'' e])"

definition api_main ::
  "('c, 'p, 'o, 'q) drivers \<Rightarrow> server_end \<Rightarrow> string option \<Rightarrow> environ \<Rightarrow> nat \<times> api_event list" where
  "api_main d ends shutdown env = (case backend_load env of
     Inl e \<Rightarrow> (1, [Logged ''load config'' e])
   | Inr cfg \<Rightarrow> (case new_pool d (bc_database_url cfg) of
       (Inl e, es) \<Rightarrow> (1, es @ [Logged ''connect to postgres'' e])
     | (Inr pool, es) \<Rightarrow> (case new_client d (bc_redis_url cfg) of
         (Inl e, fs) \<Rightarrow> (1, es @ fs @ [Logged ''connect to redis'' e])
       | (Inr q, fs) \<Rightarrow>
           (0, es @ fs @ run_server ends shutdown ('':'' @ bc_port cfg) @ [Closed Redis, Closed Pool]))))"

text \<open>What is open after a run.\<close>

fun left_open :: "resource set \<Rightarrow> api_event list \<Rightarrow> resource set" where
  "left_open rs [] = rs"
| "left_open rs (Opened r # es) = left_open (insert r rs) es"
| "left_open rs (Closed r # es) = left_open (rs - {r}) es"
| "left_open rs (_ # es) = left_open rs es"

lemma left_open_append [simp]: "left_open rs (es @ fs) = left_open (left_open rs es) fs"
  by (induction rs es rule: left_open.induct) simp_all

lemma left_open_server [simp]: "left_open rs (run_server ends shutdown addr) = rs"
  by (simp add: run_server_def split: server_end.split option.split)

lemma new_pool_open:
  "case new_pool d url of (r, es) \<Rightarrow>
     left_open rs es - {Pool} = rs - {Pool} \<and> (isl r \<longrightarrow> Pool \<notin> rs \<longrightarrow> left_open rs es = rs)"
  by (simp add: new_pool_def split: sum.split option.split)

lemma new_client_open:
  "case new_client d url of (r, es) \<Rightarrow>
     left_open rs es - {Redis} = rs - {Redis} \<and> (isl r \<longrightarrow> Redis \<notin> rs \<longrightarrow> left_open rs es = rs)"
  by (simp add: new_client_def Let_def split: sum.split option.split)

text \<open>
  A process that served has closed everything when it ends; one that exits early leaves at most the
  pool open, which is the case when Redis is not there.
\<close>

theorem api_main_releases:
  "left_open {} (snd (api_main d ends shutdown env)) \<subseteq> (if fst (api_main d ends shutdown env) = 0 then {} else {Pool})"
proof (cases "backend_load env")
  case (Inr cfg)
  obtain r es where p: "new_pool d (bc_database_url cfg) = (r, es)" by fastforce
  obtain t fs where q: "new_client d (bc_redis_url cfg) = (t, fs)" by fastforce
  have es: "left_open {} es \<subseteq> {Pool}" "isl r \<Longrightarrow> left_open {} es = {}"
    using new_pool_open [where d = d and url = "bc_database_url cfg" and rs = "{}"] by (auto simp: p)
  have fs: "left_open rs fs \<subseteq> insert Redis rs" "isl t \<Longrightarrow> Redis \<notin> rs \<Longrightarrow> left_open rs fs = rs" for rs
    using new_client_open [where d = d and url = "bc_redis_url cfg" and rs = rs] by (auto simp: q)
  show ?thesis
    using es fs [of "left_open {} es"]
    by (cases r; cases t) (auto simp: api_main_def Inr p q)
qed (simp add: api_main_def)

text \<open>A server that fails to listen, or dies of an error, ends the process with exit code 0 like a signal does.\<close>

theorem server_failure_exits_with_success:
  "fst (api_main d (ServerFailed e) shutdown env) = fst (api_main d SignalReceived shutdown env)"
  by (simp add: api_main_def split: sum.split prod.split)

section \<open>One environment for the backend and the worker\<close>

lemma optional_error:
  "int_env env k n = Inl e \<Longrightarrow> env k \<noteq> None" "gpu_ids_env env k g = Inl e \<Longrightarrow> env k \<noteq> None"
  by (cases "env k"; simp add: int_env_def gpu_ids_env_def)+

abbreviation worker_settings :: "string set" where
  "worker_settings \<equiv> {''QUEUE_BLOCK_SECONDS'', ''VISIBILITY_TIMEOUT_SECONDS'',
     ''RECONCILE_INTERVAL_SECONDS'', ''ORPHAN_GRACE_SECONDS'', ''CRUCIBLE_GPUS''}"

lemma load_setting_error:
  assumes "load env = Inl e" and "missing_env env = []"
  shows "\<exists>k. env k \<noteq> None \<and> k \<in> worker_settings"
proof -
  from assms consider k n where "int_env env k n = Inl e" "k \<in> worker_settings"
    | k g where "gpu_ids_env env k g = Inl e" "k \<in> worker_settings"
    unfolding load_def by (simp split: sum.splits)
  then show ?thesis
    using optional_error by cases metis+
qed

lemma load_services:
  "load env = Inr c \<Longrightarrow>
     database_url c = env_get env ''DATABASE_URL'' [] \<and> redis_url c = env_get env ''REDIS_URL'' []
     \<and> garage_endpoint c = env_get env ''GARAGE_ENDPOINT'' [] \<and> garage_access_key c = env_get env ''GARAGE_ACCESS_KEY'' []
     \<and> garage_secret_key c = env_get env ''GARAGE_SECRET_KEY'' [] \<and> garage_bucket c = env_get env ''GARAGE_BUCKET'' []"
  unfolding load_def by (clarsimp split: sum.splits if_splits)


end
