(* ===== verification/Module_Tests.thy ===== *)
theory Module_Tests imports Unit_Tests Backend_Start Launcher Trainer begin

text \<open>
  The tests of the modules without collaborators, run on the model: \<open>worker/tests/test_config.py\<close>,
  \<open>test_validation.py\<close>, \<open>test_guardrail.py\<close>, \<open>test_redis_queue.py\<close>, \<open>test_launcher.py\<close> and
  \<open>test_trainer.py\<close>, and those of the backend's configuration (\<open>backend/internal/config/config_test.go\<close>).
\<close>

section \<open>Configuration\<close>

text \<open>\<open>_set_required\<close>, and an environment changed by \<open>setenv\<close>.\<close>

definition required_env :: environ where
  "required_env key = (if key \<in> set REQUIRED_ENV then Some (''value-for-'' @ key) else None)"

lemma required_env_missing [simp]: "missing_env required_env = []"
  by code_simp

lemmas config_run = load_def env_get_def int_env_def gpu_ids_env_def missing_env_def env_present_def

lemma test_load_with_required_vars_applies_defaults:
  "load required_env = Inr \<lparr>database_url = ''value-for-DATABASE_URL'', redis_url = ''value-for-REDIS_URL'',
     garage_endpoint = ''value-for-GARAGE_ENDPOINT'', garage_access_key = ''value-for-GARAGE_ACCESS_KEY'',
     garage_secret_key = ''value-for-GARAGE_SECRET_KEY'', garage_bucket = ''value-for-GARAGE_BUCKET'',
     model_cache_dir = DEFAULT_MODEL_CACHE_DIR, queue_block_seconds = DEFAULT_QUEUE_BLOCK_SECONDS,
     visibility_timeout_seconds = DEFAULT_VISIBILITY_TIMEOUT_SECONDS,
     reconcile_interval_seconds = DEFAULT_RECONCILE_INTERVAL_SECONDS,
     orphan_grace_seconds = DEFAULT_ORPHAN_GRACE_SECONDS, gpu_ids = DEFAULT_GPU_IDS\<rparr>"
  by code_simp

lemma test_missing_required_vars_raises_listing_all:
  "case load (\<lambda>_. None) of Inl (ConfigError m) \<Rightarrow> list_all (\<lambda>k. sublist k m) REQUIRED_ENV | _ \<Rightarrow> False"
  by code_simp

lemma test_missing_single_var_named_in_error:
  "case load (required_env(''REDIS_URL'' := None)) of
     Inl (ConfigError m) \<Rightarrow> sublist ''REDIS_URL'' m \<and> \<not> sublist ''DATABASE_URL'' m | _ \<Rightarrow> False"
  by code_simp

lemma test_empty_required_var_treated_as_missing:
  "case load (required_env(''GARAGE_BUCKET'' \<mapsto> [])) of Inl (ConfigError m) \<Rightarrow> sublist ''GARAGE_BUCKET'' m | _ \<Rightarrow> False"
  by code_simp

lemma test_int_overrides_are_parsed:
  "case load (required_env(''QUEUE_BLOCK_SECONDS'' \<mapsto> ''10'', ''VISIBILITY_TIMEOUT_SECONDS'' \<mapsto> ''1800'',
       ''MODEL_CACHE_DIR'' \<mapsto> ''/mnt/models'')) of
     Inr c \<Rightarrow> queue_block_seconds c = 10 \<and> visibility_timeout_seconds c = 1800 \<and> model_cache_dir c = ''/mnt/models''
   | _ \<Rightarrow> False"
  by code_simp

lemma test_blank_int_override_falls_back_to_default:
  "map_sum id queue_block_seconds (load (required_env(''QUEUE_BLOCK_SECONDS'' \<mapsto> []))) = Inr DEFAULT_QUEUE_BLOCK_SECONDS"
  by code_simp

lemma test_non_integer_int_env_raises:
  "case load (required_env(''RECONCILE_INTERVAL_SECONDS'' \<mapsto> ''not-a-number'')) of
     Inl (ConfigError m) \<Rightarrow> sublist ''RECONCILE_INTERVAL_SECONDS'' m | _ \<Rightarrow> False"
  by code_simp

lemma test_crucible_gpus_parsed_into_tuple:
  "map_sum id gpu_ids (load (required_env(''CRUCIBLE_GPUS'' \<mapsto> ''0,1''))) = Inr [''0'', ''1'']"
  by code_simp

lemma test_crucible_gpus_blank_falls_back_to_default:
  "map_sum id gpu_ids (load (required_env(''CRUCIBLE_GPUS'' \<mapsto> ''  ''))) = Inr DEFAULT_GPU_IDS"
  by code_simp

text \<open>The backend's.\<close>

lemma TestLoad_MissingVars:
  "case backend_load (\<lambda>_. None) of Inl m \<Rightarrow> list_all (\<lambda>k. sublist k m) REQUIRED_ENV | _ \<Rightarrow> False"
  by code_simp

lemma TestLoad_AllVarsSet:
  "case backend_load required_env of
     Inr b \<Rightarrow> bc_database_url b = ''value-for-DATABASE_URL'' \<and> bc_redis_url b = ''value-for-REDIS_URL'' \<and> bc_port b = ''8080''
   | _ \<Rightarrow> False"
  by code_simp

lemma TestLoad_PortOverride:
  "map_sum id bc_port (backend_load (required_env(''PORT'' \<mapsto> ''9090''))) = Inr ''9090''"
  by code_simp

lemma TestLoad_PartialMissing:
  "case backend_load [''DATABASE_URL'' \<mapsto> ''postgres://x''] of Inl m \<Rightarrow> \<not> sublist ''DATABASE_URL'' m | _ \<Rightarrow> False"
  by code_simp

section \<open>The gates\<close>

lemma test_supported_single_file_formats:
  "map validate_dataset_format [''datasets/demo/abc.csv'', ''datasets/demo/abc.json'', ''datasets/demo/abc.parquet'', ''datasets/demo/ABC.CSV'']
     = [Inr (Some ''csv''), Inr (Some ''json''), Inr (Some ''parquet''), Inr (Some ''csv'')]"
  by code_simp

lemma test_prefix_dataset_defers_to_content_check:
  "map detect_format [''datasets/demo/v1/'', ''datasets/demo/v1''] = [None, None]"
  "map validate_dataset_format [''datasets/demo/v1/'', ''datasets/demo/v1''] = [Inr None, Inr None]"
  by code_simp+

lemma test_unsupported_extension:
  "case validate_dataset_format ''datasets/demo/abc.txt'' of
     Inl (UnsupportedDatasetFormatError f p m) \<Rightarrow> f = ''txt'' \<and> p = ''datasets/demo/abc.txt'' | _ \<Rightarrow> False"
  "case validate_dataset_format ''datasets/demo/abc.xlsx'' of
     Inl e \<Rightarrow> list_all (\<lambda>f. sublist f (exn_str e)) [''csv'', ''json'', ''parquet''] | _ \<Rightarrow> False"
  by code_simp+

lemma test_models_that_fit:
  "check_model_fits (Some 7000000000) (Some ''comfortable'') = Inr ()"
  "check_model_fits (Some 14000000000) (Some ''tight'') = Inr ()"
  "check_model_fits (Some TIGHT_MAX_PARAMS) (Some ''tight'') = Inr ()"
  "check_model_fits None None = Inr ()"
  by (simp_all add: check_model_fits_def TIGHT_MAX_PARAMS_def)

lemma test_models_that_do_not_fit:
  "isl (check_model_fits (Some (TIGHT_MAX_PARAMS + 1)) (Some ''tight''))"
  "isl (check_model_fits None (Some ''unsupported''))"
  "isl (check_model_fits (Some 30000000000) (Some ''unsupported''))"
  by (simp_all add: check_model_fits_def)

section \<open>The reliable queue\<close>

context redis_server begin

abbreviation no_redis :: redis where
  "no_redis \<equiv> \<lparr>rlists = (\<lambda>_. []), rhashes = (\<lambda>_. None)\<rparr>"

lemma test_claim_returns_none_on_empty_queue: "fst (queue_claim R no_redis) = None"
  by (simp add: queue_claim_def rpoplpush_empty_doc)

lemma test_claim_moves_job_to_processing:
  "\<exists>s. queue_claim R (lpush R QUEUE_KEY x no_redis) = (Some x, s) \<and> in_flight_ids R s = {x} \<and> queued_ids R s = {}"
  using claim_list [of "lpush R QUEUE_KEY x no_redis" "[]" x] by (simp add: lpush_doc queue_id_sets)

lemma test_claim_is_fifo:
  "fst (claim_n (queue_claim R) 2 (lpush R QUEUE_KEY y (lpush R QUEUE_KEY x no_redis))) = [Some x, Some y]"
proof -
  let ?s = "lpush R QUEUE_KEY y (lpush R QUEUE_KEY x no_redis)"
  let ?t = "set_rlist PROCESSING_KEY [x] (set_rlist QUEUE_KEY [y] ?s)"
  have "queue_claim R ?s = (Some x, ?t)"
    using claim_list [of ?s "[y]" x] by (simp add: lpush_doc)
  moreover have "fst (queue_claim R ?t) = Some y"
    using claim_list [of ?t "[]" y] by (simp add: lpush_doc)
  ultimately show ?thesis
    by (auto simp: numeral_2_eq_2 split: prod.split)
qed

lemma test_ack_and_requeue:
  assumes "queue_claim R (lpush R QUEUE_KEY x no_redis) = (r, s)"
  shows "in_flight_ids R (queue_ack R x s) = {}"
    and "in_flight_ids R (queue_requeue R x s) = {}" "queued_ids R (queue_requeue R x s) = {x}"
  using assms claim_list [of "lpush R QUEUE_KEY x no_redis" "[]" x]
  by (auto simp: lpush_doc queue_id_sets ack_lists requeue_lists)

lemma test_requeue_does_not_duplicate:
  "lrange R QUEUE_KEY 0 (- 1) (queue_requeue R x no_redis) = [x]"
  "lrange R PROCESSING_KEY 0 (- 1) (queue_requeue R x no_redis) = []"
  by (simp_all add: lrange_all_doc requeue_lists)

end

section \<open>The launcher\<close>

lemma test_single_gpu_runs_inline_and_pins_device:
  "case launch True (sample_config\<lparr>gpu_ids := [''0'']\<rparr>) (\<lambda>cfg p. environment p ''CUDA_VISIBLE_DEVICES'')
       \<lparr>environment = (\<lambda>_. None), handlers = (\<lambda>_. None)\<rparr> of
     Inline d \<Rightarrow> d = Some ''0'' | _ \<Rightarrow> False"
  by code_simp

text \<open>The fake processes of the test are never alive, so the supervisor returns at once.\<close>

lemma test_multi_gpu_spawns_one_process_per_device:
  "case launch True sample_config (\<lambda>cfg p. environment p ''CUDA_VISIBLE_DEVICES'')
       \<lparr>environment = (\<lambda>_. None), handlers = (\<lambda>_. None)\<rparr> of
     Spawned ws \<Rightarrow> ws = [(''crucible-worker-gpu0'', Some ''0''), (''crucible-worker-gpu1'', Some ''1'')] | _ \<Rightarrow> False"
  "case sup_start 2 [[ChildExit 0], [ChildExit 1]] [] of Inr s \<Rightarrow> procs (sup_round s) = [] | Inl _ \<Rightarrow> False"
  by code_simp+

section \<open>The data set of a fine-tune\<close>

definition tmp_path :: "(string \<times> string) list \<Rightarrow> disk" where
  "tmp_path files = ([], Dir) # ([''tmp''], Dir) # map (\<lambda>(n, s). ([''tmp'', n], File s)) files"

lemma test_resolve_text_field:
  "resolve_text_field [''text'', ''label''] = Inr ''text''"
  "case resolve_text_field [''prompt'', ''completion''] of Inl e \<Rightarrow> sublist ''text'' (exn_str e) | _ \<Rightarrow> False"
  by code_simp+

lemma test_dataset_load_spec_single_csv_file:
  "dataset_load_spec [''tmp'', ''data.csv''] (tmp_path [(''data.csv'', ''text'')]) = Inr (''csv'', [path_text [''tmp'', ''data.csv'']])"
  by code_simp

lemma test_dataset_load_spec_directory_groups_files:
  "case dataset_load_spec [''tmp''] (tmp_path [(''a.json'', ''{}''), (''b.jsonl'', ''{}'')]) of
     Inr (fmt, files) \<Rightarrow> fmt = ''json'' \<and> length files = 2 | _ \<Rightarrow> False"
  by code_simp

lemma test_dataset_load_spec_rejects:
  "case dataset_load_spec [''tmp''] (tmp_path [(''notes.txt'', ''nope'')]) of Inl e \<Rightarrow> sublist ''txt'' (exn_str e) | _ \<Rightarrow> False"
  "case dataset_load_spec [''tmp''] (tmp_path [(''a.csv'', ''text''), (''b.parquet'', ''x'')]) of
     Inl e \<Rightarrow> sublist ''mixes'' (exn_str e) | _ \<Rightarrow> False"
  "isl (dataset_load_spec [''tmp'', ''does-not-exist''] (tmp_path []))"
  "isl (dataset_load_spec [''tmp''] (tmp_path []))"
  by code_simp+

end
