(* ===== verification/Spec2Isabelle.thy ===== *)
theory Spec2Isabelle imports Scripts Smoke_Test End_To_End Module_Tests begin

text \<open>
  The Crucible fine-tuning platform (\<open>src/ml-platform\<close>): a Go backend takes fine-tuning jobs over
  HTTP, records them in Postgres and pushes their ids on a Redis list; Python workers
  (\<open>worker/crucible_worker\<close>), one process per GPU, claim them, train, and record the outcome; two
  scripts (\<open>scripts\<close>) register the data sets and base models jobs refer to. This development models
  the Python code, the fakes of its tests, and of the backend everything from the request to the
  response and from the environment to the exit code.

  \<^bold>\<open>How the parts interact.\<close> The launcher starts one worker per GPU and supervises them. A worker
  sweeps once (reconciler), then claims an id (reliable queue), processes it (processor: gates,
  executor, job repository, status publisher), acknowledges it, and sweeps again when the interval
  has passed. The executor resolves the model (cache), downloads the data set (data set store),
  trains, and uploads the adapter (checkpoint store), beating its heart through a callback.
  The scripts fill the tables the worker reads. The backend creates and cancels jobs and shows them,
  with the live status laid over the row. All of them meet in the shared state: the tables,
  the Redis lists and hashes, the object store and the clock.

  \<^bold>\<open>Theories\<close>, in the order they build on each other:
  \<^item> \<open>Prelude\<close>: the effect type \<open>prog\<close> (state passing with exceptions), its rules, \<open>keeps\<close> (a relation
    between the state before and after, on every outcome), \<open>post\<close> (what holds when a program
    returns). \<open>Py_Text\<close>, \<open>Py_Uuid\<close>, \<open>Py_Exn\<close>: what the code uses of Python's \<open>str\<close>, \<open>int\<close>,
    \<open>PurePosixPath\<close>, \<open>uuid.UUID\<close> (a 128-bit word) and its exceptions.
  \<^item> \<open>Job_Schema\<close> (\<open>shared/schema/job.py\<close>), \<open>Validation\<close> (\<open>validation.py\<close>), \<open>Guardrail\<close>
    (\<open>guardrail.py\<close>, \<open>vram_hint_for\<close> of \<open>register_model.py\<close>), \<open>Config\<close> (\<open>config.py\<close>).
  \<^item> \<open>Job_Db\<close> (\<open>db.py\<close>, \<open>repository.py\<close>: the statements over \<open>jobs\<close> and \<open>models\<close>, the life cycle \<open>life\<close>),
    \<open>Registry_Db\<close> (the transactions of both scripts over \<open>datasets\<close> and \<open>models\<close>, and the constraints
    of the migrations as the invariant \<open>registry_ok\<close>).
  \<^item> \<open>Redis\<close>, \<open>Object_Store\<close>: the servers as parameters; the locales \<open>redis_server\<close> and \<open>s3_server\<close> state the
    documented laws of their commands, and reference implementations interpret them.
    \<open>Redis_Queue\<close> (\<open>redis_queue.py\<close>; the contract \<open>reliable_queue\<close>), \<open>Status\<close> (\<open>status.py\<close>),
    \<open>Go_Time\<close> (the time stamps of \<open>status.py\<close> as \<open>time.RFC3339\<close> reads them),
    \<open>Backend\<close> (\<open>backend/internal/db/jobs.go\<close>, \<open>queue/redis.go\<close>).
  \<^item> \<open>Fs\<close>, \<open>Host\<close>: the local disk and programs on it, with temporary directories; \<open>Disk_Wf\<close>: what every
    disk operation keeps.
  \<^item> \<open>World\<close>: the shared state, everybody's atomic steps (\<open>op\<close>), and one call of this process
    (\<open>call\<close>); the locale \<open>guarantee\<close>: what every step keeps, every program of the worker keeps.
    \<open>Repository\<close>: the clients as programs over the world, and the records of the collaborators the
    classes of the worker are built over.
  \<^item> \<open>Processor\<close>, \<open>Processor_Spec\<close>, \<open>Processor_Props\<close> (\<open>processor.py\<close>), \<open>Reconciler\<close>,
    \<open>Reconciler_Props\<close> (\<open>reconciler.py\<close>), \<open>Worker_Main\<close>, \<open>Worker_Props\<close> (\<open>main.py\<close>), \<open>Launcher\<close>
    (\<open>launcher.py\<close>). A class is a record of its collaborators and a definition per method over any
    of them (\<open>processor_process\<close>, \<open>reconciler_reconcile\<close>); \<open>process\<close> and \<open>reconcile\<close> are the
    instances \<open>main.run\<close> builds.
  \<^item> \<open>Job_Contract\<close>: the contract of the protocol \<open>JobRepository\<close> over the abstract phases of jobs
    (the locale \<open>job_repository_contract\<close>, met by Postgres). \<open>Worker_Contract\<close>: what the processor and
    the reconciler do over any collaborators that keep their contracts (the locale
    \<open>worker_contract\<close>, over abstract boards). \<open>Fake_Repository\<close>, \<open>Test_Bench\<close>
    (\<open>worker/tests/conftest.py\<close>): the fakes meet the same contracts. \<open>Unit_Tests\<close>,
    \<open>Module_Tests\<close>: the cases of \<open>test_processor.py\<close>, \<open>test_reconciler.py\<close> and \<open>test_redis_queue.py\<close> hold
    of the definitions over every documented Redis server, and so do those of the configuration (worker
    and backend), the gates, the launcher and the data set check of the trainer.
  \<^item> \<open>Garage\<close> (\<open>garage.py\<close>), \<open>Dataset_Store\<close>, \<open>Dataset_Spec\<close> (\<open>dataset_store.py\<close>), \<open>Checkpoint_Store\<close>
    (\<open>checkpoint_store.py\<close>), \<open>Model_Cache\<close> (\<open>model_cache.py\<close>), \<open>Trainer\<close> (\<open>trainer.py\<close>), \<open>Executor\<close>,
    \<open>Executor_Props\<close>, \<open>Executor_Chain\<close> (\<open>executor.py\<close>), \<open>Production\<close> (the assembly in \<open>main.py\<close>).
  \<^item> \<open>Register_Model\<close> (\<open>register_model.py\<close>), \<open>Register_Dataset\<close>, \<open>Register_Props\<close>, \<open>Register_Cases\<close>
    (\<open>register_dataset.py\<close>); \<open>Command_Line\<close> (what the scripts use of \<open>argparse\<close>), \<open>Scripts\<close> (both scripts
    from the command line to the exit code and the output).
  \<^item> \<open>Smoke_Test\<close> (\<open>worker/scripts/qlora_smoke_test.py\<close>).
  \<^item> \<open>Backend_Http\<close> (\<open>CreateJob\<close> and the cancel action of \<open>handler/jobs.go\<close>, \<open>handler/validate.go\<close>),
    \<open>Job_View\<close> (\<open>GetJob\<close> with the live status), \<open>Listing\<close> (the listings of jobs, models and data sets and
    their stores), \<open>Api\<close> (the routes of \<open>cmd/api/main.go\<close>, \<open>handler/middleware.go\<close>,
    \<open>handler/health.go\<close>), \<open>Backend_Start\<close> (\<open>internal/config/config.go\<close>, \<open>db/postgres.go\<close>,
    \<open>NewClient\<close> of \<open>queue/redis.go\<close>, \<open>main\<close> of \<open>cmd/api/main.go\<close>).
  \<^item> \<open>System\<close>: all components together. The inductive relation \<open>reach\<close> is the abstract system of atomic
    steps, \<open>deployment\<close> the runs of all components, requests to the backend among them; the second
    refines the first. \<open>End_To_End\<close>: one job through all of them.

  \<^bold>\<open>State and failures.\<close> A record of the code is a record here; a table is the list of its rows; a
  \<open>raise\<close> is a value \<open>Inl e\<close>. A call to a service takes one \<open>slot\<close> of the schedule: the steps others
  make just before it, a signal to this process, and whether the call fails without effect, fails
  after its effect, or kills the process. A theorem about every world is therefore about every
  interleaving, at the grain of single statements and transactions, and every pattern of failures.
  Branch by branch behaviour is stated for a world with an empty schedule.

  \<^bold>\<open>Parameters and their laws.\<close> Redis and S3 (\<open>services\<close>, the laws in \<open>redis_server\<close> and \<open>s3_server\<close>), the Hugging
  Face cache (\<open>hub\<close>, \<open>hub_ok\<close>: it works on the local disk only and raises Python exceptions) and
  \<open>model_info\<close>, the training libraries (\<open>gpu_stack\<close>, \<open>gpu_ok\<close>: they raise Python exceptions), the names of temporary directories (\<open>fresh_tmp\<close>: new ones),
  the SHA-256 function \<open>sha\<close>, the JSON decoder, the UUID parser and the row orders of the backend
  (\<open>backend_env\<close>), its drivers (\<open>drivers\<close>); of these last no law is assumed unless a theorem names it.
  Each law has an instance for which it is proved.

  \<^bold>\<open>Loops.\<close> The worker loop and the supervisor are \<open>while_option\<close>, so that not ending is the value
  \<open>None\<close>; that they end is proved where they do. A claim without a time limit recurses over the
  schedule and gives \<open>Blocked\<close> when nothing ever comes. Everything else recurses over finite data;
  no fuel is used.

  \<^bold>\<open>What the theorems show.\<close> Of the processor: whatever else happens, a job only moves along its
  life cycle, finished rows never change, returning means acknowledged, and each branch does
  exactly the steps it should. Of the reconciler: its exact effect, what it recovers and spares,
  and the one kind of job it loses. Of the worker and the supervisor: safety over a whole run,
  termination on a signal, and the window in which the launch cannot be stopped in order. Of the
  tests: any sequence of calls ends alike on the fakes and in production. Of the executor: downloads
  and uploads are exact, the gate and the loader agree, the whole chain leaves exactly the
  checkpoint. Of the scripts: the constraints are kept on every outcome, what is registered can be
  downloaded as it was, the registered model is the one the worker uses, a command repeated changes
  nothing, and the cases in which a registration misleads. Of the backend: a job it accepts decodes
  in the worker; only an authenticated request writes; what \<open>GET /jobs/{id}\<close> answers, that it reads
  the worker's time stamps as they were written, and when it shows a completion that was dropped; the
  pages of a listing partition what was asked for; a successful cancellation is final; what becomes of
  a job whose enqueue fails; and it starts in exactly the environments the worker can use. Of the
  whole: every run of every component is a sequence of the atomic steps the proofs about one
  component allow the others, and a job that is posted, trained and read back ends as it should.

  \<^bold>\<open>Not modelled.\<close> Logging, and the progress lines on the standard error of the scripts; the encoding
  of responses to JSON, the \<open>statusWriter\<close> and the recovery from panics (no handler panics); the
  scheduling of the server's goroutines and its time limits; the infrastructure files;
  \<open>RedisQueue.ping\<close> (used by no code of the worker); the parts of a multipart transfer (one request
  here, so the two size constants of \<open>register_dataset.py\<close> play no part); a bucket changing between
  two pages of one listing; symbolic links and file permissions; text outside Latin-1; the foreign key
  from \<open>jobs\<close> to \<open>datasets\<close>; clocks of different machines (all services share one clock); transactions
  that run into a serialisation conflict (a transaction is one step). What is left of the Python files
  are imports, the texts of docstrings, loggers and the bodies of exception classes.
\<close>

end
